theory Spec2Isabelle
  imports Main "HOL-Library.Char_ord" "HOL-Library.List_Lexorder" "HOL-Library.Multiset"
begin

section \<open>Strings, characters and numbers\<close>

text \<open>
  The extractors work on Python \<open>str\<close> values. A text is modelled as a \<open>string\<close>; a
  \<open>char\<close> stands for one code point below 256 (Latin-1). On these code points \<open>\d\<close>
  accepts the digits 0 to 9 only; \<open>\s\<close> and \<open>str.strip\<close> accept the code points 9 to 13,
  28 to 32, 133 (next line) and 160 (no-break space); \<open>str.lower\<close> maps \<open>A\<close> to \<open>Z\<close> and
  the accented capitals 192 to 222 (but not the multiplication sign 215) to the code
  point 32 above; \<open>\w\<close> accepts the digits, the letters, the underscore and the Latin-1
  letters and numerals above 127. The ranges \<open>[a-z]\<close> and \<open>[A-Z]\<close> of the patterns are the
  ASCII letters. Natural numbers model the non-negative Python integers that \<open>int\<close> reads
  from a run of digits.
\<close>

definition is_digit :: "char \<Rightarrow> bool" where
  "is_digit c = (48 \<le> (of_char c :: nat) \<and> (of_char c :: nat) \<le> 57)"

definition is_space :: "char \<Rightarrow> bool" where
  "is_space c = ((9 \<le> (of_char c :: nat) \<and> (of_char c :: nat) \<le> 13)
     \<or> (28 \<le> (of_char c :: nat) \<and> (of_char c :: nat) \<le> 32)
     \<or> (of_char c :: nat) = 133 \<or> (of_char c :: nat) = 160)"

definition is_upper :: "char \<Rightarrow> bool" where
  "is_upper c = (65 \<le> (of_char c :: nat) \<and> (of_char c :: nat) \<le> 90)"

definition is_lower :: "char \<Rightarrow> bool" where
  "is_lower c = (97 \<le> (of_char c :: nat) \<and> (of_char c :: nat) \<le> 122)"

definition is_word :: "char \<Rightarrow> bool" where
  "is_word c = (is_digit c \<or> is_upper c \<or> is_lower c \<or> c = CHR ''_'' \<or>
     (of_char c :: nat) \<in> {170, 178, 179, 181, 185, 186, 188, 189, 190} \<or>
     (192 \<le> (of_char c :: nat) \<and> (of_char c :: nat) \<noteq> 215 \<and> (of_char c :: nat) \<noteq> 247))"

definition lower_char :: "char \<Rightarrow> char" where
  "lower_char c =
     (if is_upper c \<or> (192 \<le> (of_char c :: nat) \<and> (of_char c :: nat) \<le> 222 \<and>
          (of_char c :: nat) \<noteq> 215)
      then char_of ((of_char c :: nat) + 32) else c)"

definition lower :: "string \<Rightarrow> string" where
  "lower s = map lower_char s"

definition strip :: "string \<Rightarrow> string" where
  "strip s = rev (dropWhile is_space (rev (dropWhile is_space s)))"

text \<open>\<open>w in s\<close> on strings.\<close>

fun contains :: "string \<Rightarrow> string \<Rightarrow> bool" where
  "contains w [] = (w = [])"
| "contains w (c # s) = (take (length w) (c # s) = w \<or> contains w s)"

text \<open>\<open>int(ds)\<close> on a run of ASCII digits, and \<open>str(n)\<close> (the \<open>{n}\<close> of an f-string).\<close>

definition nat_of_digits :: "string \<Rightarrow> nat" where
  "nat_of_digits ds = foldl (\<lambda>a c. 10 * a + ((of_char c :: nat) - 48)) 0 ds"

function show_nat :: "nat \<Rightarrow> string" where
  "show_nat n = (if n < 10 then [char_of (48 + n)]
                 else show_nat (n div 10) @ [char_of (48 + n mod 10)])"
  by pat_completeness auto
termination
  by (relation "measure id") auto

declare show_nat.simps [simp del]

text \<open>
  \<open>re.search\<close>: the pattern is tried at every position from the left, and the first
  position where it matches wins. The argument \<open>m\<close> is the pattern tried at the
  beginning of a text.
\<close>

fun re_search :: "(string \<Rightarrow> 'a option) \<Rightarrow> string \<Rightarrow> 'a option" where
  "re_search m [] = m []"
| "re_search m (c # s) = (case m (c # s) of Some v \<Rightarrow> Some v | None \<Rightarrow> re_search m s)"

section \<open>patched\_extractor.py: \_fix\_question\_numbering\<close>

text \<open>
  A question object is a dictionary; the numbering pass reads and rewrites only its
  \<open>question_number\<close>, so the other entries are the extension of the record.
\<close>

record numbered =
  question_number :: string

text \<open>
  \<open>re.match(r'(\d+)\.(?:\s*\(([a-z])\))?', question_number)\<close>: the main number and the
  sub-part letter (\<open>""\<close> when the optional group did not take part).
\<close>

definition question_number_match :: "string \<Rightarrow> (nat \<times> string) option" where
  "question_number_match s =
     (let ds = takeWhile is_digit s in
      case dropWhile is_digit s of
        [] \<Rightarrow> None
      | c # r \<Rightarrow>
          if ds = [] \<or> c \<noteq> CHR ''.'' then None
          else Some (nat_of_digits ds,
                 case dropWhile is_space r of
                   a # b # e # _ \<Rightarrow>
                     if a = CHR ''('' \<and> is_lower b \<and> e = CHR '')'' then [b] else []
                 | _ \<Rightarrow> []))"

text \<open>
  \<open>question_groups\<close> is a dict from the main number to the list of
  \<open>(sub_part, question)\<close>; a dict keeps its keys in insertion order.
\<close>

fun group_append :: "nat \<Rightarrow> 'v \<Rightarrow> (nat \<times> 'v list) list \<Rightarrow> (nat \<times> 'v list) list" where
  "group_append k v [] = [(k, [v])]"
| "group_append k v ((k', vs) # g) =
     (if k = k' then (k', vs @ [v]) # g else (k', vs) # group_append k v g)"

definition group_step ::
  "(nat \<times> (string \<times> 'a numbered_scheme) list) list \<Rightarrow> 'a numbered_scheme
     \<Rightarrow> (nat \<times> (string \<times> 'a numbered_scheme) list) list" where
  "group_step g question =
     (case question_number_match (question_number question) of
        None \<Rightarrow> g
      | Some (main_num, sub_part) \<Rightarrow> group_append main_num (sub_part, question) g)"

definition question_groups ::
  "'a numbered_scheme list \<Rightarrow> (nat \<times> (string \<times> 'a numbered_scheme) list) list" where
  "question_groups questions = foldl group_step [] questions"

text \<open>The f-strings \<open>f"{current_num}. ({sub_part})"\<close> and \<open>f"{current_num}."\<close>.\<close>

definition format_number :: "nat \<Rightarrow> string \<Rightarrow> string" where
  "format_number current_num sub_part =
     (if sub_part \<noteq> [] then show_nat current_num @ ''. ('' @ sub_part @ '')''
      else show_nat current_num @ ''.'')"

text \<open>
  The renumbering loop over the sorted groups; \<open>sorted\<close> with a key is a stable sort,
  as \<open>sort_key\<close> is.
\<close>

fun renumber ::
  "nat \<Rightarrow> (nat \<times> (string \<times> 'a numbered_scheme) list) list \<Rightarrow> 'a numbered_scheme list" where
  "renumber current_num [] = []"
| "renumber current_num ((main_num, grp) # gs) =
     map (\<lambda>(sub_part, question).
            question\<lparr>question_number := format_number current_num sub_part\<rparr>)
         (sort_key fst grp)
     @ renumber (Suc current_num) gs"

definition fix_question_numbering ::
  "'a numbered_scheme list \<Rightarrow> string \<Rightarrow> 'a numbered_scheme list" where
  "fix_question_numbering questions subject =
     renumber 1 (sort_key fst (question_groups questions))"

text \<open>The main numbers that a list of question objects shows.\<close>

definition main_numbers :: "'a numbered_scheme list \<Rightarrow> nat list" where
  "main_numbers qs =
     map (\<lambda>q. case question_number_match (question_number q) of
                 Some (n, _) \<Rightarrow> n | None \<Rightarrow> 0) qs"

text \<open>
  The claim as the specification words it: the main numbers are \<open>1, 2, 3, \<dots>\<close>. And
  what the pass achieves: consecutive main numbers are equal or grow by one.
\<close>

definition consecutive_from_one :: "nat list \<Rightarrow> bool" where
  "consecutive_from_one ns = (ns = [1..<Suc (length ns)])"

fun steps_by_at_most_one :: "nat list \<Rightarrow> bool" where
  "steps_by_at_most_one (x # y # r) = ((y = x \<or> y = Suc x) \<and> steps_by_at_most_one (y # r))"
| "steps_by_at_most_one _ = True"

text \<open>A sub-part as the pattern captures it: empty, or one lower-case letter.\<close>

definition valid_sub :: "string \<Rightarrow> bool" where
  "valid_sub s = (case s of [] \<Rightarrow> True | b # r \<Rightarrow> is_lower b \<and> r = [])"

text \<open>
  Invariants of the dict of groups: no group is empty, every member was filed under the
  main number and the sub-part that its question number shows.
\<close>

definition parses :: "'a numbered_scheme \<Rightarrow> bool" where
  "parses q = (question_number_match (question_number q) \<noteq> None)"

definition group_inv :: "(nat \<times> (string \<times> 'a numbered_scheme) list) list \<Rightarrow> bool" where
  "group_inv G = (distinct (map fst G) \<and>
     list_all (\<lambda>(k, g). g \<noteq> [] \<and>
        list_all (\<lambda>(sub, q). question_number_match (question_number q) = Some (k, sub)) g) G)"

definition group_ok :: "(string \<times> 'a) list \<Rightarrow> bool" where
  "group_ok g = (g \<noteq> [] \<and> list_all (\<lambda>(sub, q). valid_sub sub) g)"

text \<open>The dict of groups that the pass builds when it reads its own output.\<close>

definition tag_group :: "nat \<Rightarrow> (string \<times> 'a numbered_scheme) list \<Rightarrow> (string \<times> 'a numbered_scheme) list" where
  "tag_group n g = map (\<lambda>(sub, q). (sub, q\<lparr>question_number := format_number n sub\<rparr>)) g"

fun regroup :: "nat \<Rightarrow> (nat \<times> (string \<times> 'a numbered_scheme) list) list \<Rightarrow> (nat \<times> (string \<times> 'a numbered_scheme) list) list" where
  "regroup n [] = []"
| "regroup n ((k, g) # gs) = (n, tag_group n (sort_key fst g)) # regroup (Suc n) gs"

text \<open>
  The question objects in the order in which the renumbering loop visits them.
\<close>

definition originals :: "(nat \<times> (string \<times> 'a numbered_scheme) list) list \<Rightarrow> 'a numbered_scheme list" where
  "originals G = concat (map (\<lambda>(k, g). map snd (sort_key fst g)) G)"

text \<open>
  The main number and the sub-part that the pattern reads from a question object, and
  the number that the pass gives it: one more than the number of distinct detected main
  numbers below its own.
\<close>

definition detected_main :: "'a numbered_scheme \<Rightarrow> nat" where
  "detected_main q =
     (case question_number_match (question_number q) of Some (n, _) \<Rightarrow> n | None \<Rightarrow> 0)"

definition detected_sub :: "'a numbered_scheme \<Rightarrow> string" where
  "detected_sub q =
     (case question_number_match (question_number q) of Some (_, s) \<Rightarrow> s | None \<Rightarrow> [])"

definition new_number :: "'a numbered_scheme list \<Rightarrow> 'a numbered_scheme \<Rightarrow> nat" where
  "new_number qs q =
     Suc (length (filter (\<lambda>m. m < detected_main q) (remdups (map detected_main (filter parses qs)))))"

section \<open>advanced\_pdf\_extractor\_v2.py: \_extract\_marks\<close>

text \<open>
  The pattern is \<open>(?:marks?[:\s]*|\s)\[?(\d+)\]?\s*$\<close>, searched with \<open>re.IGNORECASE\<close>.
  \<open>optional P\<close> is a greedy \<open>x?\<close> for the characters \<open>x\<close> that \<open>P\<close> accepts.
  Every repetition in it is followed by something that no character of the repetition can
  start, so the greedy choice is the only one that can succeed and the pattern is tried
  deterministically. \<open>marks_tail\<close> is \<open>\[?(\d+)\]?\s*$\<close>; since \<open>\s*\<close> takes a final newline,
  \<open>$\<close> holds exactly where only white space is left.
\<close>

definition optional :: "(char \<Rightarrow> bool) \<Rightarrow> string \<Rightarrow> string" where
  "optional P s = (case s of [] \<Rightarrow> [] | c # t \<Rightarrow> if P c then t else c # t)"

definition marks_tail :: "string \<Rightarrow> nat option" where
  "marks_tail s =
     (let s1 = optional (\<lambda>c. c = CHR ''['') s;
          ds = takeWhile is_digit s1;
          r1 = optional (\<lambda>c. c = CHR '']'') (dropWhile is_digit s1)
      in if ds \<noteq> [] \<and> list_all is_space r1 then Some (nat_of_digits ds) else None)"

definition marks_match_at :: "string \<Rightarrow> nat option" where
  "marks_match_at s =
     (if lower (take 4 s) = ''mark'' then
        marks_tail (dropWhile (\<lambda>c. c = CHR '':'' \<or> is_space c)
          (optional (\<lambda>c. lower_char c = CHR ''s'') (drop 4 s)))
      else (case s of [] \<Rightarrow> None | c # t \<Rightarrow> if is_space c then marks_tail t else None))"

definition extract_marks :: "string \<Rightarrow> nat option" where
  "extract_marks txt = re_search marks_match_at txt"

text \<open>
  \<open>re.sub\<close> of the same pattern by the empty string: the leftmost match runs to the end
  of the text, so what is left is the text before it.
\<close>

fun strip_marks :: "string \<Rightarrow> string" where
  "strip_marks [] = []"
| "strip_marks (c # s) = (if marks_match_at (c # s) \<noteq> None then [] else c # strip_marks s)"

text \<open>
  The shape of a marks annotation, in words of the pattern: a context (one white-space
  character, or \<open>mark\<close>/\<open>marks\<close> in any case followed by colons and white space), an
  optional opening bracket, the digits, an optional closing bracket and white space up
  to the end.
\<close>

definition marks_context :: "string \<Rightarrow> bool" where
  "marks_context ctx =
     ((\<exists>c. ctx = [c] \<and> is_space c) \<or>
      (\<exists>w r. ctx = w @ r \<and> (lower w = ''mark'' \<or> lower w = ''marks'') \<and>
         list_all (\<lambda>c. c = CHR '':'' \<or> is_space c) r))"

definition marks_annotation :: "string \<Rightarrow> nat \<Rightarrow> bool" where
  "marks_annotation txt n =
     (\<exists>pre ctx b ds e ws. txt = pre @ ctx @ b @ ds @ e @ ws \<and> marks_context ctx \<and>
        (b = [] \<or> b = ''['') \<and> ds \<noteq> [] \<and> list_all is_digit ds \<and> n = nat_of_digits ds \<and>
        (e = [] \<or> e = '']'') \<and> list_all is_space ws)"

text \<open> The last character of a text that is not white space.\<close>

definition last_visible :: "string \<Rightarrow> char option" where
  "last_visible txt = (case dropWhile is_space (rev txt) of [] \<Rightarrow> None | c # _ \<Rightarrow> Some c)"

section \<open>hierarchical\_extractor.py: \_extract\_marks\<close>

text \<open>
  \<open>(\d+)\s*marks?\<close> with \<open>re.IGNORECASE\<close>, then \<open>\((\d+)\)\<close>, both searched anywhere in
  the text, and the default 1.
\<close>

definition marks_word_match_at :: "string \<Rightarrow> nat option" where
  "marks_word_match_at s =
     (let ds = takeWhile is_digit s;
          r = dropWhile is_space (dropWhile is_digit s)
      in if ds \<noteq> [] \<and> lower (take 4 r) = ''mark'' then Some (nat_of_digits ds) else None)"

definition paren_number_match_at :: "string \<Rightarrow> nat option" where
  "paren_number_match_at s =
     (case s of
        [] \<Rightarrow> None
      | c # r \<Rightarrow>
          if c = CHR ''('' \<and> takeWhile is_digit r \<noteq> [] \<and> take 1 (dropWhile is_digit r) = '')''
          then Some (nat_of_digits (takeWhile is_digit r)) else None)"

definition hierarchical_extract_marks :: "string \<Rightarrow> nat" where
  "hierarchical_extract_marks txt =
     (case re_search marks_word_match_at txt of
        Some m \<Rightarrow> m
      | None \<Rightarrow>
          (case re_search paren_number_match_at txt of
             Some m \<Rightarrow> m
           | None \<Rightarrow> 1))"

text \<open>
  What the two patterns of \<open>_extract_marks\<close> look for, in words: somewhere in the text a
  run of digits, white space and \<open>mark\<close> in any case; or a run of digits between
  parentheses.
\<close>

definition number_before_mark :: "string \<Rightarrow> nat \<Rightarrow> bool" where
  "number_before_mark txt n =
     (\<exists>pre ds ws w r. txt = pre @ ds @ ws @ w @ r \<and> ds \<noteq> [] \<and> list_all is_digit ds \<and>
        n = nat_of_digits ds \<and> list_all is_space ws \<and> lower w = ''mark'')"

definition number_in_parentheses :: "string \<Rightarrow> nat \<Rightarrow> bool" where
  "number_in_parentheses txt n =
     (\<exists>pre ds r. txt = pre @ ''('' @ ds @ '')'' @ r \<and> ds \<noteq> [] \<and> list_all is_digit ds \<and>
        n = nat_of_digits ds)"

section \<open>final\_extractor\_fixed.py: \_extract\_questions\_from\_text\<close>

text \<open>
  The source file ends inside \<open>_post_process_all_questions\<close>; the helpers
  \<open>_clean_question_text\<close>, \<open>_extract_metadata\<close> and \<open>_determine_topic\<close> that the
  extraction loop calls are not in it. They are parameters of the model: every theorem
  holds for all of them. A metadata dictionary maps keys to Python values.
\<close>

datatype py_value = PyNone | PyInt int | PyStr string | PyBool bool

type_synonym metadata = "string \<Rightarrow> py_value option"

record helpers =
  clean_question_text :: "string \<Rightarrow> string"
  extract_metadata :: "string \<Rightarrow> metadata"
  determine_topic :: "string \<Rightarrow> string"

record part_question = numbered +
  ff_text :: string
  ff_marks :: py_value
  ff_topic :: string
  ff_metadata :: metadata
  ff_diagrams :: "string list"
  has_diagram_reference :: bool

text \<open> \<open>d.get(key, default)\<close>.\<close>

definition dict_get :: "('k \<Rightarrow> 'v option) \<Rightarrow> 'k \<Rightarrow> 'v \<Rightarrow> 'v" where
  "dict_get d k dflt = (case d k of Some v \<Rightarrow> v | None \<Rightarrow> dflt)"

text \<open>
  The dictionary literal that both the loop over questions and the loop over parts build
  from a number and a text; \<open>marks\<close> is \<open>metadata.get('marks', 1)\<close>.
\<close>

definition question_object :: "helpers \<Rightarrow> string \<Rightarrow> string \<Rightarrow> part_question" where
  "question_object h number txt =
     (let metadata = extract_metadata h txt
      in \<lparr>question_number = number,
          ff_text = txt,
          ff_marks = dict_get metadata ''marks'' (PyInt 1),
          ff_topic = determine_topic h txt,
          ff_metadata = metadata,
          ff_diagrams = [],
          has_diagram_reference =
            (contains ''diagram'' (lower txt) \<or> contains ''figure'' (lower txt))\<rparr>)"

text \<open>
  \<open>re.findall(r'\(([a-z])\)(.*?)(?=\([a-z]\)|$)', question_text, re.DOTALL)\<close>: a part
  marker, then the shortest text that is followed by another part marker or by the end
  (\<open>$\<close> also holds before a final newline).
\<close>

definition part_marker :: "string \<Rightarrow> (char \<times> string) option" where
  "part_marker s =
     (case s of
        a # b # c # rest \<Rightarrow>
          if a = CHR ''('' \<and> is_lower b \<and> c = CHR '')'' then Some (b, rest) else None
      | _ \<Rightarrow> None)"

fun lazy_part_text :: "string \<Rightarrow> string \<times> string" where
  "lazy_part_text [] = ([], [])"
| "lazy_part_text (c # s) =
     (if part_marker (c # s) \<noteq> None \<or> (c = CHR 0x0A \<and> s = []) then ([], c # s)
      else (case lazy_part_text s of (t, r) \<Rightarrow> (c # t, r)))"

lemma length_lazy_part_text: "length (snd (lazy_part_text s)) \<le> length s"
  by (induction s) (auto split: prod.splits)

lemma length_lazy_part_text_pair: "(t, r) = lazy_part_text s \<Longrightarrow> length r \<le> length s"
  by (metis length_lazy_part_text snd_conv)

lemma length_part_marker: "part_marker s = Some (l, rest) \<Longrightarrow> length rest < length s"
  by (auto simp: part_marker_def split: list.splits if_splits)

function find_parts :: "string \<Rightarrow> (char \<times> string) list" where
  "find_parts [] = []"
| "find_parts (c # s) =
     (case part_marker (c # s) of
        Some (part_letter, rest) \<Rightarrow>
          (case lazy_part_text rest of (part_text, r) \<Rightarrow> (part_letter, part_text) # find_parts r)
      | None \<Rightarrow> find_parts s)"
  by pat_completeness auto
termination
  by (relation "measure length") (auto dest!: length_lazy_part_text_pair length_part_marker)

text \<open>
  \<open>_extract_question_parts\<close>: \<open>None\<close> when the text has no part marker, else the list of
  the parts whose cleaned text has at least 5 characters.
\<close>

definition extract_question_parts ::
  "helpers \<Rightarrow> string \<Rightarrow> string \<Rightarrow> part_question list option" where
  "extract_question_parts h question_num question_text =
     (let parts = find_parts question_text
      in if parts = [] then None
         else Some (concat (map (\<lambda>(part_letter, part_text).
                 let part_text = clean_question_text h part_text
                 in if length part_text < 5 then []
                    else [question_object h (question_num @ ''.('' @ [part_letter] @ '')'') part_text])
               parts)))"

text \<open>
  \<open>re.search(r'\s+\d+\.\s+[A-Z]', question_text)\<close> tried at the beginning of a text, and
  the cut \<open>question_text[:match.start()]\<close> at the leftmost match.
\<close>

definition next_question_at :: "string \<Rightarrow> bool" where
  "next_question_at s =
     (let r = dropWhile is_space s; r1 = dropWhile is_digit r
      in takeWhile is_space s \<noteq> [] \<and> takeWhile is_digit r \<noteq> [] \<and>
         take 1 r1 = ''.'' \<and> takeWhile is_space (drop 1 r1) \<noteq> [] \<and>
         list_ex is_upper (take 1 (dropWhile is_space (drop 1 r1))))"

fun cut_before :: "(string \<Rightarrow> bool) \<Rightarrow> string \<Rightarrow> string" where
  "cut_before P [] = []"
| "cut_before P (c # s) = (if P (c # s) then [] else c # cut_before P s)"

text \<open>
  The body of the loop over \<open>matches\<close>, the pairs (number, text) that
  \<open>re.findall(r'(\d+)\.\s*((?:(?!\n\d+\.).)+)', full_text, re.DOTALL)\<close> returns, and the
  loop. A \<open>continue\<close> adds nothing to \<open>questions\<close>; a list of parts that is \<open>None\<close> or
  empty is falsy.
\<close>

definition question_of_match :: "helpers \<Rightarrow> string \<times> string \<Rightarrow> part_question list" where
  "question_of_match h m =
     (let question_num = show_nat (nat_of_digits (strip (fst m)));
          question_text = strip (snd m)
      in if length question_text < 10 then []
         else (case extract_question_parts h question_num question_text of
                 Some (p # ps) \<Rightarrow> p # ps
               | _ \<Rightarrow>
                   [question_object h (question_num @ ''.'')
                      (cut_before next_question_at (clean_question_text h question_text))]))"

definition questions_of_matches :: "helpers \<Rightarrow> (string \<times> string) list \<Rightarrow> part_question list" where
  "questions_of_matches h matches = concat (map (question_of_match h) matches)"

text \<open>
  \<open>_handle_multi_page_questions\<close>: when the next question's text contains
  \<open>continued\<close>, the loop appends that text to the current question object and steps over
  both, without appending the current one to the result.
\<close>

fun handle_multi_page_questions :: "part_question list \<Rightarrow> part_question list" where
  "handle_multi_page_questions (current # nxt # rest) =
     (if contains ''continued'' (lower (ff_text nxt)) then handle_multi_page_questions rest
      else current # handle_multi_page_questions (nxt # rest))"
| "handle_multi_page_questions qs = qs"

section \<open>advanced\_pdf\_extractor\_v2.py: \_clean\_text\<close>

text \<open>
  The noise patterns of \<open>_clean_text\<close> are removed with \<open>re.sub\<close>, so they are kept as
  data: a small regular-expression type with a backtracking matcher. \<open>rx_ends r p\<close> lists
  the positions where a match of \<open>r\<close> that starts at position \<open>p\<close> can end, in the order
  in which \<open>re\<close> tries them (the first alternative first, a repetition as long as
  possible first); a position is the character before it, if any, and the text after
  it. Literals are compared the way \<open>re.IGNORECASE\<close> does; \<open>^\<close> and \<open>$\<close> are those of
  \<open>re.MULTILINE\<close>. \<open>EnDash\<close> stands for the en dash (code point 8211) of four patterns,
  which no code point below 256 matches. The loop over \<open>math_symbol_map\<close> leaves a text
  of code points below 256 as it is: the degree sign is replaced by itself, and every
  other key is a code point above 255.
\<close>

datatype rx = Eps | Lit char | EnDash | Digit | Word | Space | Bol | Eol
  | Seq rx rx | Opt rx | Plus rx

type_synonym pos = "char option \<times> string"

function rx_ends :: "rx \<Rightarrow> pos \<Rightarrow> pos list" where
  "rx_ends Eps p = [p]"
| "rx_ends (Lit c) p =
     (case snd p of [] \<Rightarrow> [] | x # xs \<Rightarrow> if lower_char x = lower_char c then [(Some x, xs)] else [])"
| "rx_ends EnDash p = []"
| "rx_ends Digit p =
     (case snd p of [] \<Rightarrow> [] | x # xs \<Rightarrow> if is_digit x then [(Some x, xs)] else [])"
| "rx_ends Word p =
     (case snd p of [] \<Rightarrow> [] | x # xs \<Rightarrow> if is_word x then [(Some x, xs)] else [])"
| "rx_ends Space p =
     (case snd p of [] \<Rightarrow> [] | x # xs \<Rightarrow> if is_space x then [(Some x, xs)] else [])"
| "rx_ends Bol p = (if fst p = None \<or> fst p = Some (CHR 0x0A) then [p] else [])"
| "rx_ends Eol p = (case snd p of [] \<Rightarrow> [p] | x # xs \<Rightarrow> if x = CHR 0x0A then [p] else [])"
| "rx_ends (Seq a b) p = concat (map (rx_ends b) (rx_ends a p))"
| "rx_ends (Opt a) p = rx_ends a p @ [p]"
| "rx_ends (Plus a) p =
     concat (map (\<lambda>q. (if length (snd q) < length (snd p) then rx_ends (Plus a) q else []) @ [q])
       (rx_ends a p))"
  by pat_completeness auto
termination
  by (relation "measures [\<lambda>(r, p). size r, \<lambda>(r, p). length (snd p)]") auto

text \<open>
  \<open>re.sub(pattern, repl, text)\<close>: at each position from the left the first way to match
  decides; a match is replaced and the scan goes on after it. None of the patterns
  matches the empty text, so the rules of \<open>re.sub\<close> for empty matches play no part.
\<close>

function rx_sub :: "rx \<Rightarrow> string \<Rightarrow> char option \<Rightarrow> string \<Rightarrow> string" where
  "rx_sub r repl prev [] = []"
| "rx_sub r repl prev (x # xs) =
     (case rx_ends r (prev, x # xs) of
        [] \<Rightarrow> x # rx_sub r repl (Some x) xs
      | q # _ \<Rightarrow>
          if length (snd q) \<le> length xs then repl @ rx_sub r repl (fst q) (snd q)
          else x # rx_sub r repl (Some x) xs)"
  by pat_completeness auto
termination
  by (relation "measure (\<lambda>(r, repl, prev, s). length s)") auto

definition rx_str :: "string \<Rightarrow> rx" where
  "rx_str s = foldr (\<lambda>c r. Seq (Lit c) r) s Eps"

definition rx_seq :: "rx list \<Rightarrow> rx" where
  "rx_seq rs = foldr Seq rs Eps"

definition noise :: "rx list" where
  "noise = [
     rx_seq [rx_str ''*X'', Plus Digit, rx_str ''/'', Plus Digit, rx_str ''*''],
     rx_str ''DO NOT WRITE IN THIS MARGIN'',
     rx_seq [rx_str ''Page '', Plus Digit, rx_str '' of '', Plus Digit],
     rx_seq [rx_str ''(page '', Plus Digit, rx_str '')''],
     rx_seq [Bol, Opt (Lit CHR ''[''), rx_str ''Turn over'', Opt (Lit CHR '']''), Eol],
     rx_seq [Bol, Opt (Lit CHR ''[''), rx_str ''END OF QUESTION PAPER'', Opt (Lit CHR '']''), Eol],
     rx_seq [Bol, Opt (Lit CHR ''[''), rx_str ''FORMULAE LIST'', Opt (Lit CHR '']''), Eol],
     rx_str ''You may NOT use a calculator'',
     rx_str ''You may use a calculator'',
     rx_seq [rx_str ''Total marks '', EnDash, rx_str '' '', Plus Digit],
     rx_str ''Attempt ALL questions'',
     rx_seq [rx_str ''National Quali'', Lit (CHR 0x1F), rx_str ''cations '', Plus Digit],
     rx_seq [rx_str ''Mathematics Paper '', Digit, rx_str '' (Non-calculator)''],
     rx_seq [rx_str ''Mathematics Paper '', Digit, rx_str '' (Calculator)''],
     rx_seq [rx_str ''Applications of Mathematics Paper '', Digit],
     rx_str ''SQA'',
     rx_seq [rx_str ''THURSDAY, '', Plus Digit, rx_str '' MAY''],
     rx_seq [rx_str ''FRIDAY, '', Plus Digit, rx_str '' MAY''],
     rx_seq [Plus Digit, rx_str '':'', Plus Digit, rx_str '' AM '', EnDash, rx_str '' '',
             Plus Digit, rx_str '':'', Plus Digit, rx_str '' AM''],
     rx_seq [Plus Digit, rx_str '':'', Plus Digit, rx_str '' AM '', EnDash, rx_str '' '',
             Plus Digit, rx_str '':'', Plus Digit, rx_str '' PM''],
     rx_seq [Plus Digit, rx_str '':'', Plus Digit, rx_str '' PM '', EnDash, rx_str '' '',
             Plus Digit, rx_str '':'', Plus Digit, rx_str '' PM''],
     rx_seq [rx_str ''Ref: '', Plus Word],
     rx_seq [rx_str ''Date: '', Plus Word],
     rx_seq [rx_str ''Time: '', Plus Word],
     rx_seq [rx_str ''Duration: '', Plus Word],
     rx_str ''Instructions'',
     rx_str ''Additional space for answers'',
     rx_seq [rx_str ''Additional axes for question '', Plus Digit],
     rx_seq [Bol, rx_str ''[BLANK PAGE]'', Eol],
     rx_seq [Bol, Opt (Lit CHR ''[''), rx_str ''DO NOT WRITE ON THIS PAGE'', Opt (Lit CHR '']''), Eol],
     rx_seq [Bol, rx_str ''MARKS'', Eol]]"

definition collapse_spaces :: "string \<Rightarrow> string" where
  "collapse_spaces s = rx_sub (Seq Space (Plus Space)) '' '' None s"

definition clean_text :: "string \<Rightarrow> string" where
  "clean_text t =
     (let cleaned = foldl (\<lambda>c pat. strip (rx_sub pat [] None c)) t noise;
          cleaned = strip (collapse_spaces cleaned);
          cleaned = strip (rx_sub (Seq (Lit (CHR 0x0A)) (Plus (Lit (CHR 0x0A)))) [CHR 0x0A] None cleaned)
      in cleaned)"

text \<open> \<open>re.search\<close> for a pattern of this type: does it match anywhere?\<close>

fun rx_found :: "rx \<Rightarrow> char option \<Rightarrow> string \<Rightarrow> bool" where
  "rx_found r prev [] = (rx_ends r (prev, []) \<noteq> [])"
| "rx_found r prev (x # xs) = (rx_ends r (prev, x # xs) \<noteq> [] \<or> rx_found r (Some x) xs)"

section \<open>advanced\_pdf\_extractor\_v2.py: the question assembler\<close>

text \<open>
  The dictionaries of a part and of a question, and the attributes of the extractor.
  \<open>has_diagram\<close> is the entry of the \<open>metadata\<close> dictionary; \<open>self_questions\<close> is the
  attribute \<open>questions\<close>; \<open>pending_diagrams\<close> is the attribute \<open>_pending_diagrams\<close>,
  \<open>None\<close> while the object has no such attribute.
\<close>

record part =
  part_label :: string
  part_text :: string
  part_marks :: "nat option"

record question = numbered +
  "text" :: string
  marks :: "nat option"
  parts :: "part list"
  has_diagram :: bool
  diagrams :: "string list"

record extractor =
  self_questions :: "question list"
  current_question_number :: "string option"
  current_question_text :: string
  current_marks :: "nat option"
  current_parts :: "part list"
  current_question_diagrams :: "string list"
  debug_output :: "string list"
  pending_diagrams :: "string list option"

definition initial_extractor :: extractor where
  "initial_extractor =
     \<lparr>self_questions = [], current_question_number = None, current_question_text = [],
      current_marks = None, current_parts = [], current_question_diagrams = [],
      debug_output = [], pending_diagrams = None\<rparr>"

text \<open>
  The exceptions that \<open>_process_block\<close> can raise: \<open>part_letter\<close> read before any
  assignment, and \<open>ord\<close> of a string that is not one character.
\<close>

datatype error = UnboundLocalError | TypeError

text \<open> Truth of an optional string, \<open>debug_output.append\<close>, and \<open>{x}\<close> in an f-string.\<close>

definition truthy :: "string option \<Rightarrow> bool" where
  "truthy s = (case s of None \<Rightarrow> False | Some t \<Rightarrow> t \<noteq> [])"

definition log :: "string \<Rightarrow> extractor \<Rightarrow> extractor" where
  "log msg st = st\<lparr>debug_output := debug_output st @ [msg]\<rparr>"

definition fmt :: "string option \<Rightarrow> string" where
  "fmt s = (case s of None \<Rightarrow> ''None'' | Some t \<Rightarrow> t)"

text \<open>
  The four patterns of \<open>_process_block\<close>, each tried at the start of the cleaned line
  (\<open>re.match\<close>): \<open>^(\d+)\.\s+(.*)\<close>, \<open>^\((\w+)\)\s+(.*)\<close>, \<open>^(\d+)\.\s+\((\w+)\)\s+(.*)\<close>
  and \<open>^(\d+)\.\s+\(continued\)(.*)\<close> with \<open>re.IGNORECASE\<close>. The dot does not match a
  newline.
\<close>

definition number_dot :: "string \<Rightarrow> (string \<times> string) option" where
  "number_dot s =
     (case dropWhile is_digit s of
        [] \<Rightarrow> None
      | c # r \<Rightarrow> if takeWhile is_digit s \<noteq> [] \<and> c = CHR ''.'' then Some (takeWhile is_digit s, r)
                 else None)"

definition spaces_then :: "string \<Rightarrow> string option" where
  "spaces_then s = (if takeWhile is_space s \<noteq> [] then Some (dropWhile is_space s) else None)"

definition paren_word :: "string \<Rightarrow> (string \<times> string) option" where
  "paren_word s =
     (case s of
        [] \<Rightarrow> None
      | c # r \<Rightarrow>
          (case dropWhile is_word r of
             [] \<Rightarrow> None
           | d # r1 \<Rightarrow> if c = CHR ''('' \<and> takeWhile is_word r \<noteq> [] \<and> d = CHR '')''
                       then Some (takeWhile is_word r, r1) else None))"

definition rest_of_line :: "string \<Rightarrow> string" where
  "rest_of_line s = takeWhile (\<lambda>c. c \<noteq> CHR 0x0A) s"

definition main_q_match :: "string \<Rightarrow> (string \<times> string) option" where
  "main_q_match s =
     (case number_dot s of
        None \<Rightarrow> None
      | Some (q_num, r) \<Rightarrow>
          (case spaces_then r of None \<Rightarrow> None | Some r1 \<Rightarrow> Some (q_num, rest_of_line r1)))"

definition sub_q_match :: "string \<Rightarrow> (string \<times> string) option" where
  "sub_q_match s =
     (case paren_word s of
        None \<Rightarrow> None
      | Some (letter, r) \<Rightarrow>
          (case spaces_then r of None \<Rightarrow> None | Some r1 \<Rightarrow> Some (letter, rest_of_line r1)))"

definition continued_sub_q_match :: "string \<Rightarrow> (string \<times> string \<times> string) option" where
  "continued_sub_q_match s =
     (case number_dot s of
        None \<Rightarrow> None
      | Some (q_num, r) \<Rightarrow>
          (case spaces_then r of
             None \<Rightarrow> None
           | Some r1 \<Rightarrow>
               (case sub_q_match r1 of
                  None \<Rightarrow> None
                | Some (letter, t) \<Rightarrow> Some (q_num, letter, t))))"

definition continued_main_q_match :: "string \<Rightarrow> (string \<times> string) option" where
  "continued_main_q_match s =
     (case number_dot s of
        None \<Rightarrow> None
      | Some (q_num, r) \<Rightarrow>
          (case spaces_then r of
             None \<Rightarrow> None
           | Some r1 \<Rightarrow>
               if lower (take 11 r1) = ''(continued)'' then Some (q_num, rest_of_line (drop 11 r1))
               else None))"

text \<open> \<open>_add_part\<close>.\<close>

definition add_part :: "string \<Rightarrow> string \<Rightarrow> nat option \<Rightarrow> extractor \<Rightarrow> extractor" where
  "add_part label txt mk st =
     (if \<not> truthy (current_question_number st)
      then log (''Warning: Trying to add part ('' @ label @ '') without a current question.'') st
      else st\<lparr>current_parts := current_parts st @
                [\<lparr>part_label = label, part_text = clean_text txt, part_marks = mk\<rparr>]\<rparr>)"

text \<open>
  \<open>_finalize_current_question\<close>. The two substitutions anchored with \<open>^\<close> remove the
  part's own label, compared without case, and the question's own number, each with the
  white space after it.
\<close>

definition remove_label_prefix :: "string \<Rightarrow> string \<Rightarrow> string" where
  "remove_label_prefix label s =
     (if lower (take (length label + 2) s) = lower (''('' @ label @ '')'')
      then dropWhile is_space (drop (length label + 2) s) else s)"

definition remove_number_prefix :: "string \<Rightarrow> string \<Rightarrow> string" where
  "remove_number_prefix number s =
     (if take (length number) s = number then dropWhile is_space (drop (length number) s) else s)"

definition finalize_part :: "part \<Rightarrow> part" where
  "finalize_part p =
     (let t = strip (collapse_spaces (part_text p));
          t = strip (remove_label_prefix (part_label p) t);
          mk = (case part_marks p of None \<Rightarrow> extract_marks t | Some m \<Rightarrow> Some m);
          t = strip (strip_marks t)
      in \<lparr>part_label = part_label p, part_text = t, part_marks = mk\<rparr>)"

definition finalize_open :: "string \<Rightarrow> extractor \<Rightarrow> extractor" where
  "finalize_open number st =
     (let final_text = strip (collapse_spaces (current_question_text st));
          finalized = map finalize_part (current_parts st);
          final_parts = filter (\<lambda>p. part_text p \<noteq> []) finalized;
          st1 = foldl (\<lambda>s p. log (''Skipping empty part '' @ part_label p @ '' for question ''
                                  @ number) s)
                  st (filter (\<lambda>p. part_text p = []) finalized);
          final_marks = (case current_marks st of None \<Rightarrow> extract_marks final_text
                         | Some m \<Rightarrow> Some m);
          final_text = strip (strip_marks final_text);
          final_text = strip (remove_number_prefix number final_text)
      in if final_text \<noteq> [] \<or> final_parts \<noteq> []
         then log (''Finalized question: '' @ number @ '' with '' @ show_nat (length final_parts)
                   @ '' parts.'')
                (st1\<lparr>self_questions := self_questions st1 @
                   [\<lparr>question_number = number, text = final_text, marks = final_marks,
                     parts = final_parts,
                     has_diagram = (contains ''diagram'' (lower final_text) \<or>
                        list_ex (\<lambda>p. contains ''diagram'' (lower (part_text p))) final_parts),
                     diagrams = current_question_diagrams st\<rparr>]\<rparr>)
         else log (''Skipping question '' @ number @ '' due to empty content.'') st1)"

definition finalize_current_question :: "extractor \<Rightarrow> extractor" where
  "finalize_current_question st =
     (let st1 = (case current_question_number st of
                   None \<Rightarrow> st
                 | Some number \<Rightarrow> if number \<noteq> [] then finalize_open number st else st)
      in st1\<lparr>current_question_number := None, current_question_text := [],
             current_marks := None, current_parts := [], current_question_diagrams := []\<rparr>)"

text \<open>
  The branches of the \<open>if\<close>/\<open>elif\<close> chain of \<open>_process_block\<close>, in the order of the
  source: a numbered part, a numbered question, a part, a continuation marker (which
  the second branch shadows), plain text.
\<close>

definition on_continued_sub ::
  "string \<Rightarrow> string \<Rightarrow> string \<Rightarrow> nat option \<Rightarrow> extractor \<Rightarrow> extractor" where
  "on_continued_sub q_num part_letter txt extracted_marks st =
     (let st1 = log (''Detected continued sub-question: '' @ q_num @ ''.('' @ part_letter @ '')'') st
      in if truthy (current_question_number st1) \<and>
            current_question_number st1 = Some (q_num @ ''.'')
         then add_part part_letter txt extracted_marks st1
         else add_part part_letter txt extracted_marks
                ((finalize_current_question st1)
                   \<lparr>current_question_number := Some (q_num @ ''.''),
                    current_question_text := []\<rparr>))"

definition on_main :: "string \<Rightarrow> string \<Rightarrow> nat option \<Rightarrow> extractor \<Rightarrow> extractor" where
  "on_main q_num_str txt extracted_marks st =
     (if lower txt = ''(continued)'' \<and> current_question_number st = Some (q_num_str @ ''.'')
      then log (''Ignoring explicit continuation marker for question '' @ q_num_str @ ''.'') st
      else
        (let st1 = (if lower txt = ''(continued)''
                    then log (''Warning: Misplaced continuation marker for question ''
                              @ q_num_str @ ''.'') st
                    else st);
             st2 = finalize_current_question st1
         in log (''Detected main question: '' @ q_num_str @ ''.'')
              (st2\<lparr>current_question_number := Some (q_num_str @ ''.''),
                   current_question_text := txt, current_marks := extracted_marks,
                   current_parts := [], current_question_diagrams := []\<rparr>)))"

definition attach_orphan :: "string \<Rightarrow> string \<Rightarrow> nat option \<Rightarrow> extractor \<Rightarrow> error + extractor" where
  "attach_orphan part_letter txt extracted_marks st =
     (let last_q = last (self_questions st);
          last_part_label = (if parts last_q \<noteq> [] then Some (part_label (last (parts last_q)))
                             else None)
      in case last_part_label of
           None \<Rightarrow>
             Inr (log (''Could not attach orphaned part ('' @ part_letter
                       @ '') to last question '' @ question_number last_q) st)
         | Some l \<Rightarrow>
             if l = [] then
               Inr (log (''Could not attach orphaned part ('' @ part_letter
                         @ '') to last question '' @ question_number last_q) st)
             else if length part_letter \<noteq> 1 \<or> length l \<noteq> 1 then Inl TypeError
             else if (of_char (hd part_letter) :: nat) = of_char (hd l) + 1 then
               Inr (log (''Heuristically attached orphaned part ('' @ part_letter
                         @ '') to question '' @ question_number last_q)
                      (st\<lparr>self_questions := butlast (self_questions st) @
                          [last_q\<lparr>parts := parts last_q @
                             [\<lparr>part_label = part_letter, part_text = txt,
                               part_marks = extracted_marks\<rparr>]\<rparr>]\<rparr>))
             else
               Inr (log (''Could not attach orphaned part ('' @ part_letter
                         @ '') to last question '' @ question_number last_q) st))"

definition on_sub ::
  "string \<Rightarrow> string \<Rightarrow> string \<Rightarrow> nat option \<Rightarrow> extractor \<times> string option
     \<Rightarrow> error + extractor \<times> string option" where
  "on_sub cleaned_line letter txt extracted_marks sl =
     (if truthy (current_question_number (fst sl))
      then Inr (log (''Detected sub-question: '' @ fmt (current_question_number (fst sl))
                     @ '' ('' @ letter @ '')'')
                  (add_part letter txt extracted_marks (fst sl)), Some letter)
      else
        (let st1 = log (''Warning: Orphaned sub-question found: '' @ cleaned_line) (fst sl)
         in if self_questions st1 \<noteq> []
            then (case attach_orphan letter txt extracted_marks st1 of
                    Inl e \<Rightarrow> Inl e
                  | Inr st2 \<Rightarrow> Inr (st2, Some letter))
            else (case snd sl of
                    None \<Rightarrow> Inl UnboundLocalError
                  | Some part_letter \<Rightarrow>
                      Inr (log (''Could not attach orphaned part ('' @ part_letter
                                @ '') - no previous question.'') st1, snd sl))))"

definition on_continued_main :: "string \<Rightarrow> string \<Rightarrow> string \<Rightarrow> extractor \<Rightarrow> extractor" where
  "on_continued_main cleaned_line q_num txt st =
     (if truthy (current_question_number st) \<and> current_question_number st = Some (q_num @ ''.'')
      then log (''Continued main question '' @ q_num @ ''.'')
             (if txt \<noteq> [] then st\<lparr>current_question_text := current_question_text st @ '' '' @ txt\<rparr>
              else st)
      else
        (let st1 = log (''Warning: Misidentified continued question: '' @ cleaned_line) st
         in if truthy (current_question_number st1) \<and> txt \<noteq> []
            then st1\<lparr>current_question_text := current_question_text st1 @ '' '' @ txt\<rparr>
            else st1))"

definition on_plain :: "string \<Rightarrow> nat option \<Rightarrow> extractor \<Rightarrow> extractor" where
  "on_plain cleaned_line extracted_marks st =
     (if current_parts st \<noteq> [] then
        (let p = last (current_parts st);
             p1 = p\<lparr>part_text := part_text p @ '' '' @ cleaned_line\<rparr>;
             p2 = (if extracted_marks \<noteq> None \<and> part_marks p1 = None
                   then p1\<lparr>part_marks := extracted_marks\<rparr> else p1)
         in st\<lparr>current_parts := butlast (current_parts st) @ [p2]\<rparr>)
      else st\<lparr>current_question_text := current_question_text st @ '' '' @ cleaned_line,
              current_marks := (if extracted_marks \<noteq> None \<and> current_marks st = None
                                then extracted_marks else current_marks st)\<rparr>)"

text \<open>
  One turn of the \<open>while\<close> loop of \<open>_process_block\<close>. The state of the loop is the
  extractor and the local variable \<open>part_letter\<close>, \<open>None\<close> while it is unassigned.
\<close>

definition process_line ::
  "extractor \<times> string option \<Rightarrow> string \<Rightarrow> error + extractor \<times> string option" where
  "process_line sl raw =
     (let line = strip raw in
      if line = [] then Inr sl
      else
        (let extracted_marks = extract_marks line;
             cleaned_line = clean_text line
         in if cleaned_line = [] then Inr sl
            else
              (case continued_sub_q_match cleaned_line of
                 Some (q_num, part_letter, t) \<Rightarrow>
                   Inr (on_continued_sub q_num part_letter (strip t) extracted_marks (fst sl),
                        Some part_letter)
               | None \<Rightarrow>
                   (case main_q_match cleaned_line of
                      Some (q_num_str, t) \<Rightarrow>
                        Inr (on_main q_num_str (strip t) extracted_marks (fst sl), snd sl)
                    | None \<Rightarrow>
                        (case sub_q_match cleaned_line of
                           Some (letter, t) \<Rightarrow>
                             on_sub cleaned_line letter (strip t) extracted_marks sl
                         | None \<Rightarrow>
                             (case continued_main_q_match cleaned_line of
                                Some (q_num, t) \<Rightarrow>
                                  Inr (on_continued_main cleaned_line q_num (strip t) (fst sl),
                                       snd sl)
                              | None \<Rightarrow>
                                  if truthy (current_question_number (fst sl))
                                  then Inr (on_plain cleaned_line extracted_marks (fst sl), snd sl)
                                  else Inr sl))))))"

text \<open> \<open>str.split("\n")\<close>, the loop over the lines, and \<open>_process_block\<close>.\<close>

fun split_lines :: "string \<Rightarrow> string list" where
  "split_lines [] = [[]]"
| "split_lines (c # s) =
     (if c = CHR 0x0A then [] # split_lines s
      else (case split_lines s of [] \<Rightarrow> [[c]] | l # ls \<Rightarrow> (c # l) # ls))"

fun process_lines ::
  "extractor \<times> string option \<Rightarrow> string list \<Rightarrow> error + extractor \<times> string option" where
  "process_lines sl [] = Inr sl"
| "process_lines sl (l # ls) =
     (case process_line sl l of Inl e \<Rightarrow> Inl e | Inr sl' \<Rightarrow> process_lines sl' ls)"

definition process_block :: "string \<Rightarrow> nat \<Rightarrow> extractor \<Rightarrow> error + extractor" where
  "process_block block_text page_num st =
     (case process_lines (st, None) (split_lines (strip block_text)) of
        Inl e \<Rightarrow> Inl e
      | Inr sl \<Rightarrow> Inr (fst sl))"

text \<open>
  \<open>extract_questions\<close>. A page is what the document reader gives for it: the file names
  that \<open>_extract_images\<close> returns, and its blocks sorted from the top. Block coordinates
  are floating-point numbers; \<open>in_margin\<close> is the outcome of their comparison
  \<open>y0 < 50 or y1 > page_height - 50\<close>.
\<close>

record block =
  block_text :: string
  block_type :: nat
  in_margin :: bool

record page =
  page_diagrams :: "string list"
  blocks :: "block list"

definition header_footer :: "string \<Rightarrow> bool" where
  "header_footer txt =
     (let cleaned_for_check = clean_text txt
      in cleaned_for_check = [] \<or>
         list_ex (\<lambda>r. rx_found r None cleaned_for_check)
           [rx_seq [rx_str ''Page '', Plus Digit], rx_str ''MARKS'', rx_str ''DO NOT WRITE'',
            rx_str ''Turn over''])"

fun process_blocks :: "nat \<Rightarrow> extractor \<Rightarrow> block list \<Rightarrow> error + extractor" where
  "process_blocks page_num st [] = Inr st"
| "process_blocks page_num st (b # bs) =
     (if block_type b \<noteq> 0 then process_blocks page_num st bs
      else if in_margin b \<and> header_footer (block_text b)
      then process_blocks page_num
             (log (''Skipping potential header/footer block: ''
                   @ map (\<lambda>c. if c = CHR 0x0A then CHR '' '' else c) (take 50 (block_text b))
                   @ ''...'') st) bs
      else
        (case process_block (block_text b) page_num
                (case pending_diagrams st of
                   None \<Rightarrow> st
                 | Some pending \<Rightarrow>
                     if current_question_number st = None
                     then st\<lparr>current_question_diagrams := pending, pending_diagrams := None\<rparr>
                     else st) of
           Inl e \<Rightarrow> Inl e
         | Inr st1 \<Rightarrow> process_blocks page_num st1 bs))"

definition process_page :: "nat \<Rightarrow> extractor \<Rightarrow> page \<Rightarrow> error + extractor" where
  "process_page page_num st pg =
     (let st1 = log (''--- Processing Page '' @ show_nat (page_num + 1) @ '' ---'') st;
          st2 = foldl (\<lambda>s f. log (''Saved image '' @ f) s) st1 (page_diagrams pg);
          st3 = (if truthy (current_question_number st2)
                 then st2\<lparr>current_question_diagrams :=
                            current_question_diagrams st2 @ page_diagrams pg\<rparr>
                 else st2\<lparr>pending_diagrams := Some (page_diagrams pg)\<rparr>)
      in process_blocks page_num st3 (blocks pg))"

fun process_pages :: "nat \<Rightarrow> extractor \<Rightarrow> page list \<Rightarrow> error + extractor" where
  "process_pages page_num st [] = Inr st"
| "process_pages page_num st (pg # pgs) =
     (case process_page page_num st pg of
        Inl e \<Rightarrow> Inl e
      | Inr st1 \<Rightarrow> process_pages (Suc page_num) st1 pgs)"

text \<open>
  \<open>_save_questions\<close>: the merge of the questions that share a question number
  (\<open>merged_questions\<close> is a dict, kept here as the list of its values in insertion
  order), then the last clean-up. The result is the list written to the JSON file.
\<close>

definition merge_two :: "question \<Rightarrow> question \<Rightarrow> question" where
  "merge_two m q =
     m\<lparr>text := text m @ '' '' @ text q,
       parts := parts m @ parts q,
       diagrams := diagrams m @ diagrams q,
       marks := (if marks m = None then marks q else marks m),
       has_diagram := (has_diagram m \<or> has_diagram q)\<rparr>"

fun merge_into :: "question \<Rightarrow> question list \<Rightarrow> question list" where
  "merge_into q [] = [q]"
| "merge_into q (m # ms) =
     (if question_number m = question_number q then merge_two m q # ms
      else m # merge_into q ms)"

definition merge_questions :: "question list \<Rightarrow> question list" where
  "merge_questions qs = foldl (\<lambda>merged q. merge_into q merged) [] qs"

definition merge_log :: "question list \<Rightarrow> string list" where
  "merge_log qs =
     concat (map (\<lambda>i. if question_number (qs ! i) \<in> set (map question_number (take i qs))
                       then [''Merged question '' @ question_number (qs ! i)] else [])
               [0..<length qs])"

definition clean_question :: "question \<Rightarrow> question option" where
  "clean_question q =
     (let ps = filter (\<lambda>p. part_text p \<noteq> []) (parts q)
      in if text q \<noteq> [] \<or> ps \<noteq> []
         then Some (q\<lparr>text := strip (collapse_spaces (text q)),
                      parts := map (\<lambda>p. p\<lparr>part_text := strip (collapse_spaces (part_text p))\<rparr>) ps,
                      diagrams := sort (remdups (diagrams q))\<rparr>)
         else None)"

definition validate_question :: "question \<Rightarrow> question list \<times> string list" where
  "validate_question q =
     (if question_number q \<noteq> [] \<and> (text q \<noteq> [] \<or> parts q \<noteq> [])
      then (case clean_question q of None \<Rightarrow> ([], []) | Some q' \<Rightarrow> ([q'], []))
      else ([], [''Skipping invalid question structure: '' @ question_number q]))"

definition save_questions :: "extractor \<Rightarrow> question list \<times> string list" where
  "save_questions st =
     (let merged = merge_questions (self_questions st);
          checked = map validate_question merged
      in (concat (map fst checked),
          debug_output st @ merge_log (self_questions st) @ concat (map snd checked)))"

text \<open>
  \<open>extract_questions\<close>: the pages in order, the last question, the two files (the
  questions and the log).
\<close>

definition extract_questions :: "page list \<Rightarrow> error + question list \<times> string list" where
  "extract_questions doc =
     (case process_pages 0 initial_extractor doc of
        Inl e \<Rightarrow> Inl e
      | Inr st \<Rightarrow> Inr (save_questions (finalize_current_question st)))"

text \<open>
  Words for the claims about the merge: the questions of a list that carry a given
  number, \<open>" ".join\<close>, the first marks that are known, and the numbers of a list in the
  order of their first occurrence.
\<close>

definition same_number :: "string \<Rightarrow> question list \<Rightarrow> question list" where
  "same_number k qs = filter (\<lambda>q. question_number q = k) qs"

definition join_texts :: "string list \<Rightarrow> string" where
  "join_texts ts = (case ts of [] \<Rightarrow> [] | t # r \<Rightarrow> foldl (\<lambda>a b. a @ '' '' @ b) t r)"

definition first_known :: "nat option list \<Rightarrow> nat option" where
  "first_known ms = (case filter (\<lambda>m. m \<noteq> None) ms of [] \<Rightarrow> None | m # _ \<Rightarrow> m)"

definition first_occurrences :: "string list \<Rightarrow> string list" where
  "first_occurrences ks = rev (remdups (rev ks))"

definition merged_from :: "question list \<Rightarrow> question \<Rightarrow> bool" where
  "merged_from qs m =
     (text m = join_texts (map text (same_number (question_number m) qs)) \<and>
      parts m = concat (map parts (same_number (question_number m) qs)) \<and>
      diagrams m = concat (map diagrams (same_number (question_number m) qs)) \<and>
      marks m = first_known (map marks (same_number (question_number m) qs)) \<and>
      has_diagram m = list_ex has_diagram (same_number (question_number m) qs))"

section \<open>Properties\<close>

subsection \<open>Digits\<close>

lemma is_digit_char_of: "d < 10 \<Longrightarrow> is_digit (char_of (48 + d :: nat))"
  by (simp add: is_digit_def)

lemma digit_value_char_of: "d < 10 \<Longrightarrow> (of_char (char_of (48 + d :: nat)) :: nat) - 48 = d"
  by simp

lemma show_nat_digits: "list_all is_digit (show_nat n)"
proof (induction n rule: show_nat.induct)
  case (1 n)
  show ?case
  proof (cases "n < 10")
    case True
    then show ?thesis by (subst show_nat.simps) (simp add: is_digit_char_of)
  next
    case False
    then show ?thesis using 1 by (subst show_nat.simps) (simp add: is_digit_char_of)
  qed
qed

lemma show_nat_nonempty: "show_nat n \<noteq> []"
  by (subst show_nat.simps) simp

lemma nat_of_digits_snoc:
  "nat_of_digits (ds @ [c]) = 10 * nat_of_digits ds + ((of_char c :: nat) - 48)"
  by (simp add: nat_of_digits_def)

lemma nat_of_digits_show_nat: "nat_of_digits (show_nat n) = n"
proof (induction n rule: show_nat.induct)
  case (1 n)
  show ?case
  proof (cases "n < 10")
    case True
    then show ?thesis
      by (subst show_nat.simps) (simp add: nat_of_digits_def)
  next
    case False
    then have "nat_of_digits (show_nat (n div 10)) = n div 10" using 1 by simp
    with False show ?thesis
      by (subst show_nat.simps) (simp add: nat_of_digits_snoc)
  qed
qed

subsection \<open>Question numbers are read back as written\<close>

lemma takeWhile_digits_show_nat:
  "\<not> is_digit c \<Longrightarrow> takeWhile is_digit (show_nat n @ c # r) = show_nat n"
  using show_nat_digits [of n] by (simp add: list_all_iff takeWhile_append2)

lemma dropWhile_digits_show_nat:
  "\<not> is_digit c \<Longrightarrow> dropWhile is_digit (show_nat n @ c # r) = c # r"
  using show_nat_digits [of n] by (simp add: list_all_iff dropWhile_append2)

lemma question_number_match_format:
  "valid_sub sub \<Longrightarrow> question_number_match (format_number n sub) = Some (n, sub)"
proof (cases sub)
  case Nil
  have d: "\<not> is_digit CHR ''.''" by (simp add: is_digit_def)
  show ?thesis using Nil
    by (simp add: question_number_match_def format_number_def takeWhile_digits_show_nat [OF d]
        dropWhile_digits_show_nat [OF d] show_nat_nonempty nat_of_digits_show_nat)
next
  case (Cons b r)
  assume "valid_sub sub"
  with Cons have b: "is_lower b" and r: "r = []" by (simp_all add: valid_sub_def)
  have d: "\<not> is_digit CHR ''.''" by (simp add: is_digit_def)
  have s: "is_space CHR '' ''" "\<not> is_space CHR ''(''" by (simp_all add: is_space_def)
  show ?thesis using Cons b r s
    by (simp add: question_number_match_def format_number_def takeWhile_digits_show_nat [OF d]
        dropWhile_digits_show_nat [OF d] show_nat_nonempty nat_of_digits_show_nat)
qed

lemma question_number_match_valid_sub:
  "question_number_match s = Some (n, sub) \<Longrightarrow> valid_sub sub"
  by (auto simp: question_number_match_def valid_sub_def Let_def split: list.splits if_splits)

subsection \<open>Grouping and regrouping\<close>

lemma group_append_new: "k \<notin> fst ` set g \<Longrightarrow> group_append k v g = g @ [(k, [v])]"
  by (induction g) auto

lemma group_append_last:
  "k \<notin> fst ` set g \<Longrightarrow> group_append k v (g @ [(k, vs)]) = g @ [(k, vs @ [v])]"
  by (induction g) auto

lemma group_step_formatted:
  "valid_sub sub \<Longrightarrow>
   group_step g (q\<lparr>question_number := format_number k sub\<rparr>)
     = group_append k (sub, q\<lparr>question_number := format_number k sub\<rparr>) g"
  by (simp add: group_step_def question_number_match_format)

lemma foldl_group_step_same:
  "k \<notin> fst ` set acc \<Longrightarrow> list_all (\<lambda>(sub, q). valid_sub sub) xs \<Longrightarrow>
   foldl group_step (acc @ [(k, vs)])
     (map (\<lambda>(sub, q). q\<lparr>question_number := format_number k sub\<rparr>) xs)
   = acc @ [(k, vs @ tag_group k xs)]"
proof (induction xs arbitrary: vs)
  case Nil
  then show ?case by (simp add: tag_group_def)
next
  case (Cons x xs)
  obtain sub q where x: "x = (sub, q)" by (cases x)
  with Cons.prems have v: "valid_sub sub" by simp
  have "foldl group_step (acc @ [(k, vs)])
          (map (\<lambda>(sub, q). q\<lparr>question_number := format_number k sub\<rparr>) (x # xs))
        = foldl group_step (acc @ [(k, vs @ [(sub, q\<lparr>question_number := format_number k sub\<rparr>)])])
          (map (\<lambda>(sub, q). q\<lparr>question_number := format_number k sub\<rparr>) xs)"
    using Cons.prems(1) v by (simp add: x group_step_formatted group_append_last)
  also have "\<dots> = acc @ [(k, (vs @ [(sub, q\<lparr>question_number := format_number k sub\<rparr>)]) @ tag_group k xs)]"
    using Cons.prems by (intro Cons.IH) simp_all
  finally show ?case by (simp add: x tag_group_def)
qed

lemma foldl_group_step_group:
  assumes "k \<notin> fst ` set acc" and "group_ok xs"
  shows "foldl group_step acc
           (map (\<lambda>(sub, q). q\<lparr>question_number := format_number k sub\<rparr>) xs)
         = acc @ [(k, tag_group k xs)]"
proof (cases xs)
  case Nil
  with assms show ?thesis by (simp add: group_ok_def)
next
  case (Cons x ys)
  obtain sub q where x: "x = (sub, q)" by (cases x)
  from assms(2) Cons x have v: "valid_sub sub" and ys: "list_all (\<lambda>(sub, q). valid_sub sub) ys"
    by (simp_all add: group_ok_def)
  have "foldl group_step acc
           (map (\<lambda>(sub, q). q\<lparr>question_number := format_number k sub\<rparr>) xs)
        = foldl group_step (acc @ [(k, [(sub, q\<lparr>question_number := format_number k sub\<rparr>)])])
           (map (\<lambda>(sub, q). q\<lparr>question_number := format_number k sub\<rparr>) ys)"
    using assms(1) v by (simp add: Cons x group_step_formatted group_append_new)
  also have "\<dots> = acc @ [(k, [(sub, q\<lparr>question_number := format_number k sub\<rparr>)] @ tag_group k ys)]"
    using assms(1) ys by (rule foldl_group_step_same)
  finally show ?thesis by (simp add: Cons x tag_group_def)
qed

lemma sort_key_Nil_iff: "sort_key f xs = [] \<longleftrightarrow> xs = []"
  using length_sort [of f xs] by (metis length_0_conv)

lemma group_ok_sort: "group_ok g \<Longrightarrow> group_ok (sort_key fst g)"
  by (simp add: group_ok_def list_all_iff sort_key_Nil_iff)

lemma foldl_group_step_renumber:
  "list_all (\<lambda>(k, g). group_ok g) G \<Longrightarrow> \<forall>k \<in> fst ` set acc. k < n \<Longrightarrow>
   foldl group_step acc (renumber n G) = acc @ regroup n G"
proof (induction G arbitrary: acc n)
  case Nil
  then show ?case by simp
next
  case (Cons kg G)
  obtain k g where kg: "kg = (k, g)" by (cases kg)
  from Cons.prems kg have g: "group_ok (sort_key fst g)" and G: "list_all (\<lambda>(k, g). group_ok g) G"
    by (simp_all add: group_ok_sort)
  from Cons.prems(2) have n: "n \<notin> fst ` set acc" by auto
  have step: "foldl group_step acc
           (map (\<lambda>(sub, q). q\<lparr>question_number := format_number n sub\<rparr>) (sort_key fst g))
         = acc @ [(n, tag_group n (sort_key fst g))]"
    using n g by (rule foldl_group_step_group)
  have "\<forall>k \<in> fst ` set (acc @ [(n, tag_group n (sort_key fst g))]). k < Suc n"
    using Cons.prems(2) by auto
  with G have "foldl group_step (acc @ [(n, tag_group n (sort_key fst g))]) (renumber (Suc n) G)
        = (acc @ [(n, tag_group n (sort_key fst g))]) @ regroup (Suc n) G"
    by (rule Cons.IH)
  with step show ?case by (simp add: kg)
qed

lemma map_fst_regroup: "map fst (regroup n G) = [n..<n + length G]"
proof (induction G arbitrary: n)
  case Nil
  then show ?case by simp
next
  case (Cons kg G)
  obtain k g where kg: "kg = (k, g)" by (cases kg)
  show ?case using Cons.IH [of "Suc n"] by (simp add: kg upt_rec)
qed

lemma map_fst_tag_group: "map fst (tag_group n g) = map fst g"
  by (simp add: tag_group_def case_prod_unfold)

lemma sort_tag_group_sorted: "sort_key fst (tag_group n (sort_key fst g)) = tag_group n (sort_key fst g)"
  by (rule sort_key_id_if_sorted) (simp add: map_fst_tag_group)

lemma renumber_regroup: "renumber n (regroup n G) = renumber n G"
proof (induction G arbitrary: n)
  case Nil
  then show ?case by simp
next
  case (Cons kg G)
  obtain k g where kg: "kg = (k, g)" by (cases kg)
  show ?case
    by (simp add: kg Cons.IH sort_tag_group_sorted) (simp add: tag_group_def case_prod_unfold)
qed

lemma renumber_fixpoint:
  assumes "list_all (\<lambda>(k, g). group_ok g) G"
  shows "renumber 1 (sort_key fst (question_groups (renumber 1 G))) = renumber 1 G"
proof -
  have "question_groups (renumber 1 G) = regroup 1 G"
    using foldl_group_step_renumber [OF assms, of "[]" 1] by (simp add: question_groups_def)
  moreover have "sort_key fst (regroup 1 G) = regroup 1 G"
    by (rule sort_key_id_if_sorted) (simp only: map_fst_regroup sorted_upt)
  ultimately show ?thesis by (simp add: renumber_regroup)
qed

lemma map_fst_group_append:
  "map fst (group_append k v G) = (if k \<in> fst ` set G then map fst G else map fst G @ [k])"
  by (induction G) (auto simp: rev_image_eqI)

lemma group_append_all:
  "list_all (\<lambda>(k, g). g \<noteq> [] \<and> list_all (P k) g) G \<Longrightarrow> P k v \<Longrightarrow>
   list_all (\<lambda>(k, g). g \<noteq> [] \<and> list_all (P k) g) (group_append k v G)"
  by (induction G) auto

lemma group_inv_append:
  "group_inv G \<Longrightarrow> question_number_match (question_number q) = Some (k, sub) \<Longrightarrow>
   group_inv (group_append k (sub, q) G)"
  unfolding group_inv_def
  using group_append_all [of "\<lambda>k (sub, q). question_number_match (question_number q) = Some (k, sub)" G k "(sub, q)"]
  by (auto simp: map_fst_group_append)

lemma group_inv_step: "group_inv G \<Longrightarrow> group_inv (group_step G q)"
  by (auto simp: group_step_def group_inv_append split: option.splits)

lemma group_inv_foldl: "group_inv G \<Longrightarrow> group_inv (foldl group_step G qs)"
  by (induction qs arbitrary: G) (simp_all add: group_inv_step)

lemma group_inv_question_groups: "group_inv (question_groups qs)"
  unfolding question_groups_def by (rule group_inv_foldl) (simp add: group_inv_def)

lemma group_inv_ok: "group_inv G \<Longrightarrow> list_all (\<lambda>(k, g). group_ok g) G"
  by (fastforce simp: group_inv_def group_ok_def list_all_iff dest: question_number_match_valid_sub)

lemma group_inv_sort: "group_inv G \<Longrightarrow> group_inv (sort_key fst G)"
  by (simp add: group_inv_def list_all_iff distinct_map)

subsection \<open>Idempotence of the numbering pass\<close>

text \<open>
  C9. The numbering pass is idempotent: run on its own output, it returns that output
  unchanged (same records, same order, same question numbers).
\<close>

theorem fix_question_numbering_idempotent:
  "fix_question_numbering (fix_question_numbering questions subject) subject'
     = fix_question_numbering questions subject"
proof -
  have "group_inv (sort_key fst (question_groups questions))"
    by (intro group_inv_sort group_inv_question_groups)
  then have "list_all (\<lambda>(k, g). group_ok g) (sort_key fst (question_groups questions))"
    by (rule group_inv_ok)
  then show ?thesis
    unfolding fix_question_numbering_def by (rule renumber_fixpoint)
qed

subsection \<open>The sequence of main numbers\<close>

lemma main_numbers_append: "main_numbers (xs @ ys) = main_numbers xs @ main_numbers ys"
  by (simp add: main_numbers_def)

lemma main_numbers_relabel:
  "list_all (\<lambda>(sub, q). valid_sub sub) xs \<Longrightarrow>
   main_numbers (map (\<lambda>(sub, q). q\<lparr>question_number := format_number n sub\<rparr>) xs)
     = replicate (length xs) n"
  by (induction xs) (auto simp: main_numbers_def question_number_match_format)

lemma main_numbers_renumber_Cons:
  "group_ok g \<Longrightarrow>
   main_numbers (renumber n ((k, g) # G))
     = replicate (length g) n @ main_numbers (renumber (Suc n) G)"
  using group_ok_sort [of g]
  by (simp add: main_numbers_append main_numbers_relabel group_ok_def)

lemma set_main_numbers_renumber:
  "list_all (\<lambda>(k, g). group_ok g) G \<Longrightarrow>
   set (main_numbers (renumber n G)) = {n..<n + length G}"
proof (induction G arbitrary: n)
  case Nil
  then show ?case by (simp add: main_numbers_def)
next
  case (Cons kg G)
  obtain k g where kg: "kg = (k, g)" by (cases kg)
  from Cons.prems kg have g: "group_ok g" and G: "list_all (\<lambda>(k, g). group_ok g) G"
    by simp_all
  from g have "g \<noteq> []" by (simp add: group_ok_def)
  then have "set (replicate (length g) n) = {n}" by simp
  with Cons.IH [OF G, of "Suc n"] show ?case
    by (auto simp: kg main_numbers_renumber_Cons [OF g] simp del: renumber.simps)
qed

lemma steps_replicate_append:
  "steps_by_at_most_one ys \<Longrightarrow> (ys \<noteq> [] \<Longrightarrow> hd ys = Suc n) \<Longrightarrow>
   steps_by_at_most_one (replicate k n @ ys)"
proof (induction k)
  case 0
  then show ?case by simp
next
  case (Suc k)
  then have IH: "steps_by_at_most_one (replicate k n @ ys)" by simp
  show ?case
  proof (cases "replicate k n @ ys")
    case Nil
    then show ?thesis by simp
  next
    case (Cons z zs)
    have "z = n \<or> z = Suc n"
    proof (cases k)
      case 0
      with Cons Suc.prems(2) show ?thesis by (cases ys) auto
    next
      case (Suc j)
      with Cons show ?thesis by simp
    qed
    with IH Cons show ?thesis by auto
  qed
qed

lemma steps_main_numbers_renumber:
  "list_all (\<lambda>(k, g). group_ok g) G \<Longrightarrow>
   steps_by_at_most_one (main_numbers (renumber n G)) \<and>
   (G \<noteq> [] \<longrightarrow> hd (main_numbers (renumber n G)) = n) \<and>
   (G = [] \<longrightarrow> renumber n G = [])"
proof (induction G arbitrary: n)
  case Nil
  then show ?case by (simp add: main_numbers_def)
next
  case (Cons kg G)
  obtain k g where kg: "kg = (k, g)" by (cases kg)
  from Cons.prems kg have g: "group_ok g" and G: "list_all (\<lambda>(k, g). group_ok g) G"
    by simp_all
  from g have ne: "g \<noteq> []" by (simp add: group_ok_def)
  note IH = Cons.IH [OF G, of "Suc n"]
  have "main_numbers (renumber (Suc n) G) \<noteq> [] \<Longrightarrow> hd (main_numbers (renumber (Suc n) G)) = Suc n"
    using IH by (cases G) (auto simp: main_numbers_def)
  with IH have "steps_by_at_most_one (replicate (length g) n @ main_numbers (renumber (Suc n) G))"
    by (intro steps_replicate_append) simp_all
  moreover have "hd (replicate (length g) n @ main_numbers (renumber (Suc n) G)) = n"
    using ne by (cases g) simp_all
  ultimately show ?case by (simp add: kg main_numbers_renumber_Cons [OF g] del: renumber.simps)
qed

lemma sorted_main_numbers_renumber:
  "list_all (\<lambda>(k, g). group_ok g) G \<Longrightarrow> sorted (main_numbers (renumber n G))"
proof (induction G arbitrary: n)
  case Nil
  then show ?case by (simp add: main_numbers_def)
next
  case (Cons kg G)
  obtain k g where kg: "kg = (k, g)" by (cases kg)
  from Cons.prems kg have g: "group_ok g" and G: "list_all (\<lambda>(k, g). group_ok g) G"
    by simp_all
  have "\<forall>m \<in> set (main_numbers (renumber (Suc n) G)). n \<le> m"
    by (simp add: set_main_numbers_renumber [OF G])
  with Cons.IH [OF G, of "Suc n"] show ?case
    by (auto simp: kg main_numbers_renumber_Cons [OF g] sorted_append simp del: renumber.simps)
qed

lemma more_renumber: "map numbered.more (renumber n G) = map numbered.more (originals G)"
proof (induction G arbitrary: n)
  case Nil
  then show ?case by (simp add: originals_def)
next
  case (Cons kg G)
  obtain k g where kg: "kg = (k, g)" by (cases kg)
  have "map numbered.more (renumber (Suc n) G) = map numbered.more (originals G)"
    by (rule Cons.IH)
  then show ?case by (simp add: kg originals_def case_prod_unfold comp_def)
qed

lemma mset_concat_map_cong:
  "mset xs = mset ys \<Longrightarrow> mset (concat (map f xs)) = mset (concat (map f ys))"
proof -
  assume eq: "mset xs = mset ys"
  have "\<And>zs. mset (concat (map f zs)) = sum_mset (image_mset (\<lambda>z. mset (f z)) (mset zs))"
    by (induct_tac zs) simp_all
  with eq show ?thesis by simp
qed

lemma mset_originals_sort: "mset (originals (sort_key fst G)) = mset (originals G)"
  unfolding originals_def by (rule mset_concat_map_cong) simp

lemma mset_originals_append:
  "mset (originals (group_append k v G)) = mset (originals G) + {#snd v#}"
proof (induction G)
  case Nil
  then show ?case by (simp add: originals_def)
next
  case (Cons kg G)
  obtain k' vs where kg: "kg = (k', vs)" by (cases kg)
  show ?case
  proof (cases "k = k'")
    case True
    then show ?thesis by (simp add: kg originals_def)
  next
    case False
    then show ?thesis using Cons.IH by (simp add: kg originals_def)
  qed
qed

lemma mset_originals_step:
  "mset (originals (group_step G q)) = mset (originals G) + (if parses q then {#q#} else {#})"
  by (auto simp: group_step_def parses_def mset_originals_append split: option.splits)

lemma mset_originals_foldl:
  "mset (originals (foldl group_step G qs)) = mset (originals G) + mset (filter parses qs)"
  by (induction qs arbitrary: G) (simp_all add: mset_originals_step)

lemma mset_originals_question_groups:
  "mset (originals (question_groups qs)) = mset (filter parses qs)"
  by (simp add: question_groups_def mset_originals_foldl) (simp add: originals_def)

lemma main_numbers_group:
  "list_all (\<lambda>(sub, q). question_number_match (question_number q) = Some (k, sub)) g \<Longrightarrow>
   m \<in> set (main_numbers (map snd (sort_key fst g))) \<Longrightarrow> m = k"
  by (fastforce simp: main_numbers_def list_all_iff)

lemma main_numbers_originals:
  "group_inv G \<Longrightarrow> set (main_numbers (originals G)) \<subseteq> fst ` set G"
proof (induction G)
  case Nil
  then show ?case by (simp add: originals_def main_numbers_def)
next
  case (Cons kg G)
  obtain k g where kg: "kg = (k, g)" by (cases kg)
  from Cons.prems have inv: "group_inv G" by (simp add: group_inv_def)
  from Cons.prems kg have g: "list_all (\<lambda>(sub, q). question_number_match (question_number q) = Some (k, sub)) g"
    by (simp add: group_inv_def)
  have "originals (kg # G) = map snd (sort_key fst g) @ originals G"
    by (simp add: kg originals_def)
  then show ?case using Cons.IH [OF inv] main_numbers_group [OF g]
    by (auto simp: main_numbers_append kg)
qed

lemma sorted_all_equal: "\<forall>m \<in> set xs. m = (k::nat) \<Longrightarrow> sorted xs"
  by (induction xs) auto

lemma sorted_main_numbers_originals:
  "group_inv G \<Longrightarrow> sorted (map fst G) \<Longrightarrow> sorted (main_numbers (originals G))"
proof (induction G)
  case Nil
  then show ?case by (simp add: originals_def main_numbers_def)
next
  case (Cons kg G)
  obtain k g where kg: "kg = (k, g)" by (cases kg)
  from Cons.prems have inv: "group_inv G" and srt: "sorted (map fst G)"
    by (simp_all add: group_inv_def)
  from Cons.prems kg have "list_all (\<lambda>(sub, q). question_number_match (question_number q) = Some (k, sub)) g"
    by (simp add: group_inv_def)
  then have here: "\<forall>m \<in> set (main_numbers (map snd (sort_key fst g))). m = k"
    using main_numbers_group by blast
  then have "sorted (main_numbers (map snd (sort_key fst g)))"
    by (rule sorted_all_equal)
  moreover have "\<forall>m \<in> set (main_numbers (originals G)). k \<le> m"
    using main_numbers_originals [OF inv] Cons.prems(2) by (auto simp: kg)
  moreover have "originals (kg # G) = map snd (sort_key fst g) @ originals G"
    by (simp add: kg originals_def)
  ultimately show ?case using Cons.IH [OF inv srt] here
    by (auto simp: main_numbers_append sorted_append)
qed

lemma fst_set_group_append: "fst ` set (group_append k v G) = insert k (fst ` set G)"
proof (induction G)
  case Nil
  then show ?case by simp
next
  case (Cons kg G)
  obtain k' vs where kg: "kg = (k', vs)" by (cases kg)
  show ?case using Cons.IH by (auto simp: kg rev_image_eqI)
qed

lemma set_fst_group_step:
  "fst ` set (group_step G q) = fst ` set G \<union> set (main_numbers (filter parses [q]))"
proof (cases "question_number_match (question_number q)")
  case None
  then show ?thesis by (simp add: group_step_def parses_def main_numbers_def)
next
  case (Some ns)
  obtain n sub where ns: "ns = (n, sub)" by (cases ns)
  have "group_step G q = group_append n (sub, q) G"
    by (simp add: group_step_def Some ns)
  moreover have "main_numbers (filter parses [q]) = [n]"
    by (simp add: parses_def main_numbers_def Some ns)
  ultimately show ?thesis by (simp add: fst_set_group_append)
qed

lemma set_fst_foldl:
  "fst ` set (foldl group_step G qs) = fst ` set G \<union> set (main_numbers (filter parses qs))"
proof (induction qs arbitrary: G)
  case Nil
  then show ?case by (simp add: main_numbers_def)
next
  case (Cons q qs)
  have "main_numbers (filter parses (q # qs)) = main_numbers (filter parses [q]) @ main_numbers (filter parses qs)"
    by (simp add: main_numbers_def)
  then show ?case using Cons.IH [of "group_step G q"] by (simp add: set_fst_group_step Un_assoc)
qed

lemma length_question_groups:
  "length (question_groups qs) = card (set (main_numbers (filter parses qs)))"
proof -
  have "distinct (map fst (question_groups qs))"
    using group_inv_question_groups [of qs] by (simp add: group_inv_def)
  then have "length (question_groups qs) = card (set (map fst (question_groups qs)))"
    by (metis distinct_card length_map)
  also have "set (map fst (question_groups qs)) = set (main_numbers (filter parses qs))"
    using set_fst_foldl [of "[]" qs] by (simp add: question_groups_def)
  finally show ?thesis .
qed

subsection \<open>The output of the numbering pass, in closed form\<close>

lemma main_numbers_detected: "main_numbers qs = map detected_main qs"
  by (simp add: main_numbers_def detected_main_def)

lemma map_of_group_append:
  "map_of (group_append k v G)
     = (map_of G)(k \<mapsto> (case map_of G k of None \<Rightarrow> [v] | Some vs \<Rightarrow> vs @ [v]))"
  by (induction G) (auto simp: fun_eq_iff)

lemma question_groups_snoc: "question_groups (qs @ [q]) = group_step (question_groups qs) q"
  by (simp add: question_groups_def)

lemma map_of_question_groups:
  "map_of (question_groups qs) k
     = (if filter (\<lambda>q. detected_main q = k) (filter parses qs) = [] then None
        else Some (map (\<lambda>q. (detected_sub q, q))
               (filter (\<lambda>q. detected_main q = k) (filter parses qs))))"
proof (induction qs rule: rev_induct)
  case Nil
  then show ?case by (simp add: question_groups_def)
next
  case (snoc q qs)
  show ?case
  proof (cases "question_number_match (question_number q)")
    case None
    then have "\<not> parses q" "group_step (question_groups qs) q = question_groups qs"
      by (simp_all add: parses_def group_step_def)
    with snoc show ?thesis by (simp add: question_groups_snoc)
  next
    case (Some ns)
    obtain n s where ns: "ns = (n, s)" by (cases ns)
    from Some ns have q: "parses q" "detected_main q = n" "detected_sub q = s"
      by (simp_all add: parses_def detected_main_def detected_sub_def)
    have step: "group_step (question_groups qs) q = group_append n (s, q) (question_groups qs)"
      by (simp add: group_step_def Some ns)
    show ?thesis
    proof (cases "k = n")
      case True
      with snoc q show ?thesis
        by (simp add: question_groups_snoc step map_of_group_append)
    next
      case False
      with snoc q show ?thesis
        by (simp add: question_groups_snoc step map_of_group_append)
    qed
  qed
qed

lemma group_members_detected:
  assumes "list_all (\<lambda>(sub, q). question_number_match (question_number q) = Some (k, sub)) g"
    and "(sub, q) \<in> set g"
  shows "detected_main q = k" and "detected_sub q = sub"
  using assms by (auto simp: list_all_iff detected_main_def detected_sub_def)

lemma filter_group_same:
  assumes "list_all (\<lambda>(sub, q). question_number_match (question_number q) = Some (k, sub)) g"
  shows "filter (\<lambda>q. detected_main q = n) (map snd (sort_key fst g))
           = (if n = k then map snd (sort_key fst g) else [])"
proof -
  have "\<forall>x \<in> set (sort_key fst g). detected_main (snd x) = k"
    using assms by (auto simp: list_all_iff detected_main_def)
  then show ?thesis by (auto simp: filter_map comp_def filter_empty_conv)
qed

lemma originals_Cons: "originals ((k, g) # G) = map snd (sort_key fst g) @ originals G"
  by (simp add: originals_def)

lemma group_inv_Cons:
  "group_inv ((k, g) # G) \<Longrightarrow>
   group_inv G \<and> k \<notin> fst ` set G \<and>
   list_all (\<lambda>(sub, q). question_number_match (question_number q) = Some (k, sub)) g"
  by (simp add: group_inv_def)

lemma filter_originals:
  "group_inv G \<Longrightarrow>
   filter (\<lambda>q. detected_main q = n) (originals G)
     = (case map_of G n of None \<Rightarrow> [] | Some g \<Rightarrow> map snd (sort_key fst g))"
proof (induction G)
  case Nil
  then show ?case by (simp add: originals_def)
next
  case (Cons kg G)
  obtain k g where kg: "kg = (k, g)" by (cases kg)
  from Cons.prems kg have inv: "group_inv G" and k: "k \<notin> fst ` set G"
    and g: "list_all (\<lambda>(sub, q). question_number_match (question_number q) = Some (k, sub)) g"
    using group_inv_Cons [of k g G] by simp_all
  from k have none: "map_of G k = None" by (simp add: map_of_eq_None_iff)
  show ?case
    using Cons.IH [OF inv] none
    by (simp add: kg originals_Cons filter_group_same [OF g])
qed

lemma map_of_sort_groups:
  assumes "distinct (map fst G)"
  shows "map_of (sort_key fst G) = map_of G"
proof -
  have "distinct (map fst (sort_key fst G))"
    using assms by (simp add: distinct_map)
  moreover have "set (sort_key fst G) = set G" by simp
  ultimately show ?thesis using assms by (simp add: map_of_inject_set)
qed

lemma insort_key_tag:
  "insort_key fst (f x, x) (map (\<lambda>q. (f q, q)) ys) = map (\<lambda>q. (f q, q)) (insort_key f x ys)"
  by (induction ys) simp_all

lemma sort_key_tag: "sort_key fst (map (\<lambda>q. (f q, q)) xs) = map (\<lambda>q. (f q, q)) (sort_key f xs)"
  by (induction xs) (simp_all add: insort_key_tag)

lemma map_snd_sort_key_tag: "map snd (sort_key fst (map (\<lambda>q. (f q, q)) xs)) = sort_key f xs"
  by (simp add: sort_key_tag comp_def)

lemma originals_sorted_groups:
  "originals (sort_key fst (question_groups qs))
     = sort_key detected_main (sort_key detected_sub (filter parses qs))"
proof -
  let ?G = "sort_key fst (question_groups qs)"
  let ?P = "filter parses qs"
  have inv: "group_inv ?G" by (intro group_inv_sort group_inv_question_groups)
  have dist: "distinct (map fst (question_groups qs))"
    using group_inv_question_groups [of qs] by (simp add: group_inv_def)
  have m: "mset (originals ?G) = mset (sort_key detected_sub ?P)"
    by (simp add: mset_originals_sort mset_originals_question_groups)
  have s: "sorted (map detected_main (originals ?G))"
    using sorted_main_numbers_originals [OF inv] by (simp add: main_numbers_detected)
  have f: "filter (\<lambda>x. n = detected_main x) (originals ?G)
         = filter (\<lambda>x. n = detected_main x) (sort_key detected_sub ?P)" for n
  proof -
    have "filter (\<lambda>x. detected_main x = n) (originals ?G)
        = (case map_of (question_groups qs) n of None \<Rightarrow> [] | Some g \<Rightarrow> map snd (sort_key fst g))"
      by (simp add: filter_originals [OF inv] map_of_sort_groups [OF dist])
    also have "\<dots> = sort_key detected_sub (filter (\<lambda>q. detected_main q = n) ?P)"
      by (simp add: map_of_question_groups map_snd_sort_key_tag)
    also have "\<dots> = filter (\<lambda>x. detected_main x = n) (sort_key detected_sub ?P)"
      by (simp add: filter_sort)
    finally show ?thesis by (simp add: eq_commute)
  qed
  show ?thesis
    by (rule sym, rule properties_for_sort_key [OF m _ s]) (rule f)
qed

lemma renumber_closed_form:
  "group_inv G \<Longrightarrow> sorted (map fst G) \<Longrightarrow>
   renumber n G
     = map (\<lambda>q. q\<lparr>question_number :=
                   format_number (n + length (filter (\<lambda>m. m < detected_main q) (map fst G)))
                     (detected_sub q)\<rparr>)
         (originals G)"
proof (induction G arbitrary: n)
  case Nil
  then show ?case by (simp add: originals_def)
next
  case (Cons kg G)
  obtain k g where kg: "kg = (k, g)" by (cases kg)
  from Cons.prems kg have inv: "group_inv G" and k: "k \<notin> fst ` set G"
    and g: "list_all (\<lambda>(sub, q). question_number_match (question_number q) = Some (k, sub)) g"
    using group_inv_Cons [of k g G] by simp_all
  from Cons.prems(2) kg have srt: "sorted (map fst G)" and le: "\<forall>m \<in> fst ` set G. k \<le> m"
    by simp_all
  from le k have lt: "\<forall>m \<in> fst ` set G. k < m" by (metis le_neq_implies_less)
  have none: "filter (\<lambda>m. m < k) (map fst G) = []"
    using le by (auto simp: filter_empty_conv)
  have head: "map (\<lambda>(sub_part, question). question\<lparr>question_number := format_number n sub_part\<rparr>)
          (sort_key fst g)
        = map (\<lambda>q. q\<lparr>question_number :=
                   format_number (n + length (filter (\<lambda>m. m < detected_main q) (map fst (kg # G))))
                     (detected_sub q)\<rparr>)
            (map snd (sort_key fst g))"
  proof -
    have "\<forall>x \<in> set (sort_key fst g). detected_main (snd x) = k \<and> detected_sub (snd x) = fst x"
      using g by (auto simp: list_all_iff detected_main_def detected_sub_def)
    then show ?thesis by (auto simp: kg none case_prod_unfold)
  qed
  have tail: "renumber (Suc n) G
        = map (\<lambda>q. q\<lparr>question_number :=
                   format_number (n + length (filter (\<lambda>m. m < detected_main q) (map fst (kg # G))))
                     (detected_sub q)\<rparr>)
            (originals G)"
  proof -
    have "\<forall>q \<in> set (originals G). k < detected_main q"
    proof
      fix q assume "q \<in> set (originals G)"
      then have "detected_main q \<in> set (main_numbers (originals G))"
        by (simp add: main_numbers_detected)
      with main_numbers_originals [OF inv] have "detected_main q \<in> fst ` set G" by (rule subsetD)
      with lt show "k < detected_main q" by (rule bspec)
    qed
    then show ?thesis by (simp add: Cons.IH [OF inv srt] kg)
  qed
  show ?case
    by (simp only: kg renumber.simps originals_Cons map_append head [unfolded kg] tail [unfolded kg])
qed

lemma set_fst_question_groups:
  "set (map fst (question_groups qs)) = set (map detected_main (filter parses qs))"
  using set_fst_foldl [of "[]" qs] by (simp add: question_groups_def main_numbers_detected)

lemma length_filter_distinct:
  "distinct xs \<Longrightarrow> distinct ys \<Longrightarrow> set xs = set ys \<Longrightarrow>
   length (filter P xs) = length (filter P ys)"
  by (simp add: distinct_length_filter)

lemma fix_question_numbering_closed_form:
  "fix_question_numbering qs subject
     = map (\<lambda>q. q\<lparr>question_number := format_number (new_number qs q) (detected_sub q)\<rparr>)
         (sort_key detected_main (sort_key detected_sub (filter parses qs)))"
proof -
  let ?G = "sort_key fst (question_groups qs)"
  have inv: "group_inv ?G" by (intro group_inv_sort group_inv_question_groups)
  have srt: "sorted (map fst ?G)" by simp
  have d1: "distinct (map fst ?G)" using inv by (simp add: group_inv_def)
  have st: "set (map fst ?G) = set (remdups (map detected_main (filter parses qs)))"
    using set_fst_question_groups [of qs] by simp
  have len: "length (filter P (map fst ?G))
               = length (filter P (remdups (map detected_main (filter parses qs))))" for P
    by (rule length_filter_distinct [OF d1 _ st]) simp
  show ?thesis
    unfolding fix_question_numbering_def renumber_closed_form [OF inv srt]
      originals_sorted_groups new_number_def len by simp
qed

lemma parses_valid_sub: "parses q \<Longrightarrow> valid_sub (detected_sub q)"
  by (auto simp: parses_def detected_sub_def dest: question_number_match_valid_sub)

lemma detected_main_relabel:
  "parses q \<Longrightarrow> detected_main (q\<lparr>question_number := format_number n (detected_sub q)\<rparr>) = n"
  by (simp add: detected_main_def question_number_match_format parses_valid_sub)

text \<open>
  C1 (as the code has it). The output of the numbering pass is the list of the question
  objects whose number the pattern reads, sorted by detected main number and, within
  one main number, by sub-part (both sorts are stable, so ties keep the order in which
  the objects came in); each of them has only its \<open>question_number\<close> rewritten: it keeps
  its sub-part and gets as main number one more than the number of distinct detected
  main numbers below its own, so objects with the same detected main number share the
  new one. Hence the main numbers of the output never decrease, consecutive ones are
  equal or grow by one, the first is 1, and they are exactly the numbers from 1 to the
  number of distinct detected main numbers.
\<close>

theorem fix_question_numbering_sequence:
  "fix_question_numbering qs subject
     = map (\<lambda>q. q\<lparr>question_number := format_number (new_number qs q) (detected_sub q)\<rparr>)
         (sort_key detected_main (sort_key detected_sub (filter parses qs))) \<and>
   main_numbers (fix_question_numbering qs subject)
     = map (new_number qs) (sort_key detected_main (sort_key detected_sub (filter parses qs))) \<and>
   sorted (main_numbers (fix_question_numbering qs subject)) \<and>
   steps_by_at_most_one (main_numbers (fix_question_numbering qs subject)) \<and>
   (fix_question_numbering qs subject \<noteq> [] \<longrightarrow>
      hd (main_numbers (fix_question_numbering qs subject)) = 1) \<and>
   set (main_numbers (fix_question_numbering qs subject))
     = {1..card (set (main_numbers (filter parses qs)))}"
proof -
  let ?G = "sort_key fst (question_groups qs)"
  let ?S = "sort_key detected_main (sort_key detected_sub (filter parses qs))"
  have inv: "group_inv ?G"
    by (intro group_inv_sort group_inv_question_groups)
  then have ok: "list_all (\<lambda>(k, g). group_ok g) ?G" by (rule group_inv_ok)
  have out: "fix_question_numbering qs subject = renumber 1 ?G"
    by (simp add: fix_question_numbering_def)
  have a: "sorted (main_numbers (renumber 1 ?G))"
    using ok by (rule sorted_main_numbers_renumber)
  have b: "steps_by_at_most_one (main_numbers (renumber 1 ?G))"
    and c: "?G \<noteq> [] \<longrightarrow> hd (main_numbers (renumber 1 ?G)) = 1"
    and d: "?G = [] \<longrightarrow> renumber 1 ?G = []"
    using steps_main_numbers_renumber [OF ok, of 1] by simp_all
  have "set (main_numbers (renumber 1 ?G)) = {1..<1 + length ?G}"
    using ok by (rule set_main_numbers_renumber)
  then have e: "set (main_numbers (renumber 1 ?G)) = {1..card (set (main_numbers (filter parses qs)))}"
    by (simp add: length_question_groups atLeastLessThanSuc_atLeastAtMost)
  have f: "renumber 1 ?G
      = map (\<lambda>q. q\<lparr>question_number := format_number (new_number qs q) (detected_sub q)\<rparr>) ?S"
    using fix_question_numbering_closed_form [of qs subject] by (simp only: out)
  have "\<forall>q \<in> set ?S. parses q" by simp
  then have g: "main_numbers
       (map (\<lambda>q. q\<lparr>question_number := format_number (new_number qs q) (detected_sub q)\<rparr>) ?S)
      = map (new_number qs) ?S"
    by (simp add: main_numbers_detected detected_main_relabel)
  from a b c d e show ?thesis unfolding out
    by (intro conjI) (simp_all only: f g, blast)
qed

text \<open>
  The theorem at a list of three question objects, out of order: the object finalized
  first comes out last, and part (a) before part (b).
\<close>

theorem fix_question_numbering_sequence_witness:
  "fix_question_numbering
     [\<lparr>question_number = ''7.'', \<dots> = ''first''\<rparr>,
      \<lparr>question_number = ''3. (b)'', \<dots> = ''second''\<rparr>,
      \<lparr>question_number = ''3. (a)'', \<dots> = ''third''\<rparr>] ''Mathematics'' \<noteq> [] \<and>
   hd (main_numbers (fix_question_numbering
     [\<lparr>question_number = ''7.'', \<dots> = ''first''\<rparr>,
      \<lparr>question_number = ''3. (b)'', \<dots> = ''second''\<rparr>,
      \<lparr>question_number = ''3. (a)'', \<dots> = ''third''\<rparr>] ''Mathematics'')) = 1 \<and>
   sorted (main_numbers (fix_question_numbering
     [\<lparr>question_number = ''7.'', \<dots> = ''first''\<rparr>,
      \<lparr>question_number = ''3. (b)'', \<dots> = ''second''\<rparr>,
      \<lparr>question_number = ''3. (a)'', \<dots> = ''third''\<rparr>] ''Mathematics''))"
proof -
  have "fix_question_numbering
     [\<lparr>question_number = ''7.'', \<dots> = ''first''\<rparr>,
      \<lparr>question_number = ''3. (b)'', \<dots> = ''second''\<rparr>,
      \<lparr>question_number = ''3. (a)'', \<dots> = ''third''\<rparr>] ''Mathematics'' \<noteq> []"
    by code_simp
  then show ?thesis
    using fix_question_numbering_sequence
      [of "[\<lparr>question_number = ''7.'', \<dots> = ''first''\<rparr>,
      \<lparr>question_number = ''3. (b)'', \<dots> = ''second''\<rparr>,
      \<lparr>question_number = ''3. (a)'', \<dots> = ''third''\<rparr>]" "''Mathematics''"]
    by blast
qed

text \<open>
  C1 as the specification states it fails: detected numbers 3, 3, 7 (Scenario D) come
  out as 1, 1, 2, which is not 1, 2, 3; and a question object finalized first can come
  out last.
\<close>

theorem fix_question_numbering_duplicates_counterexample:
  "\<not> consecutive_from_one (main_numbers (fix_question_numbering
       [\<lparr>question_number = ''3.''\<rparr>, \<lparr>question_number = ''3.''\<rparr>, \<lparr>question_number = ''7.''\<rparr>]
       ''Mathematics''))"
  by code_simp

lemma fix_question_numbering_scenario_D:
  "map question_number (fix_question_numbering
       [\<lparr>question_number = ''3.''\<rparr>, \<lparr>question_number = ''3.''\<rparr>, \<lparr>question_number = ''7.''\<rparr>]
       ''Mathematics'') = [''1.'', ''1.'', ''2.'']"
  by code_simp

lemma fix_question_numbering_reorders:
  "fix_question_numbering
     [\<lparr>question_number = ''7.'', \<dots> = ''first''\<rparr>,
      \<lparr>question_number = ''3. (b)'', \<dots> = ''second''\<rparr>,
      \<lparr>question_number = ''3. (a)'', \<dots> = ''third''\<rparr>,
      \<lparr>question_number = ''Q4'', \<dots> = ''fourth''\<rparr>] ''Mathematics''
   = [\<lparr>question_number = ''1. (a)'', \<dots> = ''third''\<rparr>,
      \<lparr>question_number = ''1. (b)'', \<dots> = ''second''\<rparr>,
      \<lparr>question_number = ''2.'', \<dots> = ''first''\<rparr>]"
  by code_simp

subsection \<open>Marks extraction\<close>

lemma re_search_Some:
  "re_search m s = Some v \<Longrightarrow> \<exists>pre suf. s = pre @ suf \<and> m suf = Some v"
proof (induction s)
  case Nil
  then show ?case by simp
next
  case (Cons c s)
  show ?case
  proof (cases "m (c # s)")
    case None
    with Cons.prems have "re_search m s = Some v" by simp
    then obtain pre suf where "s = pre @ suf" "m suf = Some v" using Cons.IH by blast
    then have "c # s = (c # pre) @ suf \<and> m suf = Some v" by simp
    then show ?thesis by blast
  next
    case (Some w)
    with Cons.prems have "c # s = [] @ (c # s) \<and> m (c # s) = Some v" by simp
    then show ?thesis by blast
  qed
qed

lemma re_search_None:
  assumes "\<And>s. list_all Q s \<Longrightarrow> m s = None" and "list_all Q txt"
  shows "re_search m txt = None"
  using assms(2)
proof (induction "txt")
  case Nil
  then show ?case using assms(1) [of "[]"] by simp
next
  case (Cons c s)
  then show ?case using assms(1) [of "c # s"] by simp
qed

lemma optional_split: "\<exists>b. s = b @ optional P s \<and> (b = [] \<or> (\<exists>c. b = [c] \<and> P c))"
  by (cases s) (auto simp: optional_def)

lemma takeWhile_all: "list_all P (takeWhile P s)"
  by (induction s) simp_all

lemma marks_tail_shape:
  assumes "marks_tail s = Some n"
  shows "\<exists>b ds e ws. s = b @ ds @ e @ ws \<and> (b = [] \<or> b = ''['') \<and> ds \<noteq> [] \<and>
           list_all is_digit ds \<and> n = nat_of_digits ds \<and> (e = [] \<or> e = '']'') \<and>
           list_all is_space ws"
proof -
  define s1 where "s1 = optional (\<lambda>c. c = CHR ''['') s"
  define ds where "ds = takeWhile is_digit s1"
  define r where "r = dropWhile is_digit s1"
  define r1 where "r1 = optional (\<lambda>c. c = CHR '']'') r"
  from assms have ok: "ds \<noteq> []" "list_all is_space r1" "n = nat_of_digits ds"
    by (simp_all add: marks_tail_def Let_def s1_def ds_def r_def r1_def split: if_splits)
  obtain b where b: "s = b @ s1" "b = [] \<or> b = ''[''"
    using optional_split [of s "\<lambda>c. c = CHR ''[''"] unfolding s1_def by auto
  obtain e where e: "r = e @ r1" "e = [] \<or> e = '']''"
    using optional_split [of r "\<lambda>c. c = CHR '']''"] unfolding r1_def by auto
  have "s1 = ds @ r" by (simp add: ds_def r_def)
  with b e have "s = b @ ds @ e @ r1" by simp
  moreover have "list_all is_digit ds" unfolding ds_def by (rule takeWhile_all)
  ultimately show ?thesis using ok b(2) e(2) by blast
qed

lemma marks_match_at_shape:
  assumes "marks_match_at s = Some n"
  shows "\<exists>ctx b ds e ws. s = ctx @ b @ ds @ e @ ws \<and> marks_context ctx \<and>
           (b = [] \<or> b = ''['') \<and> ds \<noteq> [] \<and> list_all is_digit ds \<and>
           n = nat_of_digits ds \<and> (e = [] \<or> e = '']'') \<and> list_all is_space ws"
proof (cases "lower (take 4 s) = ''mark''")
  case True
  define r where "r = drop 4 s"
  define r1 where "r1 = optional (\<lambda>c. lower_char c = CHR ''s'') r"
  define r2 where "r2 = dropWhile (\<lambda>c. c = CHR '':'' \<or> is_space c) r1"
  define gap where "gap = takeWhile (\<lambda>c. c = CHR '':'' \<or> is_space c) r1"
  from assms True have t: "marks_tail r2 = Some n"
    by (simp add: marks_match_at_def r_def r1_def r2_def)
  obtain p where p: "r = p @ r1" "p = [] \<or> (\<exists>c. p = [c] \<and> lower_char c = CHR ''s'')"
    using optional_split [of r "\<lambda>c. lower_char c = CHR ''s''"] unfolding r1_def by auto
  have w: "lower (take 4 s @ p) = ''mark'' \<or> lower (take 4 s @ p) = ''marks''"
    using True p(2) by (auto simp: lower_def)
  have "r1 = gap @ r2" by (simp add: gap_def r2_def)
  with p have s: "s = ((take 4 s @ p) @ gap) @ r2"
    using append_take_drop_id [of 4 s] by (simp add: r_def)
  have "list_all (\<lambda>c. c = CHR '':'' \<or> is_space c) gap"
    unfolding gap_def by (rule takeWhile_all)
  with w have ctx: "marks_context ((take 4 s @ p) @ gap)"
    unfolding marks_context_def by blast
  from marks_tail_shape [OF t] obtain b ds e ws where sh:
    "r2 = b @ ds @ e @ ws" "b = [] \<or> b = ''[''" "ds \<noteq> []" "list_all is_digit ds"
    "n = nat_of_digits ds" "e = [] \<or> e = '']''" "list_all is_space ws" by blast
  from s sh(1) have "s = ((take 4 s @ p) @ gap) @ b @ ds @ e @ ws" by simp
  with ctx sh(2-) show ?thesis by blast
next
  case False
  with assms obtain c t where s: "s = c # t" "is_space c" "marks_tail t = Some n"
    by (cases s) (auto simp: marks_match_at_def split: if_splits)
  have ctx: "marks_context [c]" using s(2) by (simp add: marks_context_def)
  from marks_tail_shape [OF s(3)] obtain b ds e ws where sh:
    "t = b @ ds @ e @ ws" "b = [] \<or> b = ''[''" "ds \<noteq> []" "list_all is_digit ds"
    "n = nat_of_digits ds" "e = [] \<or> e = '']''" "list_all is_space ws" by blast
  with s(1) have "s = [c] @ b @ ds @ e @ ws" by simp
  with ctx sh(2-) show ?thesis by blast
qed

lemma extract_marks_annotation:
  assumes "extract_marks txt = Some n"
  shows "marks_annotation txt n"
proof -
  from assms have "re_search marks_match_at txt = Some n" by (simp add: extract_marks_def)
  from re_search_Some [OF this] obtain pre suf where ps: "txt = pre @ suf" "marks_match_at suf = Some n"
    by blast
  from marks_match_at_shape [OF ps(2)] obtain ctx b ds e ws where sh:
    "suf = ctx @ b @ ds @ e @ ws" "marks_context ctx" "b = [] \<or> b = ''[''" "ds \<noteq> []"
    "list_all is_digit ds" "n = nat_of_digits ds" "e = [] \<or> e = '']''" "list_all is_space ws"
    by blast
  have eq: "txt = pre @ ctx @ b @ ds @ e @ ws" by (simp only: ps(1) sh(1))
  show ?thesis unfolding marks_annotation_def
    apply (rule exI [of _ pre], rule exI [of _ ctx], rule exI [of _ b], rule exI [of _ ds],
        rule exI [of _ e], rule exI [of _ ws])
    apply (intro conjI eq sh(2-))
    done
qed

lemma digit_not_space: "is_digit c \<Longrightarrow> \<not> is_space c"
  by (auto simp: is_digit_def is_space_def)

lemma last_visible_annotation:
  assumes "marks_annotation txt n"
  shows "\<exists>c. last_visible txt = Some c \<and> (is_digit c \<or> c = CHR '']'')"
proof -
  from assms obtain pre ctx b ds e ws where
    t: "txt = pre @ ctx @ b @ ds @ e @ ws" and ds: "ds \<noteq> []" "list_all is_digit ds"
    and e: "e = [] \<or> e = '']''" and ws: "list_all is_space ws"
    unfolding marks_annotation_def by blast
  have rv: "rev txt = rev ws @ rev e @ rev ds @ rev (pre @ ctx @ b)" by (simp add: t)
  have "dropWhile is_space (rev ws @ rev e @ rev ds @ rev (pre @ ctx @ b))
      = dropWhile is_space (rev e @ rev ds @ rev (pre @ ctx @ b))"
    using ws by (intro dropWhile_append2) (simp add: list_all_iff)
  then have dw: "dropWhile is_space (rev txt) = dropWhile is_space (rev e @ rev ds @ rev (pre @ ctx @ b))"
    by (simp only: rv)
  show ?thesis
  proof (cases "e = []")
    case True
    obtain d ds' where d: "rev ds = d # ds'" using ds(1) by (cases "rev ds") auto
    then have "d \<in> set (rev ds)" by simp
    then have "d \<in> set ds" by simp
    with ds(2) have dd: "is_digit d" by (simp add: list_all_iff)
    then have "\<not> is_space d" by (rule digit_not_space)
    with dw True d have "last_visible txt = Some d" by (simp add: last_visible_def)
    with dd show ?thesis by blast
  next
    case False
    with e have "e = '']''" by simp
    moreover have "\<not> is_space CHR '']''" by (simp add: is_space_def)
    ultimately have "last_visible txt = Some CHR '']''" using dw by (simp add: last_visible_def)
    then show ?thesis by blast
  qed
qed

lemma no_digit_takeWhile: "list_all (\<lambda>c. \<not> is_digit c) s \<Longrightarrow> takeWhile is_digit s = []"
  by (cases s) simp_all

lemma no_digit_optional:
  "list_all (\<lambda>c. \<not> is_digit c) s \<Longrightarrow> list_all (\<lambda>c. \<not> is_digit c) (optional P s)"
  by (cases s) (simp_all add: optional_def)

lemma no_digit_suffix:
  "list_all (\<lambda>c. \<not> is_digit c) s \<Longrightarrow> list_all (\<lambda>c. \<not> is_digit c) (drop k s)"
  "list_all (\<lambda>c. \<not> is_digit c) s \<Longrightarrow> list_all (\<lambda>c. \<not> is_digit c) (dropWhile P s)"
  by (auto simp: list_all_iff dest: in_set_dropD set_dropWhileD)

lemma no_digit_marks_tail: "list_all (\<lambda>c. \<not> is_digit c) s \<Longrightarrow> marks_tail s = None"
  using no_digit_optional [of s "\<lambda>c. c = CHR ''[''"]
  by (simp add: marks_tail_def Let_def no_digit_takeWhile)

lemma no_digit_marks_match_at: "list_all (\<lambda>c. \<not> is_digit c) s \<Longrightarrow> marks_match_at s = None"
proof -
  assume a: "list_all (\<lambda>c. \<not> is_digit c) s"
  have "marks_tail (dropWhile (\<lambda>c. c = CHR '':'' \<or> is_space c)
      (optional (\<lambda>c. lower_char c = CHR ''s'') (drop 4 s))) = None"
    using a by (intro no_digit_marks_tail no_digit_suffix no_digit_optional)
  moreover have "(case s of [] \<Rightarrow> None | c # t \<Rightarrow> if is_space c then marks_tail t else None) = None"
    using a by (cases s) (simp_all add: no_digit_marks_tail)
  ultimately show ?thesis by (simp add: marks_match_at_def)
qed

lemma no_digit_extract_marks: "list_all (\<lambda>c. \<not> is_digit c) txt \<Longrightarrow> extract_marks txt = None"
  unfolding extract_marks_def by (rule re_search_None [OF no_digit_marks_match_at])

lemma no_digit_marks_word: "list_all (\<lambda>c. \<not> is_digit c) s \<Longrightarrow> marks_word_match_at s = None"
  by (simp add: marks_word_match_at_def Let_def no_digit_takeWhile)

lemma no_digit_paren_number: "list_all (\<lambda>c. \<not> is_digit c) s \<Longrightarrow> paren_number_match_at s = None"
  by (cases s) (simp_all add: paren_number_match_at_def no_digit_takeWhile)

lemma no_digit_hierarchical_extract_marks:
  "list_all (\<lambda>c. \<not> is_digit c) txt \<Longrightarrow> hierarchical_extract_marks txt = 1"
  by (simp add: hierarchical_extract_marks_def re_search_None [OF no_digit_marks_word]
      re_search_None [OF no_digit_paren_number])

subsection \<open>The marks of hierarchical\_extractor\<close>

lemma re_search_found: "m suf \<noteq> None \<Longrightarrow> re_search m (pre @ suf) \<noteq> None"
proof (induction pre)
  case Nil
  then show ?case by (cases suf) auto
next
  case (Cons c pre)
  then show ?case by (cases "m (c # pre @ suf)") simp_all
qed

lemma marks_word_match_at_shape:
  assumes "marks_word_match_at s = Some n"
  shows "\<exists>ds ws w r. s = ds @ ws @ w @ r \<and> ds \<noteq> [] \<and> list_all is_digit ds \<and>
           n = nat_of_digits ds \<and> list_all is_space ws \<and> lower w = ''mark''"
proof -
  define ds where "ds = takeWhile is_digit s"
  define r0 where "r0 = dropWhile is_digit s"
  define ws where "ws = takeWhile is_space r0"
  define r1 where "r1 = dropWhile is_space r0"
  from assms have ok: "ds \<noteq> []" "lower (take 4 r1) = ''mark''" "n = nat_of_digits ds"
    by (simp_all add: marks_word_match_at_def Let_def ds_def r0_def r1_def split: if_splits)
  have "s = ds @ r0" by (simp add: ds_def r0_def)
  moreover have "r0 = ws @ r1" by (simp add: ws_def r1_def)
  moreover have "r1 = take 4 r1 @ drop 4 r1" by simp
  ultimately have s: "s = ds @ ws @ take 4 r1 @ drop 4 r1" by simp
  have d: "list_all is_digit ds" unfolding ds_def by (rule takeWhile_all)
  have w: "list_all is_space ws" unfolding ws_def by (rule takeWhile_all)
  show ?thesis
    apply (rule exI [of _ ds], rule exI [of _ ws], rule exI [of _ "take 4 r1"],
        rule exI [of _ "drop 4 r1"])
    apply (intro conjI s ok d w)
    done
qed

lemma paren_number_match_at_shape:
  assumes "paren_number_match_at s = Some n"
  shows "\<exists>ds r. s = ''('' @ ds @ '')'' @ r \<and> ds \<noteq> [] \<and> list_all is_digit ds \<and>
           n = nat_of_digits ds"
proof -
  from assms obtain c r0 where s: "s = c # r0" by (cases s) (auto simp: paren_number_match_at_def)
  define ds where "ds = takeWhile is_digit r0"
  define r1 where "r1 = dropWhile is_digit r0"
  from assms s have ok: "c = CHR ''(''" "ds \<noteq> []" "take 1 r1 = '')''" "n = nat_of_digits ds"
    by (simp_all add: paren_number_match_at_def ds_def r1_def split: if_splits)
  from ok(3) obtain r where r1: "r1 = CHR '')'' # r" by (cases r1) auto
  have "r0 = ds @ r1" by (simp add: ds_def r1_def)
  with s ok(1) r1 have e: "s = ''('' @ ds @ '')'' @ r" by simp
  have d: "list_all is_digit ds" unfolding ds_def by (rule takeWhile_all)
  show ?thesis
    apply (rule exI [of _ ds], rule exI [of _ r])
    apply (intro conjI e ok d)
    done
qed

lemma re_search_number_before_mark:
  assumes "re_search marks_word_match_at txt = Some n"
  shows "number_before_mark txt n"
proof -
  from re_search_Some [OF assms] obtain pre suf where
    ps: "txt = pre @ suf" "marks_word_match_at suf = Some n" by blast
  from marks_word_match_at_shape [OF ps(2)] obtain ds ws w r where sh:
    "suf = ds @ ws @ w @ r" "ds \<noteq> []" "list_all is_digit ds" "n = nat_of_digits ds"
    "list_all is_space ws" "lower w = ''mark''" by blast
  have eq: "txt = pre @ ds @ ws @ w @ r" by (simp only: ps(1) sh(1))
  show ?thesis unfolding number_before_mark_def
    apply (rule exI [of _ pre], rule exI [of _ ds], rule exI [of _ ws], rule exI [of _ w],
        rule exI [of _ r])
    apply (intro conjI eq sh(2-))
    done
qed

lemma re_search_number_in_parentheses:
  assumes "re_search paren_number_match_at txt = Some n"
  shows "number_in_parentheses txt n"
proof -
  from re_search_Some [OF assms] obtain pre suf where
    ps: "txt = pre @ suf" "paren_number_match_at suf = Some n" by blast
  from paren_number_match_at_shape [OF ps(2)] obtain ds r where sh:
    "suf = ''('' @ ds @ '')'' @ r" "ds \<noteq> []" "list_all is_digit ds" "n = nat_of_digits ds"
    by blast
  have eq: "txt = pre @ ''('' @ ds @ '')'' @ r" by (simp only: ps(1) sh(1))
  show ?thesis unfolding number_in_parentheses_def
    apply (rule exI [of _ pre], rule exI [of _ ds], rule exI [of _ r])
    apply (intro conjI eq sh(2-))
    done
qed

lemma lower_char_m: "lower_char a = CHR ''m'' \<Longrightarrow> \<not> is_digit a \<and> \<not> is_space a"
  by (auto simp: lower_char_def is_digit_def is_space_def is_upper_def split: if_splits)

lemma takeWhile_digits_append:
  "list_all is_digit ds \<Longrightarrow> takeWhile is_digit (ds @ s) = ds @ takeWhile is_digit s"
  by (simp add: list_all_iff takeWhile_append2)

lemma dropWhile_digits_append:
  "list_all is_digit ds \<Longrightarrow> dropWhile is_digit (ds @ s) = dropWhile is_digit s"
  by (simp add: list_all_iff dropWhile_append2)

lemma marks_word_match_at_found:
  assumes "ds \<noteq> []" "list_all is_digit ds" "list_all is_space ws" "lower w = ''mark''"
  shows "marks_word_match_at (ds @ ws @ w @ r) \<noteq> None"
proof -
  from assms(4) obtain a w' where w: "w = a # w'" "lower_char a = CHR ''m''"
    by (cases w) (auto simp: lower_def)
  from lower_char_m [OF w(2)] have a: "\<not> is_digit a" "\<not> is_space a" by simp_all
  from assms(4) have "length (map lower_char w) = length ''mark''" by (simp only: lower_def)
  then have len: "length w = 4" by simp
  have nd: "dropWhile is_digit (ws @ w @ r) = ws @ w @ r"
  proof (cases ws)
    case Nil
    with w a show ?thesis by simp
  next
    case (Cons x xs)
    with assms(3) have "is_space x" by simp
    then have "\<not> is_digit x" using digit_not_space by blast
    with Cons show ?thesis by simp
  qed
  have ns: "dropWhile is_space (ws @ w @ r) = w @ r"
    using assms(3) w a by (simp add: list_all_iff dropWhile_append2)
  have "takeWhile is_digit (ds @ ws @ w @ r) \<noteq> []"
    using assms(1,2) by (simp add: takeWhile_digits_append)
  moreover have "lower (take 4 (dropWhile is_space (dropWhile is_digit (ds @ ws @ w @ r)))) = ''mark''"
    using assms(2,4) len by (simp add: dropWhile_digits_append nd ns)
  ultimately show ?thesis by (simp add: marks_word_match_at_def Let_def)
qed

lemma paren_number_match_at_found:
  assumes "ds \<noteq> []" "list_all is_digit ds"
  shows "paren_number_match_at (''('' @ ds @ '')'' @ r) = Some (nat_of_digits ds)"
proof -
  have nd: "\<not> is_digit CHR '')''" by (simp add: is_digit_def)
  have "takeWhile is_digit (ds @ '')'' @ r) = ds"
    using assms(2) nd by (simp add: takeWhile_digits_append)
  moreover have "dropWhile is_digit (ds @ '')'' @ r) = '')'' @ r"
    using assms(2) nd by (simp add: dropWhile_digits_append)
  ultimately show ?thesis using assms(1) by (simp add: paren_number_match_at_def)
qed

lemma number_before_mark_found:
  assumes "number_before_mark txt n"
  shows "re_search marks_word_match_at txt \<noteq> None"
proof -
  from assms obtain pre ds ws w r where t: "txt = pre @ ds @ ws @ w @ r" and
    ok: "ds \<noteq> []" "list_all is_digit ds" "list_all is_space ws" "lower w = ''mark''"
    unfolding number_before_mark_def by blast
  have "marks_word_match_at (ds @ ws @ w @ r) \<noteq> None"
    using ok by (rule marks_word_match_at_found)
  then show ?thesis unfolding t by (rule re_search_found)
qed

lemma number_in_parentheses_found:
  assumes "number_in_parentheses txt n"
  shows "re_search paren_number_match_at txt \<noteq> None"
proof -
  from assms obtain pre ds r where t: "txt = pre @ ''('' @ ds @ '')'' @ r" and
    ok: "ds \<noteq> []" "list_all is_digit ds"
    unfolding number_in_parentheses_def by blast
  have "paren_number_match_at (''('' @ ds @ '')'' @ r) \<noteq> None"
    using paren_number_match_at_found [OF ok] by simp
  then show ?thesis unfolding t by (rule re_search_found)
qed

lemma hierarchical_extract_marks_cases:
  "number_before_mark txt (hierarchical_extract_marks txt) \<or>
   number_in_parentheses txt (hierarchical_extract_marks txt) \<or>
   hierarchical_extract_marks txt = 1"
proof (cases "re_search marks_word_match_at txt")
  case (Some n)
  then have "hierarchical_extract_marks txt = n" by (simp add: hierarchical_extract_marks_def)
  with re_search_number_before_mark [OF Some] show ?thesis by simp
next
  case None
  show ?thesis
  proof (cases "re_search paren_number_match_at txt")
    case (Some n)
    with None have "hierarchical_extract_marks txt = n" by (simp add: hierarchical_extract_marks_def)
    with re_search_number_in_parentheses [OF Some] show ?thesis by simp
  next
    case n: None
    with None show ?thesis by (simp add: hierarchical_extract_marks_def)
  qed
qed

lemma marks_word_no_digit: "\<not> is_digit c \<Longrightarrow> marks_word_match_at (c # s) = None"
  by (simp add: marks_word_match_at_def)

lemma re_search_marks_word_skip:
  "list_all (\<lambda>c. \<not> is_digit c) pre \<Longrightarrow>
   re_search marks_word_match_at (pre @ c # s) = re_search marks_word_match_at (c # s)"
  by (induction pre) (simp_all add: marks_word_no_digit)

lemma marks_word_digits_paren:
  assumes "list_all is_digit ds"
  shows "marks_word_match_at (ds @ '')'' @ r) = None"
proof -
  have nd: "\<not> is_digit CHR '')''" by (simp add: is_digit_def)
  have ns: "\<not> is_space CHR '')''" by (simp add: is_space_def)
  have "dropWhile is_digit (ds @ '')'' @ r) = '')'' @ r"
    using assms nd by (simp add: dropWhile_digits_append)
  then have "lower (take 4 (dropWhile is_space (dropWhile is_digit (ds @ '')'' @ r))))
      = lower ('')'' @ take 3 r)"
    using ns by (simp add: numeral_eq_Suc)
  also have "\<dots> \<noteq> ''mark''" by (simp add: lower_def lower_char_def is_upper_def)
  finally show ?thesis by (simp add: marks_word_match_at_def Let_def)
qed

lemma re_search_marks_word_digits:
  "list_all is_digit ds \<Longrightarrow> list_all (\<lambda>c. \<not> is_digit c) r \<Longrightarrow>
   re_search marks_word_match_at (ds @ '')'' @ r) = None"
proof (induction ds)
  case Nil
  have "list_all (\<lambda>c. \<not> is_digit c) ('')'' @ r)" using Nil by (simp add: is_digit_def)
  then have "re_search marks_word_match_at ('')'' @ r) = None"
    by (rule re_search_None [where Q = "\<lambda>c. \<not> is_digit c", rotated]) (rule no_digit_marks_word)
  then show ?case by simp
next
  case (Cons d ds)
  have "marks_word_match_at ((d # ds) @ '')'' @ r) = None"
    using Cons.prems(1) by (rule marks_word_digits_paren)
  with Cons show ?case by simp
qed

lemma paren_number_no_digit:
  "\<not> is_digit (hd (s @ [c])) \<Longrightarrow> paren_number_match_at (x # s @ c # r) = None"
  by (cases s) (simp_all add: paren_number_match_at_def)

lemma re_search_paren_number_skip:
  "list_all (\<lambda>c. \<not> is_digit c) pre \<Longrightarrow> \<not> is_digit c \<Longrightarrow>
   re_search paren_number_match_at (pre @ c # r) = re_search paren_number_match_at (c # r)"
proof (induction pre)
  case Nil
  then show ?case by simp
next
  case (Cons x pre)
  then have "\<not> is_digit (hd (pre @ [c]))" by (cases pre) simp_all
  then have "paren_number_match_at (x # pre @ c # r) = None" by (rule paren_number_no_digit)
  with Cons show ?case by simp
qed

lemma hierarchical_extract_marks_parentheses:
  assumes "ds \<noteq> []" "list_all is_digit ds"
    and pre: "list_all (\<lambda>c. \<not> is_digit c) pre" and r: "list_all (\<lambda>c. \<not> is_digit c) r"
  shows "hierarchical_extract_marks (pre @ ''('' @ ds @ '')'' @ r) = nat_of_digits ds"
proof -
  have np: "\<not> is_digit CHR ''(''" by (simp add: is_digit_def)
  have "re_search marks_word_match_at (pre @ ''('' @ ds @ '')'' @ r)
      = re_search marks_word_match_at (''('' @ ds @ '')'' @ r)"
    using re_search_marks_word_skip [OF pre, of "CHR ''(''" "ds @ '')'' @ r"] by simp
  also have "\<dots> = re_search marks_word_match_at (ds @ '')'' @ r)"
    using np by (simp add: marks_word_no_digit)
  also have "\<dots> = None" using assms(2) r by (rule re_search_marks_word_digits)
  finally have w: "re_search marks_word_match_at (pre @ ''('' @ ds @ '')'' @ r) = None" .
  have "re_search paren_number_match_at (pre @ ''('' @ ds @ '')'' @ r)
      = re_search paren_number_match_at (''('' @ ds @ '')'' @ r)"
    using re_search_paren_number_skip [OF pre np, of "ds @ '')'' @ r"] by simp
  also have "\<dots> = Some (nat_of_digits ds)"
    using paren_number_match_at_found [OF assms(1,2), of r] by simp
  finally show ?thesis using w by (simp add: hierarchical_extract_marks_def)
qed

subsection \<open>Where the marks are looked for\<close>

text \<open>
  C3 (as the code has it). The marks hint of advanced\_pdf\_extractor\_v2 is anchored at
  the end of the line: whenever a number is extracted, the line ends in a marks
  annotation (a context of white space or \<open>mark\<close>/\<open>marks\<close>, the digits, optionally in
  square brackets, then only white space), and the number is the value of those digits;
  a line whose last visible character is neither a digit nor a closing square bracket
  yields no marks. So a line that ends in a parenthesised expression, as \<open>y = (x+2)\<close>
  does, yields unknown. \<open>_extract_marks\<close> of hierarchical\_extractor is not anchored: in
  a text without other digits a number in parentheses is returned as the marks wherever
  it stands, whatever comes before the parenthesis, and for \<open>y = (x+2)\<close> the result is
  the default 1.
\<close>

theorem extract_marks_anchored:
  "(extract_marks line = Some n \<longrightarrow> marks_annotation line n) \<and>
   (last_visible line = Some c \<and> \<not> is_digit c \<and> c \<noteq> CHR '']'' \<longrightarrow> extract_marks line = None) \<and>
   extract_marks (line @ '')'') = None \<and>
   extract_marks ''y = (x+2)'' = None \<and>
   (ds \<noteq> [] \<and> list_all is_digit ds \<and> list_all (\<lambda>c. \<not> is_digit c) pre \<and>
    list_all (\<lambda>c. \<not> is_digit c) r \<longrightarrow>
      hierarchical_extract_marks (pre @ ''('' @ ds @ '')'' @ r) = nat_of_digits ds) \<and>
   hierarchical_extract_marks ''y = (x+2)'' = 1"
proof -
  have a: "extract_marks t = Some m \<longrightarrow> marks_annotation t m" for t m
    using extract_marks_annotation by blast
  have b: "last_visible t = Some d \<and> \<not> is_digit d \<and> d \<noteq> CHR '']'' \<longrightarrow> extract_marks t = None"
    for t d
  proof (cases "extract_marks t")
    case None
    then show ?thesis by simp
  next
    case (Some m)
    then have "marks_annotation t m" by (rule extract_marks_annotation)
    from last_visible_annotation [OF this] obtain x where
      "last_visible t = Some x" "is_digit x \<or> x = CHR '']''" by blast
    then show ?thesis by auto
  qed
  have v: "last_visible (t @ '')'') = Some CHR '')''" for t
    by (simp add: last_visible_def is_space_def)
  have d: "\<not> is_digit CHR '')''" by (simp add: is_digit_def)
  have c: "extract_marks (t @ '')'') = None" for t
    using b [of "t @ '')''" "CHR '')''"] v [of t] d by simp
  have e: "extract_marks ''y = (x+2)'' = None"
    using c [of "''y = (x+2''"] by simp
  have f: "ds \<noteq> [] \<and> list_all is_digit ds \<and> list_all (\<lambda>c. \<not> is_digit c) pre \<and>
    list_all (\<lambda>c. \<not> is_digit c) r \<longrightarrow>
      hierarchical_extract_marks (pre @ ''('' @ ds @ '')'' @ r) = nat_of_digits ds"
    using hierarchical_extract_marks_parentheses [of ds pre r] by blast
  have g: "hierarchical_extract_marks ''y = (x+2)'' = 1" by code_simp
  from a b c e f g show ?thesis by blast
qed

text \<open>
  The theorem at three texts: an annotation at the end of the line, a line that ends
  in \<open>f(2)\<close>, and the same parenthesis in the middle of a text for the other function.
\<close>

theorem extract_marks_anchored_witness:
  "extract_marks ''Find the value of x. [3]'' = Some 3 \<and>
   marks_annotation ''Find the value of x. [3]'' 3 \<and>
   last_visible ''f(2)'' = Some CHR '')'' \<and> extract_marks ''f(2)'' = None \<and>
   hierarchical_extract_marks ''Evaluate f(2) exactly.'' = 2"
proof -
  have e: "extract_marks ''Find the value of x. [3]'' = Some 3" by code_simp
  have l: "last_visible ''f(2)'' = Some CHR '')''" by code_simp
  have d: "\<not> is_digit CHR '')''" by (simp add: is_digit_def)
  have h: "''2'' \<noteq> [] \<and> list_all is_digit ''2'' \<and> list_all (\<lambda>c. \<not> is_digit c) ''Evaluate f'' \<and>
      list_all (\<lambda>c. \<not> is_digit c) '' exactly.''" by code_simp
  have n: "nat_of_digits ''2'' = 2" by code_simp
  have x: "hierarchical_extract_marks ''Evaluate f(2) exactly.'' = 2"
    using extract_marks_anchored [where ds = "''2''" and pre = "''Evaluate f''" and r = "'' exactly.''"]
      h n by simp
  show ?thesis
    using extract_marks_anchored [where line = "''Find the value of x. [3]''" and n = 3]
      extract_marks_anchored [where line = "''f(2)''" and c = "CHR '')''"] e l d x by simp
qed

text \<open>
  C3 as the specification states it fails for \<open>_extract_marks\<close> of
  hierarchical\_extractor: a parenthesised integer that belongs to a mathematical
  expression is taken as the marks, at the end of the text and in the middle of it.
\<close>

theorem extract_marks_unanchored_counterexample:
  "hierarchical_extract_marks ''Evaluate f(2)'' = 2 \<and>
   hierarchical_extract_marks ''The point P(3) lies on the line y = x.'' = 3"
  by code_simp

lemma extract_marks_examples:
  "extract_marks ''Total marks: 5'' = Some 5"
  "extract_marks ''Evaluate 2 marks'' = None"
  "extract_marks ''y = x + 2'' = Some 2"
  "extract_marks [CHR ''x'', CHR '' '', CHR ''5'', CHR 0xA0] = Some 5"
  "hierarchical_extract_marks ''Evaluate 2 marks'' = 2"
  "hierarchical_extract_marks ''In 1990 markets rose. Explain why.'' = 1990"
  by code_simp+

subsection \<open>The minimum-length cutoffs of final\_extractor\_fixed\<close>

lemma questions_of_matches_append:
  "questions_of_matches h (xs @ ys) = questions_of_matches h xs @ questions_of_matches h ys"
  by (simp add: questions_of_matches_def)

lemma question_of_match_short:
  "length (strip (snd m)) < 10 \<Longrightarrow> question_of_match h m = []"
  by (simp add: question_of_match_def Let_def)

lemma extract_question_parts_numbers:
  "extract_question_parts h num qt = Some ps \<Longrightarrow>
   map question_number ps
     = map (\<lambda>(l, t). num @ ''.('' @ [l] @ '')'')
         (filter (\<lambda>(l, t). 5 \<le> length (clean_question_text h t)) (find_parts qt))"
proof -
  have *: "map question_number (concat (map (\<lambda>(part_letter, part_text).
                 let part_text = clean_question_text h part_text
                 in if length part_text < 5 then []
                    else [question_object h (num @ ''.('' @ [part_letter] @ '')'') part_text])
               xs))
     = map (\<lambda>(l, t). num @ ''.('' @ [l] @ '')'')
         (filter (\<lambda>(l, t). 5 \<le> length (clean_question_text h t)) xs)" for xs
    by (induction xs) (auto simp: Let_def question_object_def)
  assume "extract_question_parts h num qt = Some ps"
  then have "ps = concat (map (\<lambda>(part_letter, part_text).
                 let part_text = clean_question_text h part_text
                 in if length part_text < 5 then []
                    else [question_object h (num @ ''.('' @ [part_letter] @ '')'') part_text])
               (find_parts qt))"
    by (simp add: extract_question_parts_def Let_def split: if_splits)
  with * [of "find_parts qt"] show ?thesis by simp
qed

lemma extract_question_parts_long:
  "extract_question_parts h num qt = Some ps \<Longrightarrow> list_all (\<lambda>q. 5 \<le> length (ff_text q)) ps"
proof -
  have *: "list_all (\<lambda>q. 5 \<le> length (ff_text q)) (concat (map (\<lambda>(part_letter, part_text).
                 let part_text = clean_question_text h part_text
                 in if length part_text < 5 then []
                    else [question_object h (num @ ''.('' @ [part_letter] @ '')'') part_text])
               xs))" for xs
    by (induction xs) (auto simp: Let_def question_object_def)
  assume "extract_question_parts h num qt = Some ps"
  then have "ps = concat (map (\<lambda>(part_letter, part_text).
                 let part_text = clean_question_text h part_text
                 in if length part_text < 5 then []
                    else [question_object h (num @ ''.('' @ [part_letter] @ '')'') part_text])
               (find_parts qt))"
    by (simp add: extract_question_parts_def Let_def split: if_splits)
  with * [of "find_parts qt"] show ?thesis by simp
qed

text \<open>
  C10. A detected main question whose text, stripped, has fewer than 10 characters
  leaves no trace in the result of the extraction loop (the result is the one for the
  list of matches without it); a detected part whose cleaned text has fewer than 5
  characters yields no question object: the objects made are, in order, those of the
  parts with at least 5 characters, and each has a text of at least 5 characters. The
  loops return nothing but these lists, so nothing records the omission; and the filter
  drops non-empty texts too.
\<close>

theorem short_texts_are_omitted:
  "(length (strip (snd m)) < 10 \<longrightarrow>
      questions_of_matches h (ms1 @ m # ms2) = questions_of_matches h (ms1 @ ms2)) \<and>
   (extract_question_parts h num qt = Some ps \<longrightarrow>
      map question_number ps
        = map (\<lambda>(l, t). num @ ''.('' @ [l] @ '')'')
            (filter (\<lambda>(l, t). \<not> length (clean_question_text h t) < 5) (find_parts qt)) \<and>
      list_all (\<lambda>q. \<not> length (ff_text q) < 5) ps) \<and>
   question_of_match h (''4'', ''Find x.'') = []"
proof -
  have a: "length (strip (snd m)) < 10 \<longrightarrow>
      questions_of_matches h (ms1 @ m # ms2) = questions_of_matches h (ms1 @ ms2)"
    using questions_of_matches_append [of h ms1 "m # ms2"] questions_of_matches_append [of h ms1 ms2]
    by (simp add: questions_of_matches_def question_of_match_short)
  have b: "extract_question_parts h num qt = Some ps \<longrightarrow>
      map question_number ps
        = map (\<lambda>(l, t). num @ ''.('' @ [l] @ '')'')
            (filter (\<lambda>(l, t). \<not> length (clean_question_text h t) < 5) (find_parts qt)) \<and>
      list_all (\<lambda>q. \<not> length (ff_text q) < 5) ps"
    using extract_question_parts_numbers [of h num qt ps] extract_question_parts_long [of h num qt ps]
    by (simp add: not_less)
  have "strip ''Find x.'' = ''Find x.''" by code_simp
  then have c: "question_of_match h (''4'', ''Find x.'') = []"
    by (simp add: question_of_match_short)
  from a b c show ?thesis by blast
qed

text \<open>
  The theorem for a helper record whose cleaning is \<open>strip\<close>: the match \<open>4. Find x.\<close>
  between two longer ones leaves no trace.
\<close>

theorem short_texts_are_omitted_witness:
  "length (strip (snd (''4'', ''Find x.''))) < 10 \<and>
   questions_of_matches
     \<lparr>clean_question_text = strip, extract_metadata = (\<lambda>t. Map.empty),
      determine_topic = (\<lambda>t. ''other'')\<rparr>
     ([(''3'', ''Solve the equation 2x = 6.'')] @ (''4'', ''Find x.'') #
      [(''5'', ''Expand (x + 1)(x + 2).'')])
   = questions_of_matches
     \<lparr>clean_question_text = strip, extract_metadata = (\<lambda>t. Map.empty),
      determine_topic = (\<lambda>t. ''other'')\<rparr>
     ([(''3'', ''Solve the equation 2x = 6.'')] @ [(''5'', ''Expand (x + 1)(x + 2).'')])"
proof -
  have "length (strip (snd (''4'', ''Find x.''))) < 10" by code_simp
  then show ?thesis
    using short_texts_are_omitted
      [of "(''4'', ''Find x.'')"
          "\<lparr>clean_question_text = strip, extract_metadata = (\<lambda>t. Map.empty),
            determine_topic = (\<lambda>t. ''other'')\<rparr>"
          "[(''3'', ''Solve the equation 2x = 6.'')]" "[(''5'', ''Expand (x + 1)(x + 2).'')]"]
    by blast
qed

lemma find_parts_example:
  "find_parts ''A line is drawn. (a) Find its gradient. (b) State the intercept.''
     = [(CHR ''a'', '' Find its gradient. ''), (CHR ''b'', '' State the intercept.'')]"
  "find_parts ''(a) Find f(3). (b) Solve f(x) = 8.''
     = [(CHR ''a'', '' Find f(3). ''), (CHR ''b'', '' Solve f''), (CHR ''x'', '' = 8.'')]"
  by code_simp+

lemma handle_multi_page_questions_drops:
  "handle_multi_page_questions
     [question_object h ''7.'' ''Find the area'',
      question_object h ''7.'' ''(continued) of the shape.''] = []"
proof -
  have "contains ''continued'' (lower ''(continued) of the shape.'')" by code_simp
  then show ?thesis by (simp add: question_object_def Let_def)
qed

subsection \<open>Missing marks\<close>

text \<open>
  C2 (as the code has it). \<open>_extract_marks\<close> of hierarchical\_extractor never answers
  unknown. Its result is a number that stands before \<open>mark\<close> in the text, or a number
  that stands in parentheses, or the default 1; so for every text in which neither
  occurs, and in particular for every text without a digit, the marks are 1.
\<close>

theorem missing_marks_default_to_one:
  "(number_before_mark txt (hierarchical_extract_marks txt) \<or>
    number_in_parentheses txt (hierarchical_extract_marks txt) \<or>
    hierarchical_extract_marks txt = 1) \<and>
   ((\<forall>n. \<not> number_before_mark txt n) \<and> (\<forall>n. \<not> number_in_parentheses txt n) \<longrightarrow>
      hierarchical_extract_marks txt = 1) \<and>
   (list_all (\<lambda>c. \<not> is_digit c) txt \<longrightarrow> hierarchical_extract_marks txt = 1)"
  using hierarchical_extract_marks_cases [of "txt"] no_digit_hierarchical_extract_marks [of "txt"]
  by blast

text \<open>
  The theorem at a text that has digits, but neither before \<open>mark\<close> nor in parentheses.
\<close>

theorem missing_marks_default_to_one_witness:
  "(\<forall>n. \<not> number_before_mark ''Solve 2x = 6.'' n) \<and>
   (\<forall>n. \<not> number_in_parentheses ''Solve 2x = 6.'' n) \<and>
   hierarchical_extract_marks ''Solve 2x = 6.'' = 1"
proof -
  have "re_search marks_word_match_at ''Solve 2x = 6.'' = None" by code_simp
  then have a: "\<forall>n. \<not> number_before_mark ''Solve 2x = 6.'' n"
    using number_before_mark_found by blast
  have "re_search paren_number_match_at ''Solve 2x = 6.'' = None" by code_simp
  then have b: "\<forall>n. \<not> number_in_parentheses ''Solve 2x = 6.'' n"
    using number_in_parentheses_found by blast
  from a b show ?thesis
    using missing_marks_default_to_one [of "''Solve 2x = 6.''"] by blast
qed

text \<open>
  C2 as the specification states it fails: for a text without any digit, hence without
  any marks annotation, the marks are not unknown, the guessed default 1 is emitted.
\<close>

theorem missing_marks_counterexample:
  "list_all (\<lambda>c. \<not> is_digit c) ''Show that the triangle is right-angled.'' \<and>
   hierarchical_extract_marks ''Show that the triangle is right-angled.'' = 1"
  by code_simp

text \<open>
  The question objects of final\_extractor\_fixed take \<open>metadata.get('marks', 1)\<close>: what
  \<open>_extract_metadata\<close> stored under \<open>marks\<close>, and 1 when it stored nothing.
\<close>

lemma question_object_marks:
  "ff_marks (question_object h number txt)
     = (case extract_metadata h txt ''marks'' of Some v \<Rightarrow> v | None \<Rightarrow> PyInt 1)"
  by (simp add: question_object_def dict_get_def Let_def)

subsection \<open>The character classes, tabulated\<close>

text \<open>
  Evaluating the assembler on a concrete line compares characters thousands of times;
  the tables give each class on each of the 256 code points in one rewriting step.
\<close>

lemma lower_char_table [code]:
  "lower_char (CHR 0x00) = CHR 0x00"
  "lower_char (CHR 0x01) = CHR 0x01"
  "lower_char (CHR 0x02) = CHR 0x02"
  "lower_char (CHR 0x03) = CHR 0x03"
  "lower_char (CHR 0x04) = CHR 0x04"
  "lower_char (CHR 0x05) = CHR 0x05"
  "lower_char (CHR 0x06) = CHR 0x06"
  "lower_char (CHR 0x07) = CHR 0x07"
  "lower_char (CHR 0x08) = CHR 0x08"
  "lower_char (CHR 0x09) = CHR 0x09"
  "lower_char (CHR 0x0A) = CHR 0x0A"
  "lower_char (CHR 0x0B) = CHR 0x0B"
  "lower_char (CHR 0x0C) = CHR 0x0C"
  "lower_char (CHR 0x0D) = CHR 0x0D"
  "lower_char (CHR 0x0E) = CHR 0x0E"
  "lower_char (CHR 0x0F) = CHR 0x0F"
  "lower_char (CHR 0x10) = CHR 0x10"
  "lower_char (CHR 0x11) = CHR 0x11"
  "lower_char (CHR 0x12) = CHR 0x12"
  "lower_char (CHR 0x13) = CHR 0x13"
  "lower_char (CHR 0x14) = CHR 0x14"
  "lower_char (CHR 0x15) = CHR 0x15"
  "lower_char (CHR 0x16) = CHR 0x16"
  "lower_char (CHR 0x17) = CHR 0x17"
  "lower_char (CHR 0x18) = CHR 0x18"
  "lower_char (CHR 0x19) = CHR 0x19"
  "lower_char (CHR 0x1A) = CHR 0x1A"
  "lower_char (CHR 0x1B) = CHR 0x1B"
  "lower_char (CHR 0x1C) = CHR 0x1C"
  "lower_char (CHR 0x1D) = CHR 0x1D"
  "lower_char (CHR 0x1E) = CHR 0x1E"
  "lower_char (CHR 0x1F) = CHR 0x1F"
  "lower_char (CHR 0x20) = CHR 0x20"
  "lower_char (CHR 0x21) = CHR 0x21"
  "lower_char (CHR 0x22) = CHR 0x22"
  "lower_char (CHR 0x23) = CHR 0x23"
  "lower_char (CHR 0x24) = CHR 0x24"
  "lower_char (CHR 0x25) = CHR 0x25"
  "lower_char (CHR 0x26) = CHR 0x26"
  "lower_char (CHR 0x27) = CHR 0x27"
  "lower_char (CHR 0x28) = CHR 0x28"
  "lower_char (CHR 0x29) = CHR 0x29"
  "lower_char (CHR 0x2A) = CHR 0x2A"
  "lower_char (CHR 0x2B) = CHR 0x2B"
  "lower_char (CHR 0x2C) = CHR 0x2C"
  "lower_char (CHR 0x2D) = CHR 0x2D"
  "lower_char (CHR 0x2E) = CHR 0x2E"
  "lower_char (CHR 0x2F) = CHR 0x2F"
  "lower_char (CHR 0x30) = CHR 0x30"
  "lower_char (CHR 0x31) = CHR 0x31"
  "lower_char (CHR 0x32) = CHR 0x32"
  "lower_char (CHR 0x33) = CHR 0x33"
  "lower_char (CHR 0x34) = CHR 0x34"
  "lower_char (CHR 0x35) = CHR 0x35"
  "lower_char (CHR 0x36) = CHR 0x36"
  "lower_char (CHR 0x37) = CHR 0x37"
  "lower_char (CHR 0x38) = CHR 0x38"
  "lower_char (CHR 0x39) = CHR 0x39"
  "lower_char (CHR 0x3A) = CHR 0x3A"
  "lower_char (CHR 0x3B) = CHR 0x3B"
  "lower_char (CHR 0x3C) = CHR 0x3C"
  "lower_char (CHR 0x3D) = CHR 0x3D"
  "lower_char (CHR 0x3E) = CHR 0x3E"
  "lower_char (CHR 0x3F) = CHR 0x3F"
  "lower_char (CHR 0x40) = CHR 0x40"
  "lower_char (CHR 0x41) = CHR 0x61"
  "lower_char (CHR 0x42) = CHR 0x62"
  "lower_char (CHR 0x43) = CHR 0x63"
  "lower_char (CHR 0x44) = CHR 0x64"
  "lower_char (CHR 0x45) = CHR 0x65"
  "lower_char (CHR 0x46) = CHR 0x66"
  "lower_char (CHR 0x47) = CHR 0x67"
  "lower_char (CHR 0x48) = CHR 0x68"
  "lower_char (CHR 0x49) = CHR 0x69"
  "lower_char (CHR 0x4A) = CHR 0x6A"
  "lower_char (CHR 0x4B) = CHR 0x6B"
  "lower_char (CHR 0x4C) = CHR 0x6C"
  "lower_char (CHR 0x4D) = CHR 0x6D"
  "lower_char (CHR 0x4E) = CHR 0x6E"
  "lower_char (CHR 0x4F) = CHR 0x6F"
  "lower_char (CHR 0x50) = CHR 0x70"
  "lower_char (CHR 0x51) = CHR 0x71"
  "lower_char (CHR 0x52) = CHR 0x72"
  "lower_char (CHR 0x53) = CHR 0x73"
  "lower_char (CHR 0x54) = CHR 0x74"
  "lower_char (CHR 0x55) = CHR 0x75"
  "lower_char (CHR 0x56) = CHR 0x76"
  "lower_char (CHR 0x57) = CHR 0x77"
  "lower_char (CHR 0x58) = CHR 0x78"
  "lower_char (CHR 0x59) = CHR 0x79"
  "lower_char (CHR 0x5A) = CHR 0x7A"
  "lower_char (CHR 0x5B) = CHR 0x5B"
  "lower_char (CHR 0x5C) = CHR 0x5C"
  "lower_char (CHR 0x5D) = CHR 0x5D"
  "lower_char (CHR 0x5E) = CHR 0x5E"
  "lower_char (CHR 0x5F) = CHR 0x5F"
  "lower_char (CHR 0x60) = CHR 0x60"
  "lower_char (CHR 0x61) = CHR 0x61"
  "lower_char (CHR 0x62) = CHR 0x62"
  "lower_char (CHR 0x63) = CHR 0x63"
  "lower_char (CHR 0x64) = CHR 0x64"
  "lower_char (CHR 0x65) = CHR 0x65"
  "lower_char (CHR 0x66) = CHR 0x66"
  "lower_char (CHR 0x67) = CHR 0x67"
  "lower_char (CHR 0x68) = CHR 0x68"
  "lower_char (CHR 0x69) = CHR 0x69"
  "lower_char (CHR 0x6A) = CHR 0x6A"
  "lower_char (CHR 0x6B) = CHR 0x6B"
  "lower_char (CHR 0x6C) = CHR 0x6C"
  "lower_char (CHR 0x6D) = CHR 0x6D"
  "lower_char (CHR 0x6E) = CHR 0x6E"
  "lower_char (CHR 0x6F) = CHR 0x6F"
  "lower_char (CHR 0x70) = CHR 0x70"
  "lower_char (CHR 0x71) = CHR 0x71"
  "lower_char (CHR 0x72) = CHR 0x72"
  "lower_char (CHR 0x73) = CHR 0x73"
  "lower_char (CHR 0x74) = CHR 0x74"
  "lower_char (CHR 0x75) = CHR 0x75"
  "lower_char (CHR 0x76) = CHR 0x76"
  "lower_char (CHR 0x77) = CHR 0x77"
  "lower_char (CHR 0x78) = CHR 0x78"
  "lower_char (CHR 0x79) = CHR 0x79"
  "lower_char (CHR 0x7A) = CHR 0x7A"
  "lower_char (CHR 0x7B) = CHR 0x7B"
  "lower_char (CHR 0x7C) = CHR 0x7C"
  "lower_char (CHR 0x7D) = CHR 0x7D"
  "lower_char (CHR 0x7E) = CHR 0x7E"
  "lower_char (CHR 0x7F) = CHR 0x7F"
  "lower_char (CHR 0x80) = CHR 0x80"
  "lower_char (CHR 0x81) = CHR 0x81"
  "lower_char (CHR 0x82) = CHR 0x82"
  "lower_char (CHR 0x83) = CHR 0x83"
  "lower_char (CHR 0x84) = CHR 0x84"
  "lower_char (CHR 0x85) = CHR 0x85"
  "lower_char (CHR 0x86) = CHR 0x86"
  "lower_char (CHR 0x87) = CHR 0x87"
  "lower_char (CHR 0x88) = CHR 0x88"
  "lower_char (CHR 0x89) = CHR 0x89"
  "lower_char (CHR 0x8A) = CHR 0x8A"
  "lower_char (CHR 0x8B) = CHR 0x8B"
  "lower_char (CHR 0x8C) = CHR 0x8C"
  "lower_char (CHR 0x8D) = CHR 0x8D"
  "lower_char (CHR 0x8E) = CHR 0x8E"
  "lower_char (CHR 0x8F) = CHR 0x8F"
  "lower_char (CHR 0x90) = CHR 0x90"
  "lower_char (CHR 0x91) = CHR 0x91"
  "lower_char (CHR 0x92) = CHR 0x92"
  "lower_char (CHR 0x93) = CHR 0x93"
  "lower_char (CHR 0x94) = CHR 0x94"
  "lower_char (CHR 0x95) = CHR 0x95"
  "lower_char (CHR 0x96) = CHR 0x96"
  "lower_char (CHR 0x97) = CHR 0x97"
  "lower_char (CHR 0x98) = CHR 0x98"
  "lower_char (CHR 0x99) = CHR 0x99"
  "lower_char (CHR 0x9A) = CHR 0x9A"
  "lower_char (CHR 0x9B) = CHR 0x9B"
  "lower_char (CHR 0x9C) = CHR 0x9C"
  "lower_char (CHR 0x9D) = CHR 0x9D"
  "lower_char (CHR 0x9E) = CHR 0x9E"
  "lower_char (CHR 0x9F) = CHR 0x9F"
  "lower_char (CHR 0xA0) = CHR 0xA0"
  "lower_char (CHR 0xA1) = CHR 0xA1"
  "lower_char (CHR 0xA2) = CHR 0xA2"
  "lower_char (CHR 0xA3) = CHR 0xA3"
  "lower_char (CHR 0xA4) = CHR 0xA4"
  "lower_char (CHR 0xA5) = CHR 0xA5"
  "lower_char (CHR 0xA6) = CHR 0xA6"
  "lower_char (CHR 0xA7) = CHR 0xA7"
  "lower_char (CHR 0xA8) = CHR 0xA8"
  "lower_char (CHR 0xA9) = CHR 0xA9"
  "lower_char (CHR 0xAA) = CHR 0xAA"
  "lower_char (CHR 0xAB) = CHR 0xAB"
  "lower_char (CHR 0xAC) = CHR 0xAC"
  "lower_char (CHR 0xAD) = CHR 0xAD"
  "lower_char (CHR 0xAE) = CHR 0xAE"
  "lower_char (CHR 0xAF) = CHR 0xAF"
  "lower_char (CHR 0xB0) = CHR 0xB0"
  "lower_char (CHR 0xB1) = CHR 0xB1"
  "lower_char (CHR 0xB2) = CHR 0xB2"
  "lower_char (CHR 0xB3) = CHR 0xB3"
  "lower_char (CHR 0xB4) = CHR 0xB4"
  "lower_char (CHR 0xB5) = CHR 0xB5"
  "lower_char (CHR 0xB6) = CHR 0xB6"
  "lower_char (CHR 0xB7) = CHR 0xB7"
  "lower_char (CHR 0xB8) = CHR 0xB8"
  "lower_char (CHR 0xB9) = CHR 0xB9"
  "lower_char (CHR 0xBA) = CHR 0xBA"
  "lower_char (CHR 0xBB) = CHR 0xBB"
  "lower_char (CHR 0xBC) = CHR 0xBC"
  "lower_char (CHR 0xBD) = CHR 0xBD"
  "lower_char (CHR 0xBE) = CHR 0xBE"
  "lower_char (CHR 0xBF) = CHR 0xBF"
  "lower_char (CHR 0xC0) = CHR 0xE0"
  "lower_char (CHR 0xC1) = CHR 0xE1"
  "lower_char (CHR 0xC2) = CHR 0xE2"
  "lower_char (CHR 0xC3) = CHR 0xE3"
  "lower_char (CHR 0xC4) = CHR 0xE4"
  "lower_char (CHR 0xC5) = CHR 0xE5"
  "lower_char (CHR 0xC6) = CHR 0xE6"
  "lower_char (CHR 0xC7) = CHR 0xE7"
  "lower_char (CHR 0xC8) = CHR 0xE8"
  "lower_char (CHR 0xC9) = CHR 0xE9"
  "lower_char (CHR 0xCA) = CHR 0xEA"
  "lower_char (CHR 0xCB) = CHR 0xEB"
  "lower_char (CHR 0xCC) = CHR 0xEC"
  "lower_char (CHR 0xCD) = CHR 0xED"
  "lower_char (CHR 0xCE) = CHR 0xEE"
  "lower_char (CHR 0xCF) = CHR 0xEF"
  "lower_char (CHR 0xD0) = CHR 0xF0"
  "lower_char (CHR 0xD1) = CHR 0xF1"
  "lower_char (CHR 0xD2) = CHR 0xF2"
  "lower_char (CHR 0xD3) = CHR 0xF3"
  "lower_char (CHR 0xD4) = CHR 0xF4"
  "lower_char (CHR 0xD5) = CHR 0xF5"
  "lower_char (CHR 0xD6) = CHR 0xF6"
  "lower_char (CHR 0xD7) = CHR 0xD7"
  "lower_char (CHR 0xD8) = CHR 0xF8"
  "lower_char (CHR 0xD9) = CHR 0xF9"
  "lower_char (CHR 0xDA) = CHR 0xFA"
  "lower_char (CHR 0xDB) = CHR 0xFB"
  "lower_char (CHR 0xDC) = CHR 0xFC"
  "lower_char (CHR 0xDD) = CHR 0xFD"
  "lower_char (CHR 0xDE) = CHR 0xFE"
  "lower_char (CHR 0xDF) = CHR 0xDF"
  "lower_char (CHR 0xE0) = CHR 0xE0"
  "lower_char (CHR 0xE1) = CHR 0xE1"
  "lower_char (CHR 0xE2) = CHR 0xE2"
  "lower_char (CHR 0xE3) = CHR 0xE3"
  "lower_char (CHR 0xE4) = CHR 0xE4"
  "lower_char (CHR 0xE5) = CHR 0xE5"
  "lower_char (CHR 0xE6) = CHR 0xE6"
  "lower_char (CHR 0xE7) = CHR 0xE7"
  "lower_char (CHR 0xE8) = CHR 0xE8"
  "lower_char (CHR 0xE9) = CHR 0xE9"
  "lower_char (CHR 0xEA) = CHR 0xEA"
  "lower_char (CHR 0xEB) = CHR 0xEB"
  "lower_char (CHR 0xEC) = CHR 0xEC"
  "lower_char (CHR 0xED) = CHR 0xED"
  "lower_char (CHR 0xEE) = CHR 0xEE"
  "lower_char (CHR 0xEF) = CHR 0xEF"
  "lower_char (CHR 0xF0) = CHR 0xF0"
  "lower_char (CHR 0xF1) = CHR 0xF1"
  "lower_char (CHR 0xF2) = CHR 0xF2"
  "lower_char (CHR 0xF3) = CHR 0xF3"
  "lower_char (CHR 0xF4) = CHR 0xF4"
  "lower_char (CHR 0xF5) = CHR 0xF5"
  "lower_char (CHR 0xF6) = CHR 0xF6"
  "lower_char (CHR 0xF7) = CHR 0xF7"
  "lower_char (CHR 0xF8) = CHR 0xF8"
  "lower_char (CHR 0xF9) = CHR 0xF9"
  "lower_char (CHR 0xFA) = CHR 0xFA"
  "lower_char (CHR 0xFB) = CHR 0xFB"
  "lower_char (CHR 0xFC) = CHR 0xFC"
  "lower_char (CHR 0xFD) = CHR 0xFD"
  "lower_char (CHR 0xFE) = CHR 0xFE"
  "lower_char (CHR 0xFF) = CHR 0xFF"
  by code_simp+

lemma is_space_table [code]:
  "is_space (CHR 0x00) = False"
  "is_space (CHR 0x01) = False"
  "is_space (CHR 0x02) = False"
  "is_space (CHR 0x03) = False"
  "is_space (CHR 0x04) = False"
  "is_space (CHR 0x05) = False"
  "is_space (CHR 0x06) = False"
  "is_space (CHR 0x07) = False"
  "is_space (CHR 0x08) = False"
  "is_space (CHR 0x09) = True"
  "is_space (CHR 0x0A) = True"
  "is_space (CHR 0x0B) = True"
  "is_space (CHR 0x0C) = True"
  "is_space (CHR 0x0D) = True"
  "is_space (CHR 0x0E) = False"
  "is_space (CHR 0x0F) = False"
  "is_space (CHR 0x10) = False"
  "is_space (CHR 0x11) = False"
  "is_space (CHR 0x12) = False"
  "is_space (CHR 0x13) = False"
  "is_space (CHR 0x14) = False"
  "is_space (CHR 0x15) = False"
  "is_space (CHR 0x16) = False"
  "is_space (CHR 0x17) = False"
  "is_space (CHR 0x18) = False"
  "is_space (CHR 0x19) = False"
  "is_space (CHR 0x1A) = False"
  "is_space (CHR 0x1B) = False"
  "is_space (CHR 0x1C) = True"
  "is_space (CHR 0x1D) = True"
  "is_space (CHR 0x1E) = True"
  "is_space (CHR 0x1F) = True"
  "is_space (CHR 0x20) = True"
  "is_space (CHR 0x21) = False"
  "is_space (CHR 0x22) = False"
  "is_space (CHR 0x23) = False"
  "is_space (CHR 0x24) = False"
  "is_space (CHR 0x25) = False"
  "is_space (CHR 0x26) = False"
  "is_space (CHR 0x27) = False"
  "is_space (CHR 0x28) = False"
  "is_space (CHR 0x29) = False"
  "is_space (CHR 0x2A) = False"
  "is_space (CHR 0x2B) = False"
  "is_space (CHR 0x2C) = False"
  "is_space (CHR 0x2D) = False"
  "is_space (CHR 0x2E) = False"
  "is_space (CHR 0x2F) = False"
  "is_space (CHR 0x30) = False"
  "is_space (CHR 0x31) = False"
  "is_space (CHR 0x32) = False"
  "is_space (CHR 0x33) = False"
  "is_space (CHR 0x34) = False"
  "is_space (CHR 0x35) = False"
  "is_space (CHR 0x36) = False"
  "is_space (CHR 0x37) = False"
  "is_space (CHR 0x38) = False"
  "is_space (CHR 0x39) = False"
  "is_space (CHR 0x3A) = False"
  "is_space (CHR 0x3B) = False"
  "is_space (CHR 0x3C) = False"
  "is_space (CHR 0x3D) = False"
  "is_space (CHR 0x3E) = False"
  "is_space (CHR 0x3F) = False"
  "is_space (CHR 0x40) = False"
  "is_space (CHR 0x41) = False"
  "is_space (CHR 0x42) = False"
  "is_space (CHR 0x43) = False"
  "is_space (CHR 0x44) = False"
  "is_space (CHR 0x45) = False"
  "is_space (CHR 0x46) = False"
  "is_space (CHR 0x47) = False"
  "is_space (CHR 0x48) = False"
  "is_space (CHR 0x49) = False"
  "is_space (CHR 0x4A) = False"
  "is_space (CHR 0x4B) = False"
  "is_space (CHR 0x4C) = False"
  "is_space (CHR 0x4D) = False"
  "is_space (CHR 0x4E) = False"
  "is_space (CHR 0x4F) = False"
  "is_space (CHR 0x50) = False"
  "is_space (CHR 0x51) = False"
  "is_space (CHR 0x52) = False"
  "is_space (CHR 0x53) = False"
  "is_space (CHR 0x54) = False"
  "is_space (CHR 0x55) = False"
  "is_space (CHR 0x56) = False"
  "is_space (CHR 0x57) = False"
  "is_space (CHR 0x58) = False"
  "is_space (CHR 0x59) = False"
  "is_space (CHR 0x5A) = False"
  "is_space (CHR 0x5B) = False"
  "is_space (CHR 0x5C) = False"
  "is_space (CHR 0x5D) = False"
  "is_space (CHR 0x5E) = False"
  "is_space (CHR 0x5F) = False"
  "is_space (CHR 0x60) = False"
  "is_space (CHR 0x61) = False"
  "is_space (CHR 0x62) = False"
  "is_space (CHR 0x63) = False"
  "is_space (CHR 0x64) = False"
  "is_space (CHR 0x65) = False"
  "is_space (CHR 0x66) = False"
  "is_space (CHR 0x67) = False"
  "is_space (CHR 0x68) = False"
  "is_space (CHR 0x69) = False"
  "is_space (CHR 0x6A) = False"
  "is_space (CHR 0x6B) = False"
  "is_space (CHR 0x6C) = False"
  "is_space (CHR 0x6D) = False"
  "is_space (CHR 0x6E) = False"
  "is_space (CHR 0x6F) = False"
  "is_space (CHR 0x70) = False"
  "is_space (CHR 0x71) = False"
  "is_space (CHR 0x72) = False"
  "is_space (CHR 0x73) = False"
  "is_space (CHR 0x74) = False"
  "is_space (CHR 0x75) = False"
  "is_space (CHR 0x76) = False"
  "is_space (CHR 0x77) = False"
  "is_space (CHR 0x78) = False"
  "is_space (CHR 0x79) = False"
  "is_space (CHR 0x7A) = False"
  "is_space (CHR 0x7B) = False"
  "is_space (CHR 0x7C) = False"
  "is_space (CHR 0x7D) = False"
  "is_space (CHR 0x7E) = False"
  "is_space (CHR 0x7F) = False"
  "is_space (CHR 0x80) = False"
  "is_space (CHR 0x81) = False"
  "is_space (CHR 0x82) = False"
  "is_space (CHR 0x83) = False"
  "is_space (CHR 0x84) = False"
  "is_space (CHR 0x85) = True"
  "is_space (CHR 0x86) = False"
  "is_space (CHR 0x87) = False"
  "is_space (CHR 0x88) = False"
  "is_space (CHR 0x89) = False"
  "is_space (CHR 0x8A) = False"
  "is_space (CHR 0x8B) = False"
  "is_space (CHR 0x8C) = False"
  "is_space (CHR 0x8D) = False"
  "is_space (CHR 0x8E) = False"
  "is_space (CHR 0x8F) = False"
  "is_space (CHR 0x90) = False"
  "is_space (CHR 0x91) = False"
  "is_space (CHR 0x92) = False"
  "is_space (CHR 0x93) = False"
  "is_space (CHR 0x94) = False"
  "is_space (CHR 0x95) = False"
  "is_space (CHR 0x96) = False"
  "is_space (CHR 0x97) = False"
  "is_space (CHR 0x98) = False"
  "is_space (CHR 0x99) = False"
  "is_space (CHR 0x9A) = False"
  "is_space (CHR 0x9B) = False"
  "is_space (CHR 0x9C) = False"
  "is_space (CHR 0x9D) = False"
  "is_space (CHR 0x9E) = False"
  "is_space (CHR 0x9F) = False"
  "is_space (CHR 0xA0) = True"
  "is_space (CHR 0xA1) = False"
  "is_space (CHR 0xA2) = False"
  "is_space (CHR 0xA3) = False"
  "is_space (CHR 0xA4) = False"
  "is_space (CHR 0xA5) = False"
  "is_space (CHR 0xA6) = False"
  "is_space (CHR 0xA7) = False"
  "is_space (CHR 0xA8) = False"
  "is_space (CHR 0xA9) = False"
  "is_space (CHR 0xAA) = False"
  "is_space (CHR 0xAB) = False"
  "is_space (CHR 0xAC) = False"
  "is_space (CHR 0xAD) = False"
  "is_space (CHR 0xAE) = False"
  "is_space (CHR 0xAF) = False"
  "is_space (CHR 0xB0) = False"
  "is_space (CHR 0xB1) = False"
  "is_space (CHR 0xB2) = False"
  "is_space (CHR 0xB3) = False"
  "is_space (CHR 0xB4) = False"
  "is_space (CHR 0xB5) = False"
  "is_space (CHR 0xB6) = False"
  "is_space (CHR 0xB7) = False"
  "is_space (CHR 0xB8) = False"
  "is_space (CHR 0xB9) = False"
  "is_space (CHR 0xBA) = False"
  "is_space (CHR 0xBB) = False"
  "is_space (CHR 0xBC) = False"
  "is_space (CHR 0xBD) = False"
  "is_space (CHR 0xBE) = False"
  "is_space (CHR 0xBF) = False"
  "is_space (CHR 0xC0) = False"
  "is_space (CHR 0xC1) = False"
  "is_space (CHR 0xC2) = False"
  "is_space (CHR 0xC3) = False"
  "is_space (CHR 0xC4) = False"
  "is_space (CHR 0xC5) = False"
  "is_space (CHR 0xC6) = False"
  "is_space (CHR 0xC7) = False"
  "is_space (CHR 0xC8) = False"
  "is_space (CHR 0xC9) = False"
  "is_space (CHR 0xCA) = False"
  "is_space (CHR 0xCB) = False"
  "is_space (CHR 0xCC) = False"
  "is_space (CHR 0xCD) = False"
  "is_space (CHR 0xCE) = False"
  "is_space (CHR 0xCF) = False"
  "is_space (CHR 0xD0) = False"
  "is_space (CHR 0xD1) = False"
  "is_space (CHR 0xD2) = False"
  "is_space (CHR 0xD3) = False"
  "is_space (CHR 0xD4) = False"
  "is_space (CHR 0xD5) = False"
  "is_space (CHR 0xD6) = False"
  "is_space (CHR 0xD7) = False"
  "is_space (CHR 0xD8) = False"
  "is_space (CHR 0xD9) = False"
  "is_space (CHR 0xDA) = False"
  "is_space (CHR 0xDB) = False"
  "is_space (CHR 0xDC) = False"
  "is_space (CHR 0xDD) = False"
  "is_space (CHR 0xDE) = False"
  "is_space (CHR 0xDF) = False"
  "is_space (CHR 0xE0) = False"
  "is_space (CHR 0xE1) = False"
  "is_space (CHR 0xE2) = False"
  "is_space (CHR 0xE3) = False"
  "is_space (CHR 0xE4) = False"
  "is_space (CHR 0xE5) = False"
  "is_space (CHR 0xE6) = False"
  "is_space (CHR 0xE7) = False"
  "is_space (CHR 0xE8) = False"
  "is_space (CHR 0xE9) = False"
  "is_space (CHR 0xEA) = False"
  "is_space (CHR 0xEB) = False"
  "is_space (CHR 0xEC) = False"
  "is_space (CHR 0xED) = False"
  "is_space (CHR 0xEE) = False"
  "is_space (CHR 0xEF) = False"
  "is_space (CHR 0xF0) = False"
  "is_space (CHR 0xF1) = False"
  "is_space (CHR 0xF2) = False"
  "is_space (CHR 0xF3) = False"
  "is_space (CHR 0xF4) = False"
  "is_space (CHR 0xF5) = False"
  "is_space (CHR 0xF6) = False"
  "is_space (CHR 0xF7) = False"
  "is_space (CHR 0xF8) = False"
  "is_space (CHR 0xF9) = False"
  "is_space (CHR 0xFA) = False"
  "is_space (CHR 0xFB) = False"
  "is_space (CHR 0xFC) = False"
  "is_space (CHR 0xFD) = False"
  "is_space (CHR 0xFE) = False"
  "is_space (CHR 0xFF) = False"
  by (simp_all add: is_space_def)

lemma is_digit_table [code]:
  "is_digit (CHR 0x00) = False"
  "is_digit (CHR 0x01) = False"
  "is_digit (CHR 0x02) = False"
  "is_digit (CHR 0x03) = False"
  "is_digit (CHR 0x04) = False"
  "is_digit (CHR 0x05) = False"
  "is_digit (CHR 0x06) = False"
  "is_digit (CHR 0x07) = False"
  "is_digit (CHR 0x08) = False"
  "is_digit (CHR 0x09) = False"
  "is_digit (CHR 0x0A) = False"
  "is_digit (CHR 0x0B) = False"
  "is_digit (CHR 0x0C) = False"
  "is_digit (CHR 0x0D) = False"
  "is_digit (CHR 0x0E) = False"
  "is_digit (CHR 0x0F) = False"
  "is_digit (CHR 0x10) = False"
  "is_digit (CHR 0x11) = False"
  "is_digit (CHR 0x12) = False"
  "is_digit (CHR 0x13) = False"
  "is_digit (CHR 0x14) = False"
  "is_digit (CHR 0x15) = False"
  "is_digit (CHR 0x16) = False"
  "is_digit (CHR 0x17) = False"
  "is_digit (CHR 0x18) = False"
  "is_digit (CHR 0x19) = False"
  "is_digit (CHR 0x1A) = False"
  "is_digit (CHR 0x1B) = False"
  "is_digit (CHR 0x1C) = False"
  "is_digit (CHR 0x1D) = False"
  "is_digit (CHR 0x1E) = False"
  "is_digit (CHR 0x1F) = False"
  "is_digit (CHR 0x20) = False"
  "is_digit (CHR 0x21) = False"
  "is_digit (CHR 0x22) = False"
  "is_digit (CHR 0x23) = False"
  "is_digit (CHR 0x24) = False"
  "is_digit (CHR 0x25) = False"
  "is_digit (CHR 0x26) = False"
  "is_digit (CHR 0x27) = False"
  "is_digit (CHR 0x28) = False"
  "is_digit (CHR 0x29) = False"
  "is_digit (CHR 0x2A) = False"
  "is_digit (CHR 0x2B) = False"
  "is_digit (CHR 0x2C) = False"
  "is_digit (CHR 0x2D) = False"
  "is_digit (CHR 0x2E) = False"
  "is_digit (CHR 0x2F) = False"
  "is_digit (CHR 0x30) = True"
  "is_digit (CHR 0x31) = True"
  "is_digit (CHR 0x32) = True"
  "is_digit (CHR 0x33) = True"
  "is_digit (CHR 0x34) = True"
  "is_digit (CHR 0x35) = True"
  "is_digit (CHR 0x36) = True"
  "is_digit (CHR 0x37) = True"
  "is_digit (CHR 0x38) = True"
  "is_digit (CHR 0x39) = True"
  "is_digit (CHR 0x3A) = False"
  "is_digit (CHR 0x3B) = False"
  "is_digit (CHR 0x3C) = False"
  "is_digit (CHR 0x3D) = False"
  "is_digit (CHR 0x3E) = False"
  "is_digit (CHR 0x3F) = False"
  "is_digit (CHR 0x40) = False"
  "is_digit (CHR 0x41) = False"
  "is_digit (CHR 0x42) = False"
  "is_digit (CHR 0x43) = False"
  "is_digit (CHR 0x44) = False"
  "is_digit (CHR 0x45) = False"
  "is_digit (CHR 0x46) = False"
  "is_digit (CHR 0x47) = False"
  "is_digit (CHR 0x48) = False"
  "is_digit (CHR 0x49) = False"
  "is_digit (CHR 0x4A) = False"
  "is_digit (CHR 0x4B) = False"
  "is_digit (CHR 0x4C) = False"
  "is_digit (CHR 0x4D) = False"
  "is_digit (CHR 0x4E) = False"
  "is_digit (CHR 0x4F) = False"
  "is_digit (CHR 0x50) = False"
  "is_digit (CHR 0x51) = False"
  "is_digit (CHR 0x52) = False"
  "is_digit (CHR 0x53) = False"
  "is_digit (CHR 0x54) = False"
  "is_digit (CHR 0x55) = False"
  "is_digit (CHR 0x56) = False"
  "is_digit (CHR 0x57) = False"
  "is_digit (CHR 0x58) = False"
  "is_digit (CHR 0x59) = False"
  "is_digit (CHR 0x5A) = False"
  "is_digit (CHR 0x5B) = False"
  "is_digit (CHR 0x5C) = False"
  "is_digit (CHR 0x5D) = False"
  "is_digit (CHR 0x5E) = False"
  "is_digit (CHR 0x5F) = False"
  "is_digit (CHR 0x60) = False"
  "is_digit (CHR 0x61) = False"
  "is_digit (CHR 0x62) = False"
  "is_digit (CHR 0x63) = False"
  "is_digit (CHR 0x64) = False"
  "is_digit (CHR 0x65) = False"
  "is_digit (CHR 0x66) = False"
  "is_digit (CHR 0x67) = False"
  "is_digit (CHR 0x68) = False"
  "is_digit (CHR 0x69) = False"
  "is_digit (CHR 0x6A) = False"
  "is_digit (CHR 0x6B) = False"
  "is_digit (CHR 0x6C) = False"
  "is_digit (CHR 0x6D) = False"
  "is_digit (CHR 0x6E) = False"
  "is_digit (CHR 0x6F) = False"
  "is_digit (CHR 0x70) = False"
  "is_digit (CHR 0x71) = False"
  "is_digit (CHR 0x72) = False"
  "is_digit (CHR 0x73) = False"
  "is_digit (CHR 0x74) = False"
  "is_digit (CHR 0x75) = False"
  "is_digit (CHR 0x76) = False"
  "is_digit (CHR 0x77) = False"
  "is_digit (CHR 0x78) = False"
  "is_digit (CHR 0x79) = False"
  "is_digit (CHR 0x7A) = False"
  "is_digit (CHR 0x7B) = False"
  "is_digit (CHR 0x7C) = False"
  "is_digit (CHR 0x7D) = False"
  "is_digit (CHR 0x7E) = False"
  "is_digit (CHR 0x7F) = False"
  "is_digit (CHR 0x80) = False"
  "is_digit (CHR 0x81) = False"
  "is_digit (CHR 0x82) = False"
  "is_digit (CHR 0x83) = False"
  "is_digit (CHR 0x84) = False"
  "is_digit (CHR 0x85) = False"
  "is_digit (CHR 0x86) = False"
  "is_digit (CHR 0x87) = False"
  "is_digit (CHR 0x88) = False"
  "is_digit (CHR 0x89) = False"
  "is_digit (CHR 0x8A) = False"
  "is_digit (CHR 0x8B) = False"
  "is_digit (CHR 0x8C) = False"
  "is_digit (CHR 0x8D) = False"
  "is_digit (CHR 0x8E) = False"
  "is_digit (CHR 0x8F) = False"
  "is_digit (CHR 0x90) = False"
  "is_digit (CHR 0x91) = False"
  "is_digit (CHR 0x92) = False"
  "is_digit (CHR 0x93) = False"
  "is_digit (CHR 0x94) = False"
  "is_digit (CHR 0x95) = False"
  "is_digit (CHR 0x96) = False"
  "is_digit (CHR 0x97) = False"
  "is_digit (CHR 0x98) = False"
  "is_digit (CHR 0x99) = False"
  "is_digit (CHR 0x9A) = False"
  "is_digit (CHR 0x9B) = False"
  "is_digit (CHR 0x9C) = False"
  "is_digit (CHR 0x9D) = False"
  "is_digit (CHR 0x9E) = False"
  "is_digit (CHR 0x9F) = False"
  "is_digit (CHR 0xA0) = False"
  "is_digit (CHR 0xA1) = False"
  "is_digit (CHR 0xA2) = False"
  "is_digit (CHR 0xA3) = False"
  "is_digit (CHR 0xA4) = False"
  "is_digit (CHR 0xA5) = False"
  "is_digit (CHR 0xA6) = False"
  "is_digit (CHR 0xA7) = False"
  "is_digit (CHR 0xA8) = False"
  "is_digit (CHR 0xA9) = False"
  "is_digit (CHR 0xAA) = False"
  "is_digit (CHR 0xAB) = False"
  "is_digit (CHR 0xAC) = False"
  "is_digit (CHR 0xAD) = False"
  "is_digit (CHR 0xAE) = False"
  "is_digit (CHR 0xAF) = False"
  "is_digit (CHR 0xB0) = False"
  "is_digit (CHR 0xB1) = False"
  "is_digit (CHR 0xB2) = False"
  "is_digit (CHR 0xB3) = False"
  "is_digit (CHR 0xB4) = False"
  "is_digit (CHR 0xB5) = False"
  "is_digit (CHR 0xB6) = False"
  "is_digit (CHR 0xB7) = False"
  "is_digit (CHR 0xB8) = False"
  "is_digit (CHR 0xB9) = False"
  "is_digit (CHR 0xBA) = False"
  "is_digit (CHR 0xBB) = False"
  "is_digit (CHR 0xBC) = False"
  "is_digit (CHR 0xBD) = False"
  "is_digit (CHR 0xBE) = False"
  "is_digit (CHR 0xBF) = False"
  "is_digit (CHR 0xC0) = False"
  "is_digit (CHR 0xC1) = False"
  "is_digit (CHR 0xC2) = False"
  "is_digit (CHR 0xC3) = False"
  "is_digit (CHR 0xC4) = False"
  "is_digit (CHR 0xC5) = False"
  "is_digit (CHR 0xC6) = False"
  "is_digit (CHR 0xC7) = False"
  "is_digit (CHR 0xC8) = False"
  "is_digit (CHR 0xC9) = False"
  "is_digit (CHR 0xCA) = False"
  "is_digit (CHR 0xCB) = False"
  "is_digit (CHR 0xCC) = False"
  "is_digit (CHR 0xCD) = False"
  "is_digit (CHR 0xCE) = False"
  "is_digit (CHR 0xCF) = False"
  "is_digit (CHR 0xD0) = False"
  "is_digit (CHR 0xD1) = False"
  "is_digit (CHR 0xD2) = False"
  "is_digit (CHR 0xD3) = False"
  "is_digit (CHR 0xD4) = False"
  "is_digit (CHR 0xD5) = False"
  "is_digit (CHR 0xD6) = False"
  "is_digit (CHR 0xD7) = False"
  "is_digit (CHR 0xD8) = False"
  "is_digit (CHR 0xD9) = False"
  "is_digit (CHR 0xDA) = False"
  "is_digit (CHR 0xDB) = False"
  "is_digit (CHR 0xDC) = False"
  "is_digit (CHR 0xDD) = False"
  "is_digit (CHR 0xDE) = False"
  "is_digit (CHR 0xDF) = False"
  "is_digit (CHR 0xE0) = False"
  "is_digit (CHR 0xE1) = False"
  "is_digit (CHR 0xE2) = False"
  "is_digit (CHR 0xE3) = False"
  "is_digit (CHR 0xE4) = False"
  "is_digit (CHR 0xE5) = False"
  "is_digit (CHR 0xE6) = False"
  "is_digit (CHR 0xE7) = False"
  "is_digit (CHR 0xE8) = False"
  "is_digit (CHR 0xE9) = False"
  "is_digit (CHR 0xEA) = False"
  "is_digit (CHR 0xEB) = False"
  "is_digit (CHR 0xEC) = False"
  "is_digit (CHR 0xED) = False"
  "is_digit (CHR 0xEE) = False"
  "is_digit (CHR 0xEF) = False"
  "is_digit (CHR 0xF0) = False"
  "is_digit (CHR 0xF1) = False"
  "is_digit (CHR 0xF2) = False"
  "is_digit (CHR 0xF3) = False"
  "is_digit (CHR 0xF4) = False"
  "is_digit (CHR 0xF5) = False"
  "is_digit (CHR 0xF6) = False"
  "is_digit (CHR 0xF7) = False"
  "is_digit (CHR 0xF8) = False"
  "is_digit (CHR 0xF9) = False"
  "is_digit (CHR 0xFA) = False"
  "is_digit (CHR 0xFB) = False"
  "is_digit (CHR 0xFC) = False"
  "is_digit (CHR 0xFD) = False"
  "is_digit (CHR 0xFE) = False"
  "is_digit (CHR 0xFF) = False"
  by (simp_all add: is_digit_def)

lemma is_word_table [code]:
  "is_word (CHR 0x00) = False"
  "is_word (CHR 0x01) = False"
  "is_word (CHR 0x02) = False"
  "is_word (CHR 0x03) = False"
  "is_word (CHR 0x04) = False"
  "is_word (CHR 0x05) = False"
  "is_word (CHR 0x06) = False"
  "is_word (CHR 0x07) = False"
  "is_word (CHR 0x08) = False"
  "is_word (CHR 0x09) = False"
  "is_word (CHR 0x0A) = False"
  "is_word (CHR 0x0B) = False"
  "is_word (CHR 0x0C) = False"
  "is_word (CHR 0x0D) = False"
  "is_word (CHR 0x0E) = False"
  "is_word (CHR 0x0F) = False"
  "is_word (CHR 0x10) = False"
  "is_word (CHR 0x11) = False"
  "is_word (CHR 0x12) = False"
  "is_word (CHR 0x13) = False"
  "is_word (CHR 0x14) = False"
  "is_word (CHR 0x15) = False"
  "is_word (CHR 0x16) = False"
  "is_word (CHR 0x17) = False"
  "is_word (CHR 0x18) = False"
  "is_word (CHR 0x19) = False"
  "is_word (CHR 0x1A) = False"
  "is_word (CHR 0x1B) = False"
  "is_word (CHR 0x1C) = False"
  "is_word (CHR 0x1D) = False"
  "is_word (CHR 0x1E) = False"
  "is_word (CHR 0x1F) = False"
  "is_word (CHR 0x20) = False"
  "is_word (CHR 0x21) = False"
  "is_word (CHR 0x22) = False"
  "is_word (CHR 0x23) = False"
  "is_word (CHR 0x24) = False"
  "is_word (CHR 0x25) = False"
  "is_word (CHR 0x26) = False"
  "is_word (CHR 0x27) = False"
  "is_word (CHR 0x28) = False"
  "is_word (CHR 0x29) = False"
  "is_word (CHR 0x2A) = False"
  "is_word (CHR 0x2B) = False"
  "is_word (CHR 0x2C) = False"
  "is_word (CHR 0x2D) = False"
  "is_word (CHR 0x2E) = False"
  "is_word (CHR 0x2F) = False"
  "is_word (CHR 0x30) = True"
  "is_word (CHR 0x31) = True"
  "is_word (CHR 0x32) = True"
  "is_word (CHR 0x33) = True"
  "is_word (CHR 0x34) = True"
  "is_word (CHR 0x35) = True"
  "is_word (CHR 0x36) = True"
  "is_word (CHR 0x37) = True"
  "is_word (CHR 0x38) = True"
  "is_word (CHR 0x39) = True"
  "is_word (CHR 0x3A) = False"
  "is_word (CHR 0x3B) = False"
  "is_word (CHR 0x3C) = False"
  "is_word (CHR 0x3D) = False"
  "is_word (CHR 0x3E) = False"
  "is_word (CHR 0x3F) = False"
  "is_word (CHR 0x40) = False"
  "is_word (CHR 0x41) = True"
  "is_word (CHR 0x42) = True"
  "is_word (CHR 0x43) = True"
  "is_word (CHR 0x44) = True"
  "is_word (CHR 0x45) = True"
  "is_word (CHR 0x46) = True"
  "is_word (CHR 0x47) = True"
  "is_word (CHR 0x48) = True"
  "is_word (CHR 0x49) = True"
  "is_word (CHR 0x4A) = True"
  "is_word (CHR 0x4B) = True"
  "is_word (CHR 0x4C) = True"
  "is_word (CHR 0x4D) = True"
  "is_word (CHR 0x4E) = True"
  "is_word (CHR 0x4F) = True"
  "is_word (CHR 0x50) = True"
  "is_word (CHR 0x51) = True"
  "is_word (CHR 0x52) = True"
  "is_word (CHR 0x53) = True"
  "is_word (CHR 0x54) = True"
  "is_word (CHR 0x55) = True"
  "is_word (CHR 0x56) = True"
  "is_word (CHR 0x57) = True"
  "is_word (CHR 0x58) = True"
  "is_word (CHR 0x59) = True"
  "is_word (CHR 0x5A) = True"
  "is_word (CHR 0x5B) = False"
  "is_word (CHR 0x5C) = False"
  "is_word (CHR 0x5D) = False"
  "is_word (CHR 0x5E) = False"
  "is_word (CHR 0x5F) = True"
  "is_word (CHR 0x60) = False"
  "is_word (CHR 0x61) = True"
  "is_word (CHR 0x62) = True"
  "is_word (CHR 0x63) = True"
  "is_word (CHR 0x64) = True"
  "is_word (CHR 0x65) = True"
  "is_word (CHR 0x66) = True"
  "is_word (CHR 0x67) = True"
  "is_word (CHR 0x68) = True"
  "is_word (CHR 0x69) = True"
  "is_word (CHR 0x6A) = True"
  "is_word (CHR 0x6B) = True"
  "is_word (CHR 0x6C) = True"
  "is_word (CHR 0x6D) = True"
  "is_word (CHR 0x6E) = True"
  "is_word (CHR 0x6F) = True"
  "is_word (CHR 0x70) = True"
  "is_word (CHR 0x71) = True"
  "is_word (CHR 0x72) = True"
  "is_word (CHR 0x73) = True"
  "is_word (CHR 0x74) = True"
  "is_word (CHR 0x75) = True"
  "is_word (CHR 0x76) = True"
  "is_word (CHR 0x77) = True"
  "is_word (CHR 0x78) = True"
  "is_word (CHR 0x79) = True"
  "is_word (CHR 0x7A) = True"
  "is_word (CHR 0x7B) = False"
  "is_word (CHR 0x7C) = False"
  "is_word (CHR 0x7D) = False"
  "is_word (CHR 0x7E) = False"
  "is_word (CHR 0x7F) = False"
  "is_word (CHR 0x80) = False"
  "is_word (CHR 0x81) = False"
  "is_word (CHR 0x82) = False"
  "is_word (CHR 0x83) = False"
  "is_word (CHR 0x84) = False"
  "is_word (CHR 0x85) = False"
  "is_word (CHR 0x86) = False"
  "is_word (CHR 0x87) = False"
  "is_word (CHR 0x88) = False"
  "is_word (CHR 0x89) = False"
  "is_word (CHR 0x8A) = False"
  "is_word (CHR 0x8B) = False"
  "is_word (CHR 0x8C) = False"
  "is_word (CHR 0x8D) = False"
  "is_word (CHR 0x8E) = False"
  "is_word (CHR 0x8F) = False"
  "is_word (CHR 0x90) = False"
  "is_word (CHR 0x91) = False"
  "is_word (CHR 0x92) = False"
  "is_word (CHR 0x93) = False"
  "is_word (CHR 0x94) = False"
  "is_word (CHR 0x95) = False"
  "is_word (CHR 0x96) = False"
  "is_word (CHR 0x97) = False"
  "is_word (CHR 0x98) = False"
  "is_word (CHR 0x99) = False"
  "is_word (CHR 0x9A) = False"
  "is_word (CHR 0x9B) = False"
  "is_word (CHR 0x9C) = False"
  "is_word (CHR 0x9D) = False"
  "is_word (CHR 0x9E) = False"
  "is_word (CHR 0x9F) = False"
  "is_word (CHR 0xA0) = False"
  "is_word (CHR 0xA1) = False"
  "is_word (CHR 0xA2) = False"
  "is_word (CHR 0xA3) = False"
  "is_word (CHR 0xA4) = False"
  "is_word (CHR 0xA5) = False"
  "is_word (CHR 0xA6) = False"
  "is_word (CHR 0xA7) = False"
  "is_word (CHR 0xA8) = False"
  "is_word (CHR 0xA9) = False"
  "is_word (CHR 0xAA) = True"
  "is_word (CHR 0xAB) = False"
  "is_word (CHR 0xAC) = False"
  "is_word (CHR 0xAD) = False"
  "is_word (CHR 0xAE) = False"
  "is_word (CHR 0xAF) = False"
  "is_word (CHR 0xB0) = False"
  "is_word (CHR 0xB1) = False"
  "is_word (CHR 0xB2) = True"
  "is_word (CHR 0xB3) = True"
  "is_word (CHR 0xB4) = False"
  "is_word (CHR 0xB5) = True"
  "is_word (CHR 0xB6) = False"
  "is_word (CHR 0xB7) = False"
  "is_word (CHR 0xB8) = False"
  "is_word (CHR 0xB9) = True"
  "is_word (CHR 0xBA) = True"
  "is_word (CHR 0xBB) = False"
  "is_word (CHR 0xBC) = True"
  "is_word (CHR 0xBD) = True"
  "is_word (CHR 0xBE) = True"
  "is_word (CHR 0xBF) = False"
  "is_word (CHR 0xC0) = True"
  "is_word (CHR 0xC1) = True"
  "is_word (CHR 0xC2) = True"
  "is_word (CHR 0xC3) = True"
  "is_word (CHR 0xC4) = True"
  "is_word (CHR 0xC5) = True"
  "is_word (CHR 0xC6) = True"
  "is_word (CHR 0xC7) = True"
  "is_word (CHR 0xC8) = True"
  "is_word (CHR 0xC9) = True"
  "is_word (CHR 0xCA) = True"
  "is_word (CHR 0xCB) = True"
  "is_word (CHR 0xCC) = True"
  "is_word (CHR 0xCD) = True"
  "is_word (CHR 0xCE) = True"
  "is_word (CHR 0xCF) = True"
  "is_word (CHR 0xD0) = True"
  "is_word (CHR 0xD1) = True"
  "is_word (CHR 0xD2) = True"
  "is_word (CHR 0xD3) = True"
  "is_word (CHR 0xD4) = True"
  "is_word (CHR 0xD5) = True"
  "is_word (CHR 0xD6) = True"
  "is_word (CHR 0xD7) = False"
  "is_word (CHR 0xD8) = True"
  "is_word (CHR 0xD9) = True"
  "is_word (CHR 0xDA) = True"
  "is_word (CHR 0xDB) = True"
  "is_word (CHR 0xDC) = True"
  "is_word (CHR 0xDD) = True"
  "is_word (CHR 0xDE) = True"
  "is_word (CHR 0xDF) = True"
  "is_word (CHR 0xE0) = True"
  "is_word (CHR 0xE1) = True"
  "is_word (CHR 0xE2) = True"
  "is_word (CHR 0xE3) = True"
  "is_word (CHR 0xE4) = True"
  "is_word (CHR 0xE5) = True"
  "is_word (CHR 0xE6) = True"
  "is_word (CHR 0xE7) = True"
  "is_word (CHR 0xE8) = True"
  "is_word (CHR 0xE9) = True"
  "is_word (CHR 0xEA) = True"
  "is_word (CHR 0xEB) = True"
  "is_word (CHR 0xEC) = True"
  "is_word (CHR 0xED) = True"
  "is_word (CHR 0xEE) = True"
  "is_word (CHR 0xEF) = True"
  "is_word (CHR 0xF0) = True"
  "is_word (CHR 0xF1) = True"
  "is_word (CHR 0xF2) = True"
  "is_word (CHR 0xF3) = True"
  "is_word (CHR 0xF4) = True"
  "is_word (CHR 0xF5) = True"
  "is_word (CHR 0xF6) = True"
  "is_word (CHR 0xF7) = False"
  "is_word (CHR 0xF8) = True"
  "is_word (CHR 0xF9) = True"
  "is_word (CHR 0xFA) = True"
  "is_word (CHR 0xFB) = True"
  "is_word (CHR 0xFC) = True"
  "is_word (CHR 0xFD) = True"
  "is_word (CHR 0xFE) = True"
  "is_word (CHR 0xFF) = True"
  by (simp_all add: is_word_def is_digit_def is_upper_def is_lower_def)

subsection \<open>The assembler on concrete documents\<close>

lemma clean_text_examples:
  "clean_text ''7. (continued) of the shape.'' = ''7. (continued) of the shape.''"
  "clean_text ''Page 3 of 12  DO NOT WRITE IN THIS MARGIN'' = []"
  "clean_text ''1.  Find   x  SQA'' = ''1. Find x''"
  by code_simp+

text \<open>
  The branch of \<open>_process_block\<close> for continuation markers cannot be reached: a line
  that its pattern matches is matched by the pattern for main questions, whose branch
  comes before it.
\<close>

lemma continued_main_branch_unreachable:
  "continued_main_q_match l = Some x \<Longrightarrow> main_q_match l \<noteq> None"
  by (auto simp: continued_main_q_match_def main_q_match_def split: option.splits if_splits)

text \<open>
  C5, the failing input. Question 7 is open when the line \<open>7. (continued) of the shape.\<close>
  arrives. The pattern for a numbered part reads \<open>(continued)\<close> as the label of a
  part, and that branch comes first: the trailing text becomes a part labelled
  \<open>continued\<close> and the text of the question stays as it was.
\<close>

theorem continuation_with_text_becomes_a_part:
  "extract_questions
     [\<lparr>page_diagrams = [],
       blocks = [\<lparr>block_text = ''7. Find the area'', block_type = 0, in_margin = False\<rparr>,
                 \<lparr>block_text = ''7. (continued) of the shape.'', block_type = 0,
                   in_margin = False\<rparr>]\<rparr>]
   = Inr ([\<lparr>question_number = ''7.'', text = ''Find the area'', marks = None,
            parts = [\<lparr>part_label = ''continued'', part_text = ''of the shape.'',
                      part_marks = None\<rparr>],
            has_diagram = False, diagrams = []\<rparr>],
          [''--- Processing Page 1 ---'', ''Detected main question: 7.'',
           ''Detected continued sub-question: 7.(continued)'',
           ''Finalized question: 7. with 1 parts.''])"
  by code_simp

lemma continuation_marker_alone:
  "extract_questions
     [\<lparr>page_diagrams = [],
       blocks = [\<lparr>block_text = ''7. Find the area'', block_type = 0, in_margin = False\<rparr>,
                 \<lparr>block_text = ''7. (Continued)'', block_type = 0, in_margin = False\<rparr>,
                 \<lparr>block_text = ''8. (continued)'', block_type = 0, in_margin = False\<rparr>]\<rparr>]
   = Inr ([\<lparr>question_number = ''7.'', text = ''Find the area'', marks = None, parts = [],
            has_diagram = False, diagrams = []\<rparr>,
           \<lparr>question_number = ''8.'', text = ''(continued)'', marks = None, parts = [],
            has_diagram = False, diagrams = []\<rparr>],
          [''--- Processing Page 1 ---'', ''Detected main question: 7.'',
           ''Ignoring explicit continuation marker for question 7.'',
           ''Warning: Misplaced continuation marker for question 8.'',
           ''Finalized question: 7. with 0 parts.'', ''Detected main question: 8.'',
           ''Finalized question: 8. with 0 parts.''])"
  by code_simp

text \<open>
  Whatever diagrams the extractor holds while no question is open, a question that
  opens starts without diagrams.
\<close>

lemma add_part_diagrams:
  "current_question_diagrams (add_part label t m st) = current_question_diagrams st"
  by (simp add: add_part_def log_def)

lemma finalize_current_question_diagrams:
  "current_question_diagrams (finalize_current_question st) = []"
  by (simp add: finalize_current_question_def Let_def)

lemma on_main_opens_without_diagrams:
  "current_question_number st = None \<Longrightarrow>
   current_question_number (on_main q t m st) = Some (q @ ''.'') \<and>
   current_question_diagrams (on_main q t m st) = []"
  by (simp add: on_main_def Let_def log_def)

lemma on_continued_sub_opens_without_diagrams:
  "current_question_number st = None \<Longrightarrow>
   current_question_diagrams (on_continued_sub q l t m st) = []"
  by (simp add: on_continued_sub_def Let_def log_def truthy_def add_part_diagrams
      finalize_current_question_diagrams)

text \<open>
  C8, the failing input. The page carries a diagram while no question is open; its first
  block opens question 1. The diagram is made pending and handed to the extractor, but
  opening the question finalizes the (absent) current one, which resets the diagrams:
  question 1 comes out without the diagram.
\<close>

theorem pending_diagram_is_lost:
  "extract_questions
     [\<lparr>page_diagrams = [''page1_img1_0a1b2c3d.png''],
       blocks = [\<lparr>block_text = ''1. Find the area'', block_type = 0, in_margin = False\<rparr>]\<rparr>]
   = Inr ([\<lparr>question_number = ''1.'', text = ''Find the area'', marks = None, parts = [],
            has_diagram = False, diagrams = []\<rparr>],
          [''--- Processing Page 1 ---'', ''Saved image page1_img1_0a1b2c3d.png'',
           ''Detected main question: 1.'', ''Finalized question: 1. with 0 parts.''])"
  by code_simp

lemma diagram_of_open_question_is_kept:
  "extract_questions
     [\<lparr>page_diagrams = [],
       blocks = [\<lparr>block_text = ''7. Find the area'', block_type = 0, in_margin = False\<rparr>]\<rparr>,
      \<lparr>page_diagrams = [''page2_img1_0a1b2c3d.png''], blocks = []\<rparr>,
      \<lparr>page_diagrams = [],
       blocks = [\<lparr>block_text = ''8. Solve it'', block_type = 0, in_margin = False\<rparr>]\<rparr>]
   = Inr ([\<lparr>question_number = ''7.'', text = ''Find the area'', marks = None, parts = [],
            has_diagram = False, diagrams = [''page2_img1_0a1b2c3d.png'']\<rparr>,
           \<lparr>question_number = ''8.'', text = ''Solve it'', marks = None, parts = [],
            has_diagram = False, diagrams = []\<rparr>],
          [''--- Processing Page 1 ---'', ''Detected main question: 7.'',
           ''--- Processing Page 2 ---'', ''Saved image page2_img1_0a1b2c3d.png'',
           ''--- Processing Page 3 ---'', ''Finalized question: 7. with 0 parts.'',
           ''Detected main question: 8.'', ''Finalized question: 8. with 0 parts.''])"
  by code_simp

lemma orphan_part_before_any_question_raises:
  "extract_questions
     [\<lparr>page_diagrams = [],
       blocks = [\<lparr>block_text = ''(a) Show that'', block_type = 0, in_margin = False\<rparr>]\<rparr>]
   = Inl UnboundLocalError"
  by code_simp

subsection \<open>The merge of questions that share a number\<close>

lemma join_texts_snoc:
  "join_texts (ts @ [t]) = (if ts = [] then t else join_texts ts @ '' '' @ t)"
  by (cases ts) (simp_all add: join_texts_def)

lemma first_known_snoc:
  "first_known (ms @ [m]) = (if first_known ms = None then m else first_known ms)"
proof (cases "filter (\<lambda>m. m \<noteq> None) ms")
  case Nil
  then show ?thesis by (cases m) (simp_all add: first_known_def)
next
  case (Cons x xs)
  then have "x \<in> set (filter (\<lambda>m. m \<noteq> None) ms)" by simp
  then have "x \<noteq> None" by simp
  with Cons show ?thesis by (auto simp: first_known_def)
qed

lemma first_occurrences_snoc:
  "first_occurrences (ks @ [k])
     = (if k \<in> set ks then first_occurrences ks else first_occurrences ks @ [k])"
  by (simp add: first_occurrences_def)

lemma set_first_occurrences: "set (first_occurrences ks) = set ks"
  by (simp add: first_occurrences_def)

lemma distinct_first_occurrences: "distinct (first_occurrences ks)"
  by (simp add: first_occurrences_def)

lemma question_number_merge_two: "question_number (merge_two m q) = question_number m"
  by (simp add: merge_two_def)

lemma merge_into_numbers:
  "map question_number (merge_into q M)
     = (if question_number q \<in> set (map question_number M) then map question_number M
        else map question_number M @ [question_number q])"
  by (induction M) (auto simp: question_number_merge_two)

lemma merge_into_all:
  assumes "distinct (map question_number M)" and "list_all R M"
    and other: "\<And>m. R m \<Longrightarrow> question_number m \<noteq> question_number q \<Longrightarrow> R' m"
    and same: "\<And>m. R m \<Longrightarrow> question_number m = question_number q \<Longrightarrow> R' (merge_two m q)"
    and new: "question_number q \<notin> set (map question_number M) \<Longrightarrow> R' q"
  shows "list_all R' (merge_into q M)"
  using assms(1,2) new
proof (induction M)
  case Nil
  then show ?case by simp
next
  case (Cons m M)
  show ?case
  proof (cases "question_number m = question_number q")
    case True
    from Cons.prems(1) have "question_number m \<notin> question_number ` set M" by simp
    with True have "\<forall>x \<in> set M. question_number x \<noteq> question_number q"
      by (metis image_eqI)
    with Cons.prems(2) have "list_all R' M" using other by (auto simp: list_all_iff)
    moreover from Cons.prems(2) True have "R' (merge_two m q)" using same by simp
    ultimately show ?thesis using True by simp
  next
    case False
    from Cons.prems have "list_all R' (merge_into q M)"
      using False by (intro Cons.IH) auto
    moreover from Cons.prems(2) False have "R' m" using other by simp
    ultimately show ?thesis using False by simp
  qed
qed

lemma same_number_snoc_other:
  "k \<noteq> question_number q \<Longrightarrow> same_number k (qs @ [q]) = same_number k qs"
  by (simp add: same_number_def)

lemma same_number_snoc_same:
  "same_number (question_number q) (qs @ [q]) = same_number (question_number q) qs @ [q]"
  by (simp add: same_number_def)

lemma same_number_empty:
  "k \<notin> set (map question_number qs) \<Longrightarrow> same_number k qs = []"
  by (induction qs) (auto simp: same_number_def)

lemma same_number_nonempty:
  "k \<in> set (map question_number qs) \<Longrightarrow> same_number k qs \<noteq> []"
  by (induction qs) (auto simp: same_number_def)

lemma merged_from_other:
  "merged_from qs m \<Longrightarrow> question_number m \<noteq> question_number q \<Longrightarrow> merged_from (qs @ [q]) m"
  by (simp add: merged_from_def same_number_snoc_other)

lemma merged_from_new:
  assumes "question_number q \<notin> set (map question_number qs)"
  shows "merged_from (qs @ [q]) q"
proof -
  have g: "same_number (question_number q) (qs @ [q]) = [q]"
    using same_number_empty [OF assms] by (simp add: same_number_snoc_same)
  have "first_known [marks q] = marks q" by (cases "marks q") (simp_all add: first_known_def)
  then show ?thesis by (simp add: merged_from_def g join_texts_def)
qed

lemma merged_from_same:
  assumes "merged_from qs m" and k: "question_number m = question_number q"
    and "question_number q \<in> set (map question_number qs)"
  shows "merged_from (qs @ [q]) (merge_two m q)"
proof -
  let ?g = "same_number (question_number q) qs"
  have ne: "?g \<noteq> []" using assms(3) by (rule same_number_nonempty)
  have g: "same_number (question_number (merge_two m q)) (qs @ [q]) = ?g @ [q]"
    by (simp add: question_number_merge_two k same_number_snoc_same)
  from assms(1) k have m:
    "text m = join_texts (map text ?g)" "parts m = concat (map parts ?g)"
    "diagrams m = concat (map diagrams ?g)" "marks m = first_known (map marks ?g)"
    "has_diagram m = list_ex has_diagram ?g"
    by (simp_all add: merged_from_def)
  have "text (merge_two m q) = join_texts (map text (?g @ [q]))"
    using ne by (simp add: merge_two_def m(1) join_texts_snoc)
  moreover have "parts (merge_two m q) = concat (map parts (?g @ [q]))"
    by (simp add: merge_two_def m(2))
  moreover have "diagrams (merge_two m q) = concat (map diagrams (?g @ [q]))"
    by (simp add: merge_two_def m(3))
  moreover have "marks (merge_two m q) = first_known (map marks (?g @ [q]))"
    by (simp add: merge_two_def m(4) first_known_snoc)
  moreover have "has_diagram (merge_two m q) = list_ex has_diagram (?g @ [q])"
    by (simp add: merge_two_def m(5))
  ultimately show ?thesis unfolding merged_from_def g by simp
qed

lemma merge_questions_snoc: "merge_questions (qs @ [q]) = merge_into q (merge_questions qs)"
  by (simp add: merge_questions_def)

lemma merge_questions_invariant:
  "map question_number (merge_questions qs) = first_occurrences (map question_number qs) \<and>
   list_all (merged_from qs) (merge_questions qs)"
proof (induction qs rule: rev_induct)
  case Nil
  then show ?case by (simp add: merge_questions_def first_occurrences_def)
next
  case (snoc q qs)
  let ?M = "merge_questions qs"
  from snoc have keys: "map question_number ?M = first_occurrences (map question_number qs)"
    and all: "list_all (merged_from qs) ?M" by simp_all
  have set_keys: "set (map question_number ?M) = set (map question_number qs)"
    by (simp only: keys set_first_occurrences)
  have dist: "distinct (map question_number ?M)"
    by (simp only: keys distinct_first_occurrences)
  have a: "map question_number (merge_into q ?M)
      = first_occurrences (map question_number (qs @ [q]))"
    using set_keys by (simp add: merge_into_numbers keys first_occurrences_snoc)
  have "list_all (\<lambda>m. question_number m \<in> set (map question_number qs)) ?M"
    using set_keys by (auto simp: list_all_iff)
  with all have all': "list_all (\<lambda>m. merged_from qs m \<and>
      question_number m \<in> set (map question_number qs)) ?M"
    by (simp add: list_all_iff)
  have b: "list_all (merged_from (qs @ [q])) (merge_into q ?M)"
  proof (rule merge_into_all [OF dist all'])
    fix m assume "merged_from qs m \<and> question_number m \<in> set (map question_number qs)"
      "question_number m \<noteq> question_number q"
    then show "merged_from (qs @ [q]) m" by (simp add: merged_from_other)
  next
    fix m assume m: "merged_from qs m \<and> question_number m \<in> set (map question_number qs)"
      "question_number m = question_number q"
    then have "question_number q \<in> set (map question_number qs)" by simp
    with m show "merged_from (qs @ [q]) (merge_two m q)" by (intro merged_from_same) simp_all
  next
    assume "question_number q \<notin> set (map question_number ?M)"
    then have "question_number q \<notin> set (map question_number qs)"
      by (simp only: set_keys not_False_eq_True)
    then show "merged_from (qs @ [q]) q" by (rule merged_from_new)
  qed
  from a b show ?case by (simp add: merge_questions_snoc)
qed

subsection \<open>The merged records\<close>

lemma clean_question_fields:
  assumes "clean_question m = Some m'"
  shows "question_number m' = question_number m" "marks m' = marks m"
    "text m' = strip (collapse_spaces (text m))"
    "set (diagrams m') = set (diagrams m)" "distinct (diagrams m')" "sorted (diagrams m')"
    "map part_label (parts m') = map part_label (filter (\<lambda>p. part_text p \<noteq> []) (parts m))"
  using assms by (auto simp: clean_question_def Let_def comp_def split: if_splits)

lemma handle_multi_page_questions_id:
  "list_all (\<lambda>q. \<not> contains ''continued'' (lower (ff_text q))) ps \<Longrightarrow>
   handle_multi_page_questions ps = ps"
  by (induction ps rule: handle_multi_page_questions.induct) auto

lemma validate_question_numbers:
  "map question_number (fst (validate_question q)) = [] \<or>
   map question_number (fst (validate_question q)) = [question_number q]"
  by (auto simp: validate_question_def clean_question_def Let_def split: option.splits)

lemma distinct_validated:
  "distinct (map question_number M) \<Longrightarrow>
   distinct (map question_number (concat (map (\<lambda>q. fst (validate_question q)) M))) \<and>
   set (map question_number (concat (map (\<lambda>q. fst (validate_question q)) M)))
     \<subseteq> set (map question_number M)"
proof (induction M)
  case Nil
  then show ?case by simp
next
  case (Cons q M)
  then have IH: "distinct (map question_number (concat (map (\<lambda>q. fst (validate_question q)) M)))"
    "set (map question_number (concat (map (\<lambda>q. fst (validate_question q)) M)))
       \<subseteq> set (map question_number M)"
    and q: "question_number q \<notin> set (map question_number M)" by simp_all
  from validate_question_numbers [of q] show ?case
  proof
    assume "map question_number (fst (validate_question q)) = []"
    with IH show ?thesis by auto
  next
    assume "map question_number (fst (validate_question q)) = [question_number q]"
    with IH q show ?thesis by auto
  qed
qed

lemma merge_questions_keys:
  "map question_number (merge_questions qs) = first_occurrences (map question_number qs)"
  using merge_questions_invariant [of qs] by simp

lemma merge_questions_merged_from:
  "m \<in> set (merge_questions qs) \<Longrightarrow> merged_from qs m"
  using merge_questions_invariant [of qs] by (simp add: list_all_iff)

lemma save_questions_distinct:
  "distinct (map question_number (fst (save_questions st)))"
proof -
  have "distinct (map question_number (merge_questions (self_questions st)))"
    by (simp only: merge_questions_keys distinct_first_occurrences)
  from distinct_validated [OF this] show ?thesis
    by (simp add: save_questions_def Let_def comp_def)
qed

subsection \<open>Questions that share a number\<close>

text \<open>
  C4 (as the code has it). \<open>_save_questions\<close> of advanced\_pdf\_extractor\_v2 leaves one
  record for each question number, in the order in which the numbers were first met. The
  record of a number holds the texts of all records with that number joined by single
  spaces, their parts one list after the other, their diagrams one list after the other
  and the first marks that are known, all in the order of the records; the last clean-up
  keeps number and marks and turns the diagrams into a sorted list without repetition of
  the same file names; and no two records of the saved list share a number.
  \<open>_handle_multi_page_questions\<close> of final\_extractor\_fixed does not look at the numbers:
  while no text contains \<open>continued\<close>, it returns the list as it is.
\<close>

theorem cross_page_merge:
  "distinct (map question_number (merge_questions qs)) \<and>
   map question_number (merge_questions qs) = first_occurrences (map question_number qs) \<and>
   (\<forall>m \<in> set (merge_questions qs).
      text m = join_texts (map text (same_number (question_number m) qs)) \<and>
      parts m = concat (map parts (same_number (question_number m) qs)) \<and>
      diagrams m = concat (map diagrams (same_number (question_number m) qs)) \<and>
      marks m = first_known (map marks (same_number (question_number m) qs))) \<and>
   (clean_question m = Some m' \<longrightarrow>
      question_number m' = question_number m \<and> marks m' = marks m \<and>
      set (diagrams m') = set (diagrams m) \<and> distinct (diagrams m') \<and> sorted (diagrams m')) \<and>
   distinct (map question_number (fst (save_questions st))) \<and>
   (list_all (\<lambda>q. \<not> contains ''continued'' (lower (ff_text q))) ps \<longrightarrow>
      handle_multi_page_questions ps = ps)"
proof -
  have a: "distinct (map question_number (merge_questions qs))"
    by (simp only: merge_questions_keys distinct_first_occurrences)
  have b: "map question_number (merge_questions qs) = first_occurrences (map question_number qs)"
    by (rule merge_questions_keys)
  have c: "\<forall>m \<in> set (merge_questions qs).
      text m = join_texts (map text (same_number (question_number m) qs)) \<and>
      parts m = concat (map parts (same_number (question_number m) qs)) \<and>
      diagrams m = concat (map diagrams (same_number (question_number m) qs)) \<and>
      marks m = first_known (map marks (same_number (question_number m) qs))"
  proof
    fix m assume "m \<in> set (merge_questions qs)"
    then have "merged_from qs m" by (rule merge_questions_merged_from)
    then show "text m = join_texts (map text (same_number (question_number m) qs)) \<and>
      parts m = concat (map parts (same_number (question_number m) qs)) \<and>
      diagrams m = concat (map diagrams (same_number (question_number m) qs)) \<and>
      marks m = first_known (map marks (same_number (question_number m) qs))"
      by (simp add: merged_from_def)
  qed
  have d: "clean_question m = Some m' \<longrightarrow>
      question_number m' = question_number m \<and> marks m' = marks m \<and>
      set (diagrams m') = set (diagrams m) \<and> distinct (diagrams m') \<and> sorted (diagrams m')"
    using clean_question_fields [of m m'] by blast
  have e: "distinct (map question_number (fst (save_questions st)))"
    by (rule save_questions_distinct)
  have f: "list_all (\<lambda>q. \<not> contains ''continued'' (lower (ff_text q))) ps \<longrightarrow>
      handle_multi_page_questions ps = ps"
    using handle_multi_page_questions_id [of ps] by blast
  from a b c d e f show ?thesis by (intro conjI)
qed

text \<open>
  The theorem at three records, two of them numbered 7: they come out as one record,
  before the record numbered 8.
\<close>

theorem cross_page_merge_witness:
  "\<lparr>question_number = ''7.'', text = ''Find the area of the shape.'', marks = Some 3,
     parts = [\<lparr>part_label = ''a'', part_text = ''State its perimeter.'', part_marks = None\<rparr>],
     has_diagram = False, diagrams = [''page2_img1.png'', ''page1_img1.png'']\<rparr>
     \<in> set (merge_questions
          [\<lparr>question_number = ''7.'', text = ''Find the area'', marks = None, parts = [],
             has_diagram = False, diagrams = [''page2_img1.png'']\<rparr>,
           \<lparr>question_number = ''8.'', text = ''Solve it'', marks = Some 2, parts = [],
             has_diagram = False, diagrams = []\<rparr>,
           \<lparr>question_number = ''7.'', text = ''of the shape.'', marks = Some 3,
             parts = [\<lparr>part_label = ''a'', part_text = ''State its perimeter.'',
                       part_marks = None\<rparr>],
             has_diagram = False, diagrams = [''page1_img1.png'']\<rparr>]) \<and>
   ''Find the area of the shape.''
     = join_texts (map text (same_number ''7.''
          [\<lparr>question_number = ''7.'', text = ''Find the area'', marks = None, parts = [],
             has_diagram = False, diagrams = [''page2_img1.png'']\<rparr>,
           \<lparr>question_number = ''8.'', text = ''Solve it'', marks = Some 2, parts = [],
             has_diagram = False, diagrams = []\<rparr>,
           \<lparr>question_number = ''7.'', text = ''of the shape.'', marks = Some 3,
             parts = [\<lparr>part_label = ''a'', part_text = ''State its perimeter.'',
                       part_marks = None\<rparr>],
             has_diagram = False, diagrams = [''page1_img1.png'']\<rparr>])) \<and>
   clean_question
     \<lparr>question_number = ''7.'', text = ''Find the area of the shape.'', marks = Some 3,
       parts = [\<lparr>part_label = ''a'', part_text = ''State its perimeter.'', part_marks = None\<rparr>],
       has_diagram = False, diagrams = [''page2_img1.png'', ''page1_img1.png'']\<rparr>
     = Some \<lparr>question_number = ''7.'', text = ''Find the area of the shape.'', marks = Some 3,
       parts = [\<lparr>part_label = ''a'', part_text = ''State its perimeter.'', part_marks = None\<rparr>],
       has_diagram = False, diagrams = [''page1_img1.png'', ''page2_img1.png'']\<rparr> \<and>
   sorted [''page1_img1.png'', ''page2_img1.png''] \<and>
   list_all (\<lambda>q. \<not> contains ''continued'' (lower (ff_text q)))
     [\<lparr>question_number = ''7.'', ff_text = ''Find the area'', ff_marks = PyInt 1,
        ff_topic = ''other'', ff_metadata = Map.empty, ff_diagrams = [],
        has_diagram_reference = False\<rparr>] \<and>
   handle_multi_page_questions
     [\<lparr>question_number = ''7.'', ff_text = ''Find the area'', ff_marks = PyInt 1,
        ff_topic = ''other'', ff_metadata = Map.empty, ff_diagrams = [],
        has_diagram_reference = False\<rparr>]
     = [\<lparr>question_number = ''7.'', ff_text = ''Find the area'', ff_marks = PyInt 1,
        ff_topic = ''other'', ff_metadata = Map.empty, ff_diagrams = [],
        has_diagram_reference = False\<rparr>]"
proof -
  let ?qs = "[\<lparr>question_number = ''7.'', text = ''Find the area'', marks = None, parts = [],
             has_diagram = False, diagrams = [''page2_img1.png'']\<rparr>,
           \<lparr>question_number = ''8.'', text = ''Solve it'', marks = Some 2, parts = [],
             has_diagram = False, diagrams = []\<rparr>,
           \<lparr>question_number = ''7.'', text = ''of the shape.'', marks = Some 3,
             parts = [\<lparr>part_label = ''a'', part_text = ''State its perimeter.'',
                       part_marks = None\<rparr>],
             has_diagram = False, diagrams = [''page1_img1.png'']\<rparr>]"
  let ?m = "\<lparr>question_number = ''7.'', text = ''Find the area of the shape.'', marks = Some 3,
     parts = [\<lparr>part_label = ''a'', part_text = ''State its perimeter.'', part_marks = None\<rparr>],
     has_diagram = False, diagrams = [''page2_img1.png'', ''page1_img1.png'']\<rparr>"
  let ?m' = "\<lparr>question_number = ''7.'', text = ''Find the area of the shape.'', marks = Some 3,
       parts = [\<lparr>part_label = ''a'', part_text = ''State its perimeter.'', part_marks = None\<rparr>],
       has_diagram = False, diagrams = [''page1_img1.png'', ''page2_img1.png'']\<rparr>"
  let ?ps = "[\<lparr>question_number = ''7.'', ff_text = ''Find the area'', ff_marks = PyInt 1,
        ff_topic = ''other'', ff_metadata = Map.empty, ff_diagrams = [],
        has_diagram_reference = False\<rparr>]"
  have mem: "?m \<in> set (merge_questions ?qs)"
    by (simp add: merge_questions_def merge_two_def)
  have cl: "clean_question ?m = Some ?m'" by code_simp
  have la: "list_all (\<lambda>q. \<not> contains ''continued'' (lower (ff_text q))) ?ps" by code_simp
  note t = cross_page_merge [where qs = ?qs and m = ?m and m' = ?m' and ps = ?ps]
  from t mem have "text ?m = join_texts (map text (same_number (question_number ?m) ?qs))"
    by blast
  then have tx: "''Find the area of the shape.'' = join_texts (map text (same_number ''7.'' ?qs))"
    by simp
  from t cl have "sorted (diagrams ?m')" by blast
  then have so: "sorted [''page1_img1.png'', ''page2_img1.png'']" by simp
  from t la have hm: "handle_multi_page_questions ?ps = ?ps" by blast
  from mem tx cl so la hm show ?thesis by (intro conjI)
qed

text \<open>
  C4 as the specification states it fails for \<open>_handle_multi_page_questions\<close>: two
  records that share the number 7 stay two records.
\<close>

theorem cross_page_merge_counterexample:
  "map question_number (handle_multi_page_questions
     [\<lparr>question_number = ''7.'', ff_text = ''Find the area of the shape.'', ff_marks = PyInt 1,
        ff_topic = ''other'', ff_metadata = Map.empty, ff_diagrams = [],
        has_diagram_reference = False\<rparr>,
      \<lparr>question_number = ''7.'', ff_text = ''Hence find its perimeter.'', ff_marks = PyInt 1,
        ff_topic = ''other'', ff_metadata = Map.empty, ff_diagrams = [],
        has_diagram_reference = False\<rparr>]) = [''7.'', ''7.'']"
  by code_simp

subsection \<open>The labels of the parts\<close>

lemma self_questions_logs:
  "(\<And>s p. self_questions (g s p) = self_questions s) \<Longrightarrow>
   self_questions (foldl g st ps) = self_questions st"
  by (induction ps arbitrary: st) simp_all

lemma part_label_finalize_part: "part_label (finalize_part p) = part_label p"
  by (simp add: finalize_part_def Let_def)

lemma map_part_label_finalized:
  "map part_label (filter (\<lambda>p. part_text p \<noteq> []) (map finalize_part ps))
     = map part_label (filter (\<lambda>p. part_text (finalize_part p) \<noteq> []) ps)"
  by (induction ps) (simp_all add: part_label_finalize_part)

lemma finalize_open_labels:
  "self_questions (finalize_open number st) = self_questions st \<or>
   (\<exists>q. self_questions (finalize_open number st) = self_questions st @ [q] \<and>
      question_number q = number \<and>
      map part_label (parts q)
        = map part_label (filter (\<lambda>p. part_text (finalize_part p) \<noteq> []) (current_parts st)))"
  by (simp add: finalize_open_def Let_def log_def self_questions_logs map_part_label_finalized)

lemma merged_part_labels:
  assumes "m \<in> set (merge_questions qs)"
  shows "map part_label (parts m)
           = concat (map (\<lambda>q. map part_label (parts q)) (same_number (question_number m) qs))"
proof -
  from assms have "merged_from qs m" by (rule merge_questions_merged_from)
  then have "parts m = concat (map parts (same_number (question_number m) qs))"
    by (simp add: merged_from_def)
  then show ?thesis by (simp add: map_concat comp_def)
qed

text \<open>
  C7 (as the code has it). In advanced\_pdf\_extractor\_v2 the label of a part is never
  rewritten, and the parts of a question are never sorted nor compared with each other:
  \<open>_add_part\<close> appends the part with the label it is given, finalizing a question keeps
  the parts with a non-empty text in their order and with their labels, the merge of the
  records that share a number puts their part lists one after the other, and the last
  clean-up again keeps the parts with a non-empty text in their order. So the labels of
  a saved question are the detected labels in the order of detection, repeated labels
  included.
\<close>

theorem part_labels_kept:
  "(truthy (current_question_number st) \<longrightarrow>
      map part_label (current_parts (add_part label t mk st))
        = map part_label (current_parts st) @ [label]) \<and>
   part_label (finalize_part p) = part_label p \<and>
   (self_questions (finalize_open number st) = self_questions st \<or>
    (\<exists>q. self_questions (finalize_open number st) = self_questions st @ [q] \<and>
       question_number q = number \<and>
       map part_label (parts q)
         = map part_label (filter (\<lambda>p. part_text (finalize_part p) \<noteq> []) (current_parts st)))) \<and>
   (\<forall>m \<in> set (merge_questions qs).
      map part_label (parts m)
        = concat (map (\<lambda>q. map part_label (parts q)) (same_number (question_number m) qs))) \<and>
   (clean_question m = Some m' \<longrightarrow>
      map part_label (parts m')
        = map part_label (filter (\<lambda>p. part_text p \<noteq> []) (parts m)))"
proof -
  have a: "truthy (current_question_number st) \<longrightarrow>
      map part_label (current_parts (add_part label t mk st))
        = map part_label (current_parts st) @ [label]"
    by (simp add: add_part_def)
  have b: "part_label (finalize_part p) = part_label p" by (rule part_label_finalize_part)
  note c = finalize_open_labels [of number st]
  have d: "\<forall>m \<in> set (merge_questions qs).
      map part_label (parts m)
        = concat (map (\<lambda>q. map part_label (parts q)) (same_number (question_number m) qs))"
    using merged_part_labels by blast
  have e: "clean_question m = Some m' \<longrightarrow>
      map part_label (parts m')
        = map part_label (filter (\<lambda>p. part_text p \<noteq> []) (parts m))"
    using clean_question_fields(7) [of m m'] by blast
  from a b c d e show ?thesis by (intro conjI)
qed

text \<open>
  The theorem at an extractor with question 5 open, and at two records numbered 5 whose
  parts are labelled b, a and b.
\<close>

theorem part_labels_kept_witness:
  "truthy (current_question_number (initial_extractor\<lparr>current_question_number := Some ''5.''\<rparr>)) \<and>
   map part_label (current_parts
       (add_part ''b'' ''Find y.'' None (initial_extractor\<lparr>current_question_number := Some ''5.''\<rparr>)))
     = [''b''] \<and>
   \<lparr>question_number = ''5.'', text = ''Express x Hence'', marks = None,
     parts = [\<lparr>part_label = ''b'', part_text = ''Find y.'', part_marks = None\<rparr>,
              \<lparr>part_label = ''a'', part_text = ''Find z.'', part_marks = None\<rparr>,
              \<lparr>part_label = ''b'', part_text = ''Find w.'', part_marks = None\<rparr>],
     has_diagram = False, diagrams = []\<rparr>
     \<in> set (merge_questions
          [\<lparr>question_number = ''5.'', text = ''Express x'', marks = None,
             parts = [\<lparr>part_label = ''b'', part_text = ''Find y.'', part_marks = None\<rparr>,
                      \<lparr>part_label = ''a'', part_text = ''Find z.'', part_marks = None\<rparr>],
             has_diagram = False, diagrams = []\<rparr>,
           \<lparr>question_number = ''5.'', text = ''Hence'', marks = None,
             parts = [\<lparr>part_label = ''b'', part_text = ''Find w.'', part_marks = None\<rparr>],
             has_diagram = False, diagrams = []\<rparr>]) \<and>
   [''b'', ''a'', ''b'']
     = concat (map (\<lambda>q. map part_label (parts q)) (same_number ''5.''
          [\<lparr>question_number = ''5.'', text = ''Express x'', marks = None,
             parts = [\<lparr>part_label = ''b'', part_text = ''Find y.'', part_marks = None\<rparr>,
                      \<lparr>part_label = ''a'', part_text = ''Find z.'', part_marks = None\<rparr>],
             has_diagram = False, diagrams = []\<rparr>,
           \<lparr>question_number = ''5.'', text = ''Hence'', marks = None,
             parts = [\<lparr>part_label = ''b'', part_text = ''Find w.'', part_marks = None\<rparr>],
             has_diagram = False, diagrams = []\<rparr>])) \<and>
   clean_question
     \<lparr>question_number = ''5.'', text = ''Express x Hence'', marks = None,
       parts = [\<lparr>part_label = ''b'', part_text = ''Find y.'', part_marks = None\<rparr>,
                \<lparr>part_label = ''a'', part_text = ''Find z.'', part_marks = None\<rparr>,
                \<lparr>part_label = ''b'', part_text = ''Find w.'', part_marks = None\<rparr>],
       has_diagram = False, diagrams = []\<rparr>
     = Some \<lparr>question_number = ''5.'', text = ''Express x Hence'', marks = None,
       parts = [\<lparr>part_label = ''b'', part_text = ''Find y.'', part_marks = None\<rparr>,
                \<lparr>part_label = ''a'', part_text = ''Find z.'', part_marks = None\<rparr>,
                \<lparr>part_label = ''b'', part_text = ''Find w.'', part_marks = None\<rparr>],
       has_diagram = False, diagrams = []\<rparr>"
proof -
  let ?st = "initial_extractor\<lparr>current_question_number := Some ''5.''\<rparr>"
  let ?qs = "[\<lparr>question_number = ''5.'', text = ''Express x'', marks = None,
             parts = [\<lparr>part_label = ''b'', part_text = ''Find y.'', part_marks = None\<rparr>,
                      \<lparr>part_label = ''a'', part_text = ''Find z.'', part_marks = None\<rparr>],
             has_diagram = False, diagrams = []\<rparr>,
           \<lparr>question_number = ''5.'', text = ''Hence'', marks = None,
             parts = [\<lparr>part_label = ''b'', part_text = ''Find w.'', part_marks = None\<rparr>],
             has_diagram = False, diagrams = []\<rparr>]"
  let ?m = "\<lparr>question_number = ''5.'', text = ''Express x Hence'', marks = None,
     parts = [\<lparr>part_label = ''b'', part_text = ''Find y.'', part_marks = None\<rparr>,
              \<lparr>part_label = ''a'', part_text = ''Find z.'', part_marks = None\<rparr>,
              \<lparr>part_label = ''b'', part_text = ''Find w.'', part_marks = None\<rparr>],
     has_diagram = False, diagrams = []\<rparr>"
  have tr: "truthy (current_question_number ?st)"
    by (simp add: truthy_def)
  have mem: "?m \<in> set (merge_questions ?qs)"
    by (simp add: merge_questions_def merge_two_def)
  have cl: "clean_question ?m = Some ?m" by code_simp
  note t = part_labels_kept [where st = ?st and label = "''b''" and t = "''Find y.''"
      and mk = None and qs = ?qs and m = ?m and m' = ?m]
  from t tr have "map part_label (current_parts (add_part ''b'' ''Find y.'' None ?st))
      = map part_label (current_parts ?st) @ [''b'']" by blast
  then have ap: "map part_label (current_parts (add_part ''b'' ''Find y.'' None ?st)) = [''b'']"
    by (simp add: initial_extractor_def)
  from t mem have "map part_label (parts ?m)
      = concat (map (\<lambda>q. map part_label (parts q)) (same_number (question_number ?m) ?qs))"
    by blast
  then have lb: "[''b'', ''a'', ''b'']
      = concat (map (\<lambda>q. map part_label (parts q)) (same_number ''5.'' ?qs))"
    by simp
  from tr ap mem lb cl show ?thesis by (intro conjI)
qed

text \<open>
  C7 as the specification states it fails: parts detected with the labels b, a and b
  are saved with these labels in this order, neither sorted nor freed of the repeated
  label.
\<close>

theorem part_labels_counterexample:
  "(case extract_questions
      [\<lparr>page_diagrams = [],
        blocks = [\<lparr>block_text = ''5. Express x in the form'', block_type = 0, in_margin = False\<rparr>,
                  \<lparr>block_text = ''(b) Find the second value.'', block_type = 0, in_margin = False\<rparr>,
                  \<lparr>block_text = ''(a) Find the first value.'', block_type = 0, in_margin = False\<rparr>,
                  \<lparr>block_text = ''(b) Find it again.'', block_type = 0, in_margin = False\<rparr>]\<rparr>]
    of Inl e \<Rightarrow> [] | Inr (qs, lg) \<Rightarrow> map (\<lambda>q. map part_label (parts q)) qs)
   = [[''b'', ''a'', ''b'']]"
  by code_simp

subsection \<open>Orphaned parts\<close>









text \<open>
  Two ways in which an orphaned part stops the extraction with an exception, which the
  theorem leaves out: no question has been finalized yet, and a label of more than one
  character meets a last question that has parts.
\<close>

lemma orphan_part_raises:
  "process_block ''(a) Show that'' 0 initial_extractor = Inl UnboundLocalError"
  "process_block ''(ii) Hence find y.'' 0
     (initial_extractor\<lparr>self_questions :=
        [\<lparr>question_number = ''1.'', text = ''Evaluate'', marks = None,
           parts = [\<lparr>part_label = ''i'', part_text = ''Find x.'', part_marks = None\<rparr>],
           has_diagram = False, diagrams = []\<rparr>]\<rparr>) = Inl TypeError"
  by code_simp+

end
